(* ===== verification/Prelude.thy ===== *)
theory Prelude
  imports Complex_Main "HOL-Library.Sublist"
begin

text \<open>
  The shared layer of the development: Go's fixed-width integers and truncated
  division, the functions of Go's \<open>strings\<close> package that the sources call, and the
  named fact collections the component theories add to.

  A Go string is a sequence of bytes, here a \<open>string\<close> (a list of 8-bit characters).
  Case folding and space trimming are modelled on ASCII, the alphabet of every
  literal the code compares with.
\<close>

named_theorems gosimps "evaluation rules for the Go primitives"
named_theorems pathsimps "rewriting of cleaned path elements"

section \<open>Integers\<close>

text \<open>
  \<open>int64\<close> values are integers in the signed 64-bit range; \<open>i64\<close> is the
  wrap-around Go applies to the result of every \<open>+\<close>, \<open>-\<close> and \<open>*\<close>.
\<close>

type_synonym int64 = int

definition i64 :: "int \<Rightarrow> int64" where
  "i64 x = (x + 2 ^ 63) mod 2 ^ 64 - 2 ^ 63"

definition in_i64 :: "int \<Rightarrow> bool" where
  "in_i64 x \<longleftrightarrow> - (2 ^ 63) \<le> x \<and> x < 2 ^ 63"

lemma in_i64_i64 [simp]: "in_i64 (i64 x)"
proof -
  have "0 \<le> (x + 2 ^ 63) mod 2 ^ 64" "(x + 2 ^ 63) mod 2 ^ 64 < (2 ^ 64 :: int)"
    by simp_all
  then show ?thesis
    unfolding in_i64_def i64_def by simp
qed

lemma i64_id: "in_i64 x \<Longrightarrow> i64 x = x"
  unfolding in_i64_def i64_def by (simp add: mod_pos_pos_trivial)

lemma i64_small: "0 \<le> x \<Longrightarrow> x < 2 ^ 63 \<Longrightarrow> i64 x = x"
  by (rule i64_id) (simp add: in_i64_def)

lemma i64_add: "i64 (i64 a + b) = i64 (a + b)"
proof -
  have "(i64 a + b + 2 ^ 63) mod 2 ^ 64 = ((a + 2 ^ 63) mod 2 ^ 64 + b) mod 2 ^ 64"
    unfolding i64_def by (rule arg_cong[where f = "\<lambda>x. x mod 2 ^ 64"]) linarith
  also have "\<dots> = (a + 2 ^ 63 + b) mod 2 ^ 64" by (rule mod_add_left_eq)
  also have "\<dots> = (a + b + 2 ^ 63) mod 2 ^ 64" by (simp add: algebra_simps)
  finally show ?thesis by (simp only: i64_def)
qed

lemma i64_diff: "i64 (a - i64 b) = i64 (a - b)"
proof -
  have "(a - i64 b + 2 ^ 63) mod 2 ^ 64 = (a + 2 ^ 63 + 2 ^ 63 - (b + 2 ^ 63) mod 2 ^ 64) mod 2 ^ 64"
    unfolding i64_def by (rule arg_cong[where f = "\<lambda>x. x mod 2 ^ 64"]) linarith
  also have "\<dots> = (a + 2 ^ 63 + 2 ^ 63 - (b + 2 ^ 63)) mod 2 ^ 64" by (rule mod_diff_right_eq)
  also have "\<dots> = (a - b + 2 ^ 63) mod 2 ^ 64" by (simp add: algebra_simps)
  finally show ?thesis by (simp only: i64_def)
qed

text \<open>Go's \<open>/\<close> on signed integers truncates towards zero.\<close>

definition go_div :: "int \<Rightarrow> int \<Rightarrow> int" where
  "go_div a b = sgn a * sgn b * (\<bar>a\<bar> div \<bar>b\<bar>)"

lemma go_div_nonneg: "0 \<le> a \<Longrightarrow> 0 < b \<Longrightarrow> go_div a b = a div b"
  unfolding go_div_def by (cases "a = 0") (auto simp: sgn_if)

section \<open>Strings\<close>

definition ascii_lower :: "char \<Rightarrow> char" where
  "ascii_lower c = (let n = (of_char c :: nat) in
     if 65 \<le> n \<and> n \<le> 90 then char_of (n + 32) else c)"

definition ascii_upper :: "char \<Rightarrow> char" where
  "ascii_upper c = (let n = (of_char c :: nat) in
     if 97 \<le> n \<and> n \<le> 122 then char_of (n - 32) else c)"

definition to_lower :: "string \<Rightarrow> string" where
  "to_lower s = map ascii_lower s"

definition to_upper :: "string \<Rightarrow> string" where
  "to_upper s = map ascii_upper s"

definition is_space :: "char \<Rightarrow> bool" where
  "is_space c \<longleftrightarrow> (let n = (of_char c :: nat) in n = 32 \<or> (9 \<le> n \<and> n \<le> 13))"

definition trim_space :: "string \<Rightarrow> string" where
  "trim_space s = rev (dropWhile is_space (rev (dropWhile is_space s)))"

definition trim_chars :: "char list \<Rightarrow> string \<Rightarrow> string" where
  "trim_chars cs s = rev (dropWhile (\<lambda>c. c \<in> set cs) (rev (dropWhile (\<lambda>c. c \<in> set cs) s)))"

definition has_prefix :: "string \<Rightarrow> string \<Rightarrow> bool" where
  "has_prefix s p = prefix p s"

definition has_suffix :: "string \<Rightarrow> string \<Rightarrow> bool" where
  "has_suffix s p = suffix p s"

definition contains_str :: "string \<Rightarrow> string \<Rightarrow> bool" where
  "contains_str s p = sublist p s"

definition trim_prefix :: "string \<Rightarrow> string \<Rightarrow> string" where
  "trim_prefix s p = (if has_prefix s p then drop (length p) s else s)"

definition trim_suffix :: "string \<Rightarrow> string \<Rightarrow> string" where
  "trim_suffix s p = (if has_suffix s p then take (length s - length p) s else s)"

text \<open>\<open>strings.CutPrefix\<close>: the rest and whether the prefix was there.\<close>

definition cut_prefix :: "string \<Rightarrow> string \<Rightarrow> string option" where
  "cut_prefix s p = (if has_prefix s p then Some (drop (length p) s) else None)"

text \<open>What \<open>io.LimitReader\<close> lets through.\<close>

definition read_limited :: "int \<Rightarrow> string \<Rightarrow> string" where
  "read_limited n body = (if int (length body) \<le> n then body else take (nat n) body)"

fun split_on :: "char \<Rightarrow> string \<Rightarrow> string list" where
  "split_on c [] = [[]]"
| "split_on c (x # xs) =
     (if x = c then [] # split_on c xs
      else (case split_on c xs of [] \<Rightarrow> [[x]] | y # ys \<Rightarrow> (x # y) # ys))"

fun join_with :: "string \<Rightarrow> string list \<Rightarrow> string" where
  "join_with sep [] = []"
| "join_with sep [x] = x"
| "join_with sep (x # y # ys) = x @ sep @ join_with sep (y # ys)"

text \<open>\<open>strings.Fields\<close>: the maximal runs of non-space characters.\<close>

fun str_fields_acc :: "string \<Rightarrow> string \<Rightarrow> string list" where
  "str_fields_acc w [] = (if w = [] then [] else [rev w])"
| "str_fields_acc w (c # cs) =
     (if is_space c then (if w = [] then str_fields_acc [] cs else rev w # str_fields_acc [] cs)
      else str_fields_acc (c # w) cs)"

definition str_fields :: "string \<Rightarrow> string list" where
  "str_fields s = str_fields_acc [] s"

lemma split_on_not_Nil [simp]: "split_on c s \<noteq> []"
  by (induction s) (auto split: list.splits)

lemma split_on_no_sep: "c \<notin> set s \<Longrightarrow> split_on c s = [s]"
  by (induction s) auto

lemma split_on_elem: "e \<in> set (split_on c s) \<Longrightarrow> c \<notin> set e"
proof (induction s arbitrary: e)
  case Nil
  then show ?case by simp
next
  case (Cons x xs)
  then show ?case
    by (cases "split_on c xs") (auto split: if_splits)
qed

lemma split_on_append:
  "c \<notin> set s \<Longrightarrow> split_on c (s @ c # t) = s # split_on c t"
  by (induction s) auto

lemma split_join:
  "ss \<noteq> [] \<Longrightarrow> (\<And>s. s \<in> set ss \<Longrightarrow> c \<notin> set s) \<Longrightarrow> split_on c (join_with [c] ss) = ss"
proof (induction "[c]" ss rule: join_with.induct)
  case (3 x y ys)
  have "split_on c (join_with [c] (y # ys)) = y # ys"
    using "3.hyps" "3.prems"(2) by auto
  moreover have "c \<notin> set x" using "3.prems"(2) by auto
  ultimately show ?case by (simp add: split_on_append)
qed (auto simp: split_on_no_sep)

lemma join_split [simp]: "join_with [c] (split_on c s) = s"
proof (induction s)
  case Nil
  then show ?case by simp
next
  case (Cons x xs)
  show ?case
  proof (cases "split_on c xs")
    case Nil
    then show ?thesis by simp
  next
    case (Cons y ys)
    with Cons.IH show ?thesis by (cases ys) auto
  qed
qed

lemma cut_prefix_Some: "cut_prefix s p = Some r \<longleftrightarrow> s = p @ r"
  by (auto simp: cut_prefix_def has_prefix_def prefix_def)

lemma length_to_lower [simp]: "length (to_lower s) = length s"
  by (simp add: to_lower_def)

lemma of_char_char_of_small: "n < 256 \<Longrightarrow> (of_char (char_of n) :: nat) = n"
  by (simp add: of_char_of)

lemma ascii_lower_idem [simp]: "ascii_lower (ascii_lower c) = ascii_lower c"
  by (auto simp: ascii_lower_def Let_def of_char_char_of_small)

lemma to_lower_idem [simp]: "to_lower (to_lower s) = to_lower s"
  by (simp add: to_lower_def)

end
