(* ===== verification/Domain.thy ===== *)
theory Domain
  imports Prelude
begin

text \<open>
  The domain layer, \<open>internal/domain\<close>: the records of \<open>models.go\<close> and \<open>catalog.go\<close>
  that the application components exchange, the canonical torrent states of \<open>state.go\<close>,
  the category table of \<open>categories.go\<close> and the language tables of \<open>language.go\<close>.

  Instants (\<open>time.Time\<close>) are nanoseconds counted from Go's zero time, so
  \<open>IsZero\<close> is equality with 0; a nil \<open>*time.Time\<close> is \<open>None\<close>. Finite
  \<open>float64\<close> values are the rationals they denote.
\<close>

type_synonym gotime = int
type_synonym float64 = rat

section \<open>Records of models.go\<close>

record torrent_release =
  rel_ID :: string
  rel_Name :: string
  rel_Category :: string
  rel_SizeBytes :: int64
  rel_IMDbID :: string
  rel_Seeders :: int
  rel_Leechers :: int
  rel_TimesCompleted :: int
  rel_Freeleech :: bool
  rel_DoubleUp :: bool
  rel_Internal :: bool
  rel_Moderated :: bool
  rel_SmallDescription :: string
  rel_UploadedAt :: "gotime option"
  rel_FileCount :: int
  rel_Comments :: int

record torrent_file =
  tf_Index :: int
  tf_Path :: string
  tf_SizeBytes :: int64
  tf_Progress :: float64
  tf_Priority :: int
  tf_Offset :: int64
  tf_Playable :: bool

record tracker_status =
  ts_URL :: string
  ts_Status :: int
  ts_Message :: string
  ts_Peers :: int
  ts_Seeds :: int

record download_status =
  st_Hash :: string
  st_State :: string
  st_Progress :: float64
  st_DownloadedBytes :: int64
  st_TotalBytes :: int64
  st_SpeedBytesPerSecond :: int64
  st_ETASeconds :: int64
  st_Peers :: int
  st_Seeds :: int
  st_UploadSpeedBytesPerSecond :: int64
  st_PieceSize :: int64
  st_Sequential :: bool
  st_FirstLastPriority :: bool
  st_SavePath :: string
  st_ContentPath :: string
  st_TempPath :: string
  st_TempPathEnabled :: bool
  st_Trackers :: "tracker_status list"
  st_TrackerError :: string

text \<open>
  The persisted columns of \<open>Download\<close>; the title, release and rating fields that
  \<open>enrichDownload\<close> fills for display are not stored and not modelled.
\<close>

record download =
  d_ID :: string
  d_ReleaseID :: string
  d_EngineID :: string
  d_FilePath :: string
  d_AbsolutePath :: string
  d_State :: string
  d_FileIndex :: int
  d_SizeBytes :: int64
  d_FileOffset :: int64
  d_PieceSize :: int64
  d_BufferedBytes :: int64
  d_DownloadedBytes :: int64
  d_SpeedBytesPerSecond :: int64
  d_ETASeconds :: int64
  d_Peers :: int
  d_Seeds :: int
  d_UploadSpeedBytesPerSecond :: int64
  d_Progress :: float64
  d_Leased :: bool
  d_CreatedAt :: gotime
  d_UpdatedAt :: gotime
  d_Error :: string

record piece_map =
  pm_States :: "int list"
  pm_PieceSize :: int64

record job =
  j_ID :: string
  j_Kind :: string
  j_State :: string
  j_Label :: string
  j_DedupeKey :: string
  j_Progress :: float64
  j_Attempt :: int
  j_Error :: string
  j_Retryable :: bool
  j_NextAttemptAt :: "gotime option"
  j_CreatedAt :: gotime
  j_UpdatedAt :: gotime

record playback_state =
  pb_ProfileID :: string
  pb_SourceID :: string
  pb_ReleaseID :: string
  pb_FileIndex :: int
  pb_FilePath :: string
  pb_PositionMS :: int64
  pb_DurationMS :: int64
  pb_Watched :: bool
  pb_UpdatedAt :: gotime

record torrent_manifest =
  tm_ReleaseID :: string
  tm_Files :: "torrent_file list"
  tm_FetchedAt :: gotime

section \<open>Torrent states\<close>

definition StateDownloading :: string where "StateDownloading = ''downloading''"
definition StateSeeding :: string where "StateSeeding = ''seeding''"
definition StatePausedDL :: string where "StatePausedDL = ''pausedDL''"
definition StatePausedUP :: string where "StatePausedUP = ''pausedUP''"
definition StateQueued :: string where "StateQueued = ''queued''"
definition StateError :: string where "StateError = ''error''"

lemmas state_defs = StateDownloading_def StateSeeding_def StatePausedDL_def
  StatePausedUP_def StateQueued_def StateError_def

definition IsPaused :: "string \<Rightarrow> bool" where
  "IsPaused state = (let s = to_lower state in
     has_prefix s ''paused'' \<or> s = ''stoppeddl'' \<or> s = ''stoppedup'')"

section \<open>Categories\<close>

datatype category = Category (cat_ID: int) (cat_Name: string) (cat_Artwork: string)
  (cat_Episodic: bool) (cat_DefaultBlacklisted: bool)

definition Categories :: "category list" where
  "Categories = [
     Category 24 ''Anime'' ''animation'' True False,
     Category 11 ''Music'' ''music'' False False,
     Category 29 ''Books'' ''learning'' False True,
     Category 30 ''Courses'' ''learning'' False True,
     Category 15 ''Cartoons'' ''animation'' True False,
     Category 18 ''Various'' ''other'' False True,
     Category 16 ''Docs'' ''learning'' False True,
     Category 25 ''Movies 3D'' ''movies'' False False,
     Category 6 ''Movies 4K'' ''movies'' False False,
     Category 26 ''Movies 4K Blu-Ray'' ''movies'' False False,
     Category 20 ''Movies Blu-Ray'' ''movies'' False False,
     Category 2 ''Movies DVD'' ''movies'' False False,
     Category 3 ''Movies DVD-RO'' ''movies'' False False,
     Category 4 ''Movies HD'' ''movies'' False False,
     Category 19 ''Movies HD-RO'' ''movies'' False False,
     Category 1 ''Movies SD'' ''movies'' False False,
     Category 5 ''FLAC'' ''music'' False False,
     Category 10 ''Games Console'' ''software'' False True,
     Category 9 ''Games PC'' ''software'' False True,
     Category 31 ''K-Drama'' ''television'' True False,
     Category 17 ''Linux'' ''software'' False True,
     Category 22 ''Mobile'' ''software'' False True,
     Category 8 ''Apps'' ''software'' False True,
     Category 28 ''RO Dubbed'' ''television'' True False,
     Category 27 ''TV-Series 4K'' ''television'' True False,
     Category 21 ''TV-Series HD'' ''television'' True False,
     Category 23 ''TV-Series SD'' ''television'' True False,
     Category 13 ''Sport'' ''sport'' False False,
     Category 12 ''Videoclips'' ''music'' False False,
     Category 7 ''XXX'' ''other'' False True
   ]"

text \<open>\<open>strings.EqualFold\<close> on ASCII.\<close>

definition equal_fold :: "string \<Rightarrow> string \<Rightarrow> bool" where
  "equal_fold a b \<longleftrightarrow> to_lower a = to_lower b"

fun blacklisted_in :: "category list \<Rightarrow> string \<Rightarrow> bool" where
  "blacklisted_in [] name = False"
| "blacklisted_in (c # cs) name =
     (if equal_fold (cat_Name c) name then cat_DefaultBlacklisted c else blacklisted_in cs name)"

definition DefaultBlacklistedCategory :: "string \<Rightarrow> bool" where
  "DefaultBlacklistedCategory name = blacklisted_in Categories name"

end
