(* ===== verification/Language.thy ===== *)
theory Language
  imports Domain
begin

text \<open>
  Language tags, \<open>internal/domain/language.go\<close>: the ISO 639 tables and
  \<open>NormalizeLanguage\<close>, with the closure facts of the tables.
\<close>

section \<open>Languages\<close>

definition iso6391 :: "string list" where
  "iso6391 = [
     ''aa'', ''ab'', ''ae'', ''af'', ''ak'', ''am'', ''an'', ''ar'', ''as'', ''av'', ''ay'',
     ''az'', ''ba'', ''be'', ''bg'', ''bi'', ''bm'', ''bn'', ''bo'', ''br'', ''bs'', ''ca'',
     ''ce'', ''ch'', ''co'', ''cr'', ''cs'', ''cu'', ''cv'', ''cy'', ''da'', ''de'', ''dv'',
     ''dz'', ''ee'', ''el'', ''en'', ''eo'', ''es'', ''et'', ''eu'', ''fa'', ''ff'', ''fi'',
     ''fj'', ''fo'', ''fr'', ''fy'', ''ga'', ''gd'', ''gl'', ''gn'', ''gu'', ''gv'', ''ha'',
     ''he'', ''hi'', ''ho'', ''hr'', ''ht'', ''hu'', ''hy'', ''hz'', ''ia'', ''id'', ''ie'',
     ''ig'', ''ii'', ''ik'', ''io'', ''is'', ''it'', ''iu'', ''ja'', ''jv'', ''ka'', ''kg'',
     ''ki'', ''kj'', ''kk'', ''kl'', ''km'', ''kn'', ''ko'', ''kr'', ''ks'', ''ku'', ''kv'',
     ''kw'', ''ky'', ''la'', ''lb'', ''lg'', ''li'', ''ln'', ''lo'', ''lt'', ''lu'', ''lv'',
     ''mg'', ''mh'', ''mi'', ''mk'', ''ml'', ''mn'', ''mr'', ''ms'', ''mt'', ''my'', ''na'',
     ''nb'', ''nd'', ''ne'', ''ng'', ''nl'', ''nn'', ''no'', ''nr'', ''nv'', ''ny'', ''oc'',
     ''oj'', ''om'', ''or'', ''os'', ''pa'', ''pi'', ''pl'', ''ps'', ''pt'', ''qu'', ''rm'',
     ''rn'', ''ro'', ''ru'', ''rw'', ''sa'', ''sc'', ''sd'', ''se'', ''sg'', ''si'', ''sk'',
     ''sl'', ''sm'', ''sn'', ''so'', ''sq'', ''sr'', ''ss'', ''st'', ''su'', ''sv'', ''sw'',
     ''ta'', ''te'', ''tg'', ''th'', ''ti'', ''tk'', ''tl'', ''tn'', ''to'', ''tr'', ''ts'',
     ''tt'', ''tw'', ''ty'', ''ug'', ''uk'', ''ur'', ''uz'', ''ve'', ''vi'', ''vo'', ''wa'',
     ''wo'', ''xh'', ''yi'', ''yo'', ''za'', ''zh'', ''zu'']"

definition iso6392 :: "(string \<times> string) list" where
  "iso6392 = [
     (''aar'', ''aa''), (''abk'', ''ab''), (''ave'', ''ae''), (''afr'', ''af''),
     (''aka'', ''ak''), (''amh'', ''am''), (''arg'', ''an''), (''ara'', ''ar''),
     (''asm'', ''as''), (''ava'', ''av''), (''aym'', ''ay''), (''aze'', ''az''),
     (''bak'', ''ba''), (''bel'', ''be''), (''bul'', ''bg''), (''bis'', ''bi''),
     (''bam'', ''bm''), (''ben'', ''bn''), (''bod'', ''bo''), (''tib'', ''bo''),
     (''lav'', ''lv''), (''mlg'', ''mg''), (''mah'', ''mh''), (''mri'', ''mi''),
     (''mao'', ''mi''), (''mkd'', ''mk''), (''mac'', ''mk''), (''mal'', ''ml''),
     (''mon'', ''mn''), (''mar'', ''mr''), (''msa'', ''ms''), (''bre'', ''br''),
     (''bos'', ''bs''), (''cat'', ''ca''), (''che'', ''ce''), (''cha'', ''ch''),
     (''cos'', ''co''), (''cre'', ''cr''), (''ces'', ''cs''), (''cze'', ''cs''),
     (''chu'', ''cu''), (''chv'', ''cv''), (''cym'', ''cy''), (''wel'', ''cy''),
     (''dan'', ''da''), (''deu'', ''de''), (''ger'', ''de''), (''div'', ''dv''),
     (''dzo'', ''dz''), (''ewe'', ''ee''), (''ell'', ''el''), (''gre'', ''el''),
     (''eng'', ''en''), (''epo'', ''eo''), (''spa'', ''es''), (''est'', ''et''),
     (''eus'', ''eu''), (''baq'', ''eu''), (''fas'', ''fa''), (''per'', ''fa''),
     (''ful'', ''ff''), (''fin'', ''fi''), (''fij'', ''fj''), (''fao'', ''fo''),
     (''fra'', ''fr''), (''fre'', ''fr''), (''fry'', ''fy''), (''gle'', ''ga''),
     (''gla'', ''gd''), (''glg'', ''gl''), (''grn'', ''gn''), (''guj'', ''gu''),
     (''glv'', ''gv''), (''hau'', ''ha''), (''heb'', ''he''), (''hin'', ''hi''),
     (''hmo'', ''ho''), (''hrv'', ''hr''), (''scr'', ''hr''), (''hat'', ''ht''),
     (''hun'', ''hu''), (''hye'', ''hy''), (''arm'', ''hy''), (''her'', ''hz''),
     (''ina'', ''ia''), (''ind'', ''id''), (''ile'', ''ie''), (''ibo'', ''ig''),
     (''iii'', ''ii''), (''ipk'', ''ik''), (''ido'', ''io''), (''isl'', ''is''),
     (''ice'', ''is''), (''ita'', ''it''), (''iku'', ''iu''), (''jpn'', ''ja''),
     (''jav'', ''jv''), (''kat'', ''ka''), (''geo'', ''ka''), (''kon'', ''kg''),
     (''kik'', ''ki''), (''kua'', ''kj''), (''kaz'', ''kk''), (''kal'', ''kl''),
     (''khm'', ''km''), (''kan'', ''kn''), (''kor'', ''ko''), (''kau'', ''kr''),
     (''kas'', ''ks''), (''kur'', ''ku''), (''kom'', ''kv''), (''cor'', ''kw''),
     (''kir'', ''ky''), (''lat'', ''la''), (''ltz'', ''lb''), (''lug'', ''lg''),
     (''lim'', ''li''), (''lin'', ''ln''), (''lao'', ''lo''), (''lit'', ''lt''),
     (''lub'', ''lu''), (''may'', ''ms''), (''mlt'', ''mt''), (''mya'', ''my''),
     (''bur'', ''my''), (''nau'', ''na''), (''nob'', ''nb''), (''nde'', ''nd''),
     (''nep'', ''ne''), (''ndo'', ''ng''), (''nld'', ''nl''), (''dut'', ''nl''),
     (''nno'', ''nn''), (''nor'', ''no''), (''nbl'', ''nr''), (''nav'', ''nv''),
     (''nya'', ''ny''), (''oci'', ''oc''), (''oji'', ''oj''), (''orm'', ''om''),
     (''ori'', ''or''), (''oss'', ''os''), (''pan'', ''pa''), (''pli'', ''pi''),
     (''pol'', ''pl''), (''pus'', ''ps''), (''por'', ''pt''), (''que'', ''qu''),
     (''roh'', ''rm''), (''run'', ''rn''), (''ron'', ''ro''), (''rum'', ''ro''),
     (''rus'', ''ru''), (''kin'', ''rw''), (''san'', ''sa''), (''srd'', ''sc''),
     (''snd'', ''sd''), (''sme'', ''se''), (''sag'', ''sg''), (''sin'', ''si''),
     (''slk'', ''sk''), (''slo'', ''sk''), (''slv'', ''sl''), (''smo'', ''sm''),
     (''sna'', ''sn''), (''som'', ''so''), (''sqi'', ''sq''), (''alb'', ''sq''),
     (''srp'', ''sr''), (''scc'', ''sr''), (''ssw'', ''ss''), (''sot'', ''st''),
     (''sun'', ''su''), (''swe'', ''sv''), (''swa'', ''sw''), (''tam'', ''ta''),
     (''tel'', ''te''), (''tgk'', ''tg''), (''tha'', ''th''), (''tir'', ''ti''),
     (''tuk'', ''tk''), (''tgl'', ''tl''), (''tsn'', ''tn''), (''ton'', ''to''),
     (''tur'', ''tr''), (''tso'', ''ts''), (''tat'', ''tt''), (''twi'', ''tw''),
     (''tah'', ''ty''), (''uig'', ''ug''), (''ukr'', ''uk''), (''urd'', ''ur''),
     (''uzb'', ''uz''), (''ven'', ''ve''), (''vie'', ''vi''), (''vol'', ''vo''),
     (''wln'', ''wa''), (''wol'', ''wo''), (''xho'', ''xh''), (''yid'', ''yi''),
     (''yor'', ''yo''), (''zha'', ''za''), (''zho'', ''zh''), (''chi'', ''zh''),
     (''zul'', ''zu'')]"

text \<open>The part before the first \<open>-\<close> or \<open>_\<close>, the whole tag when there is none.\<close>

definition before_region :: "string \<Rightarrow> string" where
  "before_region v = takeWhile (\<lambda>c. c \<noteq> CHR ''-'' \<and> c \<noteq> CHR ''_'') v"

definition NormalizeLanguage :: "string \<Rightarrow> string" where
  "NormalizeLanguage v =
     (let code = to_lower (trim_space (before_region v)) in
      if code \<in> set iso6391 then code
      else (case map_of iso6392 code of None \<Rightarrow> [] | Some c \<Rightarrow> c))"

lemma iso6392_codomain: "list_all (\<lambda>p. snd p \<in> set iso6391) iso6392"
  by code_simp

lemma iso6391_shape:
  "list_all (\<lambda>c. c \<noteq> [] \<and> list_all (\<lambda>x. x \<noteq> CHR ''-'' \<and> x \<noteq> CHR ''_''
     \<and> \<not> is_space x \<and> ascii_lower x = x) c) iso6391"
  by code_simp

lemma before_region_id:
  "\<forall>x\<in>set s. x \<noteq> CHR ''-'' \<and> x \<noteq> CHR ''_'' \<Longrightarrow> before_region s = s"
  unfolding before_region_def by (simp add: takeWhile_eq_all_conv)

lemma dropWhile_id: "\<forall>x\<in>set xs. \<not> P x \<Longrightarrow> dropWhile P xs = xs"
  by (cases xs) auto

lemma trim_space_id: "\<forall>x\<in>set s. \<not> is_space x \<Longrightarrow> trim_space s = s"
  unfolding trim_space_def by (simp add: dropWhile_id)

lemma to_lower_id: "\<forall>x\<in>set s. ascii_lower x = x \<Longrightarrow> to_lower s = s"
  unfolding to_lower_def by (simp add: map_idI)

lemma NormalizeLanguage_iso6391:
  assumes "c \<in> set iso6391"
  shows "NormalizeLanguage c = c"
proof -
  have "\<forall>x\<in>set c. x \<noteq> CHR ''-'' \<and> x \<noteq> CHR ''_'' \<and> \<not> is_space x \<and> ascii_lower x = x"
    using iso6391_shape assms by (auto simp: list_all_iff)
  then have "to_lower (trim_space (before_region c)) = c"
    by (simp add: before_region_id trim_space_id to_lower_id)
  then show ?thesis using assms by (simp add: NormalizeLanguage_def)
qed

lemma NormalizeLanguage_range: "NormalizeLanguage v = [] \<or> NormalizeLanguage v \<in> set iso6391"
proof -
  have "c \<in> set iso6391" if "map_of iso6392 k = Some c" for k c
    using map_of_SomeD[OF that] iso6392_codomain by (auto simp: list_all_iff)
  then show ?thesis
    by (auto simp: NormalizeLanguage_def Let_def split: option.splits)
qed

lemma NormalizeLanguage_Nil: "NormalizeLanguage [] = []"
  by code_simp

text \<open>
  Normalising a language tag is idempotent and always lands in the table of
  two-letter codes or in the empty string.
\<close>

theorem NormalizeLanguage_idem:
  "NormalizeLanguage (NormalizeLanguage v) = NormalizeLanguage v
   \<and> (NormalizeLanguage v = [] \<or> NormalizeLanguage v \<in> set iso6391)"
  using NormalizeLanguage_range[of v] NormalizeLanguage_iso6391 NormalizeLanguage_Nil by metis

end
