(* ===== verification/Paths.thy ===== *)
theory Paths
  imports Domain
begin

text \<open>
  Lexical paths. The first part models the functions of Go's \<open>path/filepath\<close> on Unix
  that the service calls (\<open>Clean\<close>, \<open>Join\<close>, \<open>Abs\<close>, \<open>Rel\<close>, \<open>Base\<close>, \<open>Dir\<close>);
  the second models the service's own containment guards: \<open>safeJoin\<close>, \<open>safeQBPath\<close>
  and \<open>ValidateSourcePath\<close> of \<open>service.go\<close>, \<open>safeQBContentPath\<close> and
  \<open>requireContainedPath\<close> of \<open>streaming.go\<close>, and \<open>safeTorrentPath\<close> of
  \<open>torrentmeta.go\<close>. The working directory is a parameter (\<open>os.Getwd\<close>).
\<close>

section \<open>path/filepath on Unix\<close>

definition good_elem :: "string \<Rightarrow> bool" where
  "good_elem e \<longleftrightarrow> e \<noteq> [] \<and> e \<noteq> ''.'' \<and> e \<noteq> ''..'' \<and> CHR ''/'' \<notin> set e"

definition path_elems :: "string \<Rightarrow> string list" where
  "path_elems p = filter (\<lambda>e. e \<noteq> [] \<and> e \<noteq> ''.'') (split_on (CHR ''/'') p)"

definition is_abs :: "string \<Rightarrow> bool" where
  "is_abs p = has_prefix p ''/''"

fun clean_stack :: "bool \<Rightarrow> string list \<Rightarrow> string list \<Rightarrow> string list" where
  "clean_stack r st [] = rev st"
| "clean_stack r st (e # es) =
     (if e = ''..'' then
        (case st of
           [] \<Rightarrow> clean_stack r (if r then [] else [''..'']) es
         | t # ts \<Rightarrow> if t = ''..'' then clean_stack r (''..'' # st) es else clean_stack r ts es)
      else clean_stack r (e # st) es)"

definition abs_path :: "string list \<Rightarrow> string" where
  "abs_path es = ''/'' @ join_with ''/'' es"

definition path_clean :: "string \<Rightarrow> string" where
  "path_clean p =
     (if p = [] then ''.''
      else let es = clean_stack (is_abs p) [] (path_elems p) in
        if is_abs p then abs_path es
        else if es = [] then ''.'' else join_with ''/'' es)"

definition path_join :: "string list \<Rightarrow> string" where
  "path_join ps = (case dropWhile (\<lambda>p. p = []) ps of
     [] \<Rightarrow> [] | q # qs \<Rightarrow> path_clean (join_with ''/'' (q # qs)))"

datatype path_error = WorkingDirUnavailable | NotRelative | EscapesRoot | OutsideRoot
  | SavePathOutside | ContentPathOutside | PathMismatch

text \<open>\<open>filepath.Abs\<close>; \<open>cwd\<close> is what \<open>os.Getwd\<close> returns.\<close>

definition path_abs :: "string option \<Rightarrow> string \<Rightarrow> path_error + string" where
  "path_abs cwd p =
     (if is_abs p then Inr (path_clean p)
      else case cwd of None \<Rightarrow> Inl WorkingDirUnavailable | Some d \<Rightarrow> Inr (path_join [d, p]))"

fun strip_common :: "string list \<Rightarrow> string list \<Rightarrow> string list \<times> string list" where
  "strip_common (b # bs) (t # ts) = (if b = t then strip_common bs ts else (b # bs, t # ts))"
| "strip_common bs ts = (bs, ts)"

text \<open>\<open>filepath.Rel\<close> where both arguments are absolute, as at every call in the source.\<close>

definition path_rel :: "string \<Rightarrow> string \<Rightarrow> path_error + string" where
  "path_rel base targ =
     (let b = path_clean base; t = path_clean targ in
      if b = t then Inr ''.''
      else if \<not> (is_abs b \<and> is_abs t) then Inl NotRelative
      else let (bs, ts) = strip_common (path_elems b) (path_elems t) in
        Inr (join_with ''/'' (replicate (length bs) ''..'' @ ts)))"

definition path_base :: "string \<Rightarrow> string" where
  "path_base p =
     (if p = [] then ''.''
      else let es = filter (\<lambda>e. e \<noteq> []) (split_on (CHR ''/'') p) in
        if es = [] then ''/'' else last es)"

definition path_dir :: "string \<Rightarrow> string" where
  "path_dir p = path_clean (rev (dropWhile (\<lambda>c. c \<noteq> CHR ''/'') (rev p)))"

subsection \<open>Cleaned absolute paths\<close>

definition wf_elems :: "string list \<Rightarrow> bool" where
  "wf_elems es \<longleftrightarrow> (\<forall>e\<in>set es. good_elem e)"

lemma wf_elems_simps [simp]:
  "wf_elems []" "wf_elems (e # es) \<longleftrightarrow> good_elem e \<and> wf_elems es"
  "wf_elems (as @ bs) \<longleftrightarrow> wf_elems as \<and> wf_elems bs"
  by (auto simp: wf_elems_def)

lemma path_elems_no_slash: "e \<in> set (path_elems p) \<Longrightarrow> CHR ''/'' \<notin> set e"
  by (auto simp: path_elems_def dest: split_on_elem)

lemma path_elems_nontrivial: "e \<in> set (path_elems p) \<Longrightarrow> e \<noteq> [] \<and> e \<noteq> ''.''"
  by (simp add: path_elems_def)

lemma clean_stack_rooted_wf:
  "wf_elems st \<Longrightarrow> \<forall>e\<in>set es. e \<noteq> [] \<and> e \<noteq> ''.'' \<and> CHR ''/'' \<notin> set e \<Longrightarrow>
   wf_elems (clean_stack True st es)"
proof (induction es arbitrary: st)
  case Nil
  then show ?case by (simp add: wf_elems_def)
next
  case (Cons e es)
  then show ?case by (cases st) (auto simp: good_elem_def)
qed

lemma clean_stack_good:
  "wf_elems es \<Longrightarrow> clean_stack r st es = rev st @ es"
  by (induction es arbitrary: st) (auto simp: good_elem_def)

lemma wf_elems_filter: "wf_elems es \<Longrightarrow> filter (\<lambda>e. e \<noteq> [] \<and> e \<noteq> ''.'') es = es"
  by (induction es) (auto simp: good_elem_def)

lemma split_join_wf:
  "wf_elems es \<Longrightarrow> es \<noteq> [] \<Longrightarrow> split_on (CHR ''/'') (join_with ''/'' es) = es"
  by (rule split_join) (auto simp: wf_elems_def good_elem_def)

lemma path_elems_join:
  "wf_elems es \<Longrightarrow> path_elems (join_with ''/'' es) = es"
  by (cases "es = []") (simp_all add: path_elems_def split_join_wf wf_elems_filter)

lemma path_elems_slash: "path_elems (CHR ''/'' # p) = path_elems p"
  by (simp add: path_elems_def)

lemma path_elems_abs_path [simp]: "wf_elems es \<Longrightarrow> path_elems (abs_path es) = es"
  by (simp add: abs_path_def path_elems_slash path_elems_join)

lemma is_abs_abs_path [simp]: "is_abs (abs_path es)"
  by (simp add: is_abs_def has_prefix_def abs_path_def)

lemma abs_path_nonempty [simp]: "abs_path es \<noteq> []"
  by (simp add: abs_path_def)

lemma path_clean_abs_path [simp]: "wf_elems es \<Longrightarrow> path_clean (abs_path es) = abs_path es"
  by (simp add: path_clean_def clean_stack_good)

lemma abs_path_inj: "wf_elems es \<Longrightarrow> wf_elems fs \<Longrightarrow> abs_path es = abs_path fs \<longleftrightarrow> es = fs"
  by (metis path_elems_abs_path)

lemma path_clean_abs:
  assumes "is_abs p"
  obtains es where "wf_elems es" "path_clean p = abs_path es"
proof
  have p: "p \<noteq> []" using assms by (auto simp: is_abs_def has_prefix_def)
  show "wf_elems (clean_stack True [] (path_elems p))"
    by (rule clean_stack_rooted_wf) (auto dest: path_elems_no_slash path_elems_nontrivial)
  show "path_clean p = abs_path (clean_stack True [] (path_elems p))"
    using assms p by (simp add: path_clean_def)
qed

text \<open>What the code relies on: \<open>os.Getwd\<close> returns an absolute path.\<close>

definition cwd_ok :: "string option \<Rightarrow> bool" where
  "cwd_ok cwd \<longleftrightarrow> (case cwd of None \<Rightarrow> True | Some d \<Rightarrow> is_abs d)"

lemma is_abs_append: "is_abs d \<Longrightarrow> is_abs (d @ x)"
  by (auto simp: is_abs_def has_prefix_def)

lemma path_join_Cons:
  "d \<noteq> [] \<Longrightarrow> path_join [d, p] = path_clean (d @ ''/'' @ p)"
  by (simp add: path_join_def)

lemma path_abs_wf:
  assumes "cwd_ok cwd" "path_abs cwd p = Inr q"
  obtains es where "wf_elems es" "q = abs_path es"
proof (cases "is_abs p")
  case True
  with assms(2) have q: "q = path_clean p" by (simp add: path_abs_def)
  from path_clean_abs[OF True] obtain es where "wf_elems es" "path_clean p = abs_path es" .
  with q show thesis using that by simp
next
  case False
  with assms obtain d where d: "is_abs d" "q = path_join [d, p]"
    by (auto simp: path_abs_def cwd_ok_def split: option.splits)
  then have "d \<noteq> []" by (auto simp: is_abs_def has_prefix_def)
  then have q: "q = path_clean (d @ ''/'' @ p)" using d by (simp add: path_join_Cons)
  from path_clean_abs[OF is_abs_append[OF d(1), of "''/'' @ p"]] obtain es
    where "wf_elems es" "path_clean (d @ ''/'' @ p) = abs_path es" .
  with q show thesis using that by simp
qed

subsection \<open>Rel decides containment\<close>

lemma strip_common_split:
  "strip_common bs ts = (b', t') \<Longrightarrow> \<exists>c. bs = c @ b' \<and> ts = c @ t'"
proof (induction bs ts rule: strip_common.induct)
  case (1 b bs t ts)
  show ?case
  proof (cases "b = t")
    case True
    with 1 obtain c where "bs = c @ b'" "ts = c @ t'" by auto
    with True show ?thesis by (intro exI[of _ "b # c"]) simp
  next
    case False
    with 1 show ?thesis by auto
  qed
qed auto

lemma strip_common_prefix [simp]: "strip_common bs (bs @ ts) = ([], ts)"
proof (induction bs)
  case Nil
  then show ?case by (cases ts) auto
qed auto

definition escapes :: "string \<Rightarrow> bool" where
  "escapes rel \<longleftrightarrow> rel = ''..'' \<or> has_prefix rel ''../''"

lemma escapes_dotdot: "escapes (join_with ''/'' (''..'' # es))"
  by (cases es) (auto simp: escapes_def has_prefix_def)

lemma not_escapes_good:
  assumes "wf_elems es" shows "\<not> escapes (join_with ''/'' es)"
proof
  assume e: "escapes (join_with ''/'' es)"
  then have ne: "es \<noteq> []" by (auto simp: escapes_def has_prefix_def)
  from e have "hd (split_on (CHR ''/'') (join_with ''/'' es)) = ''..''"
    by (auto simp: escapes_def has_prefix_def prefix_def)
  with assms ne have "hd es = ''..''" by (simp add: split_join_wf)
  with assms ne show False by (cases es) (auto simp: good_elem_def)
qed

text \<open>\<open>contained r p\<close>: the absolute path \<open>p\<close> is \<open>r\<close> or lies below it.\<close>

definition contained :: "string \<Rightarrow> string \<Rightarrow> bool" where
  "contained r p \<longleftrightarrow> (\<exists>rs ps. wf_elems rs \<and> wf_elems ps \<and> r = abs_path rs \<and> p = abs_path (rs @ ps))"

lemma contained_trans: "contained a b \<Longrightarrow> contained b c \<Longrightarrow> contained a c"
  unfolding contained_def by (metis abs_path_inj append.assoc wf_elems_simps(3))

lemma path_rel_contained:
  assumes "wf_elems rs" "wf_elems ps" "path_rel (abs_path rs) (abs_path ps) = Inr rel"
    "\<not> escapes rel"
  shows "contained (abs_path rs) (abs_path ps)"
proof (cases "rs = ps")
  case True
  then show ?thesis using assms(1) unfolding contained_def by (intro exI[of _ rs] exI[of _ "[]"]) simp
next
  case False
  obtain bs ts where st: "strip_common rs ps = (bs, ts)" by (cases "strip_common rs ps")
  from assms(1-3) False st have rel: "rel = join_with ''/'' (replicate (length bs) ''..'' @ ts)"
    by (simp add: path_rel_def abs_path_inj)
  have "bs = []"
  proof (rule ccontr)
    assume "bs \<noteq> []"
    then obtain n where "length bs = Suc n" by (cases bs) auto
    with rel assms(4) show False using escapes_dotdot by simp
  qed
  with strip_common_split[OF st] have "ps = rs @ ts" by auto
  with assms(1,2) show ?thesis unfolding contained_def by auto
qed

lemma path_rel_inside:
  assumes "wf_elems rs" "wf_elems ps"
  shows "\<exists>rel. path_rel (abs_path rs) (abs_path (rs @ ps)) = Inr rel \<and> \<not> escapes rel"
proof (cases "ps = []")
  case True
  then show ?thesis using assms by (simp add: path_rel_def escapes_def has_prefix_def)
next
  case False
  then have "path_rel (abs_path rs) (abs_path (rs @ ps)) = Inr (join_with ''/'' ps)"
    using assms by (simp add: path_rel_def abs_path_inj)
  then show ?thesis using not_escapes_good[OF assms(2)] by simp
qed

section \<open>The service's containment guards\<close>

definition safeJoin :: "string option \<Rightarrow> string \<Rightarrow> string \<Rightarrow> path_error + string" where
  "safeJoin cwd rootdir name =
     (case path_abs cwd rootdir of
        Inl e \<Rightarrow> Inl e
      | Inr r \<Rightarrow>
          (case path_abs cwd (path_join [r, name]) of
             Inl e \<Rightarrow> Inl e
           | Inr p \<Rightarrow>
               (case path_rel r p of
                  Inl e \<Rightarrow> Inl EscapesRoot
                | Inr rel \<Rightarrow> if escapes rel then Inl EscapesRoot else Inr p)))"

definition safeQBPath :: "string option \<Rightarrow> string \<Rightarrow> string \<Rightarrow> string \<Rightarrow> path_error + string" where
  "safeQBPath cwd rootdir savePath name =
     (case path_abs cwd rootdir of
        Inl e \<Rightarrow> Inl e
      | Inr rootAbs \<Rightarrow>
          (case path_abs cwd (if savePath = [] then rootAbs else savePath) of
             Inl e \<Rightarrow> Inl e
           | Inr saveAbs \<Rightarrow>
               (case path_rel rootAbs saveAbs of
                  Inl e \<Rightarrow> Inl SavePathOutside
                | Inr rel \<Rightarrow>
                    if escapes rel then Inl SavePathOutside
                    else safeJoin cwd saveAbs name)))"

definition requireContainedPath :: "string \<Rightarrow> string \<Rightarrow> path_error + unit" where
  "requireContainedPath rootdir p =
     (case path_rel rootdir p of
        Inl e \<Rightarrow> Inl OutsideRoot
      | Inr rel \<Rightarrow> if escapes rel then Inl OutsideRoot else Inr ())"

definition contentCandidate :: "string \<Rightarrow> string \<Rightarrow> string" where
  "contentCandidate contentAbs cleanName =
     (let parts = split_on (CHR ''/'') cleanName in
      if length parts = 1 \<and> path_base contentAbs = hd parts then contentAbs
      else if length parts > 1 \<and> path_base contentAbs = hd parts
        then path_join [path_dir contentAbs, cleanName]
      else path_join [contentAbs, cleanName])"

definition safeQBContentPath ::
  "string option \<Rightarrow> string \<Rightarrow> download_status \<Rightarrow> string \<Rightarrow> path_error + string" where
  "safeQBContentPath cwd rootdir status name =
     (if st_Progress status < 1 \<and> st_TempPathEnabled status \<and> st_TempPath status \<noteq> []
      then safeQBPath cwd rootdir (st_TempPath status) name
      else if st_ContentPath status = [] then safeQBPath cwd rootdir (st_SavePath status) name
      else case path_abs cwd rootdir of
        Inl e \<Rightarrow> Inl e
      | Inr rootAbs \<Rightarrow>
          (case path_abs cwd (st_ContentPath status) of
             Inl e \<Rightarrow> Inl e
           | Inr contentAbs \<Rightarrow>
               (case requireContainedPath rootAbs contentAbs of
                  Inl e \<Rightarrow> Inl ContentPathOutside
                | Inr _ \<Rightarrow>
                    let cleanName = path_clean name in
                    if cleanName = ''.'' \<or> is_abs cleanName \<or> escapes cleanName
                    then Inl EscapesRoot
                    else case path_abs cwd (contentCandidate contentAbs cleanName) of
                      Inl e \<Rightarrow> Inl e
                    | Inr candidate \<Rightarrow>
                        (case requireContainedPath rootAbs candidate of
                           Inl e \<Rightarrow> Inl EscapesRoot
                         | Inr _ \<Rightarrow> Inr candidate))))"

definition ValidateSourcePath :: "string option \<Rightarrow> string \<Rightarrow> download \<Rightarrow> path_error + unit" where
  "ValidateSourcePath cwd rootdir d =
     (case path_abs cwd rootdir of
        Inl e \<Rightarrow> Inl e
      | Inr r \<Rightarrow>
          (case path_abs cwd (d_AbsolutePath d) of
             Inl e \<Rightarrow> Inl e
           | Inr actual \<Rightarrow>
               (case path_rel r actual of
                  Inl e \<Rightarrow> Inl OutsideRoot
                | Inr rel \<Rightarrow>
                    if escapes rel then Inl OutsideRoot
                    else if \<not> has_suffix actual (d_FilePath d) then Inl PathMismatch
                    else Inr ())))"

text \<open>\<open>safeTorrentPath\<close>: a torrent-relative name in slash form, refused when an element
  is empty, \<open>.\<close> or \<open>..\<close>.\<close>

definition safeTorrentPath :: "string \<Rightarrow> string option" where
  "safeTorrentPath p =
     (let q = trim_chars ''/'' (map (\<lambda>c. if c = CHR 0x5C then CHR ''/'' else c) p) in
      if q = [] then None
      else if \<exists>e\<in>set (split_on (CHR ''/'') q). e = [] \<or> e = ''.'' \<or> e = ''..'' then None
      else Some q)"

subsection \<open>Every guard keeps its result inside the root\<close>

lemma safeJoin_contained:
  assumes "cwd_ok cwd" "path_abs cwd rootdir = Inr r" "safeJoin cwd rootdir name = Inr p"
  shows "contained r p"
proof -
  from assms(2,3) obtain rel where p: "path_abs cwd (path_join [r, name]) = Inr p"
    "path_rel r p = Inr rel" "\<not> escapes rel"
    by (auto simp: safeJoin_def split: sum.splits if_splits)
  obtain rs where rs: "wf_elems rs" "r = abs_path rs" using path_abs_wf[OF assms(1,2)] .
  obtain ps where ps: "wf_elems ps" "p = abs_path ps" using path_abs_wf[OF assms(1) p(1)] .
  show ?thesis using path_rel_contained[of rs ps rel] rs ps p by simp
qed

lemma path_abs_idem:
  assumes "cwd_ok cwd" "path_abs cwd p = Inr q" shows "path_abs cwd q = Inr q"
proof -
  obtain es where "wf_elems es" "q = abs_path es" using path_abs_wf[OF assms] .
  then show ?thesis by (simp add: path_abs_def)
qed

lemma contained_rel:
  assumes "cwd_ok cwd" "path_abs cwd a = Inr r" "path_abs cwd b = Inr p"
    "path_rel r p = Inr rel" "\<not> escapes rel"
  shows "contained r p"
proof -
  obtain rs where rs: "wf_elems rs" "r = abs_path rs" using path_abs_wf[OF assms(1,2)] .
  obtain ps where ps: "wf_elems ps" "p = abs_path ps" using path_abs_wf[OF assms(1,3)] .
  show ?thesis using path_rel_contained[of rs ps rel] rs ps assms(4,5) by simp
qed

lemma safeQBPath_contained:
  assumes "cwd_ok cwd" "path_abs cwd rootdir = Inr r" "safeQBPath cwd rootdir save name = Inr p"
  shows "contained r p"
proof -
  from assms(2,3) obtain s rel where
    s: "path_abs cwd (if save = [] then r else save) = Inr s" "path_rel r s = Inr rel"
      "\<not> escapes rel" and j: "safeJoin cwd s name = Inr p"
    by (auto simp: safeQBPath_def split: sum.splits if_splits)
  have "contained r s" by (rule contained_rel[OF assms(1,2) s])
  moreover have "contained s p"
    by (rule safeJoin_contained[OF assms(1) path_abs_idem[OF assms(1) s(1)] j])
  ultimately show ?thesis by (rule contained_trans)
qed

lemma safeQBContentPath_contained:
  assumes "cwd_ok cwd" "path_abs cwd rootdir = Inr r" "safeQBContentPath cwd rootdir status name = Inr p"
  shows "contained r p"
proof (cases "(st_Progress status < 1 \<and> st_TempPathEnabled status \<and> st_TempPath status \<noteq> [])
    \<or> st_ContentPath status = []")
  case True
  then have "\<exists>save. safeQBPath cwd rootdir save name = Inr p"
    using assms(3) by (auto simp: safeQBContentPath_def split: if_splits)
  then show ?thesis using safeQBPath_contained[OF assms(1,2)] by blast
next
  case False
  with assms(2,3) obtain q where
    q: "path_abs cwd q = Inr p" "requireContainedPath r p = Inr ()"
    by (auto simp: safeQBContentPath_def Let_def split: sum.splits if_splits)
  then obtain rel where "path_rel r p = Inr rel" "\<not> escapes rel"
    by (auto simp: requireContainedPath_def split: sum.splits if_splits)
  then show ?thesis by (rule contained_rel[OF assms(1,2) q(1)])
qed

lemma ValidateSourcePath_contained:
  assumes "cwd_ok cwd" "path_abs cwd rootdir = Inr r" "ValidateSourcePath cwd rootdir d = Inr ()"
  shows "\<exists>p. path_abs cwd (d_AbsolutePath d) = Inr p \<and> contained r p \<and> suffix (d_FilePath d) p"
proof -
  from assms(2,3) obtain p rel where p: "path_abs cwd (d_AbsolutePath d) = Inr p"
    "path_rel r p = Inr rel" "\<not> escapes rel" "suffix (d_FilePath d) p"
    by (auto simp: ValidateSourcePath_def has_suffix_def split: sum.splits if_splits)
  then show ?thesis using contained_rel[OF assms(1,2) p(1-3)] by blast
qed

subsection \<open>Names the torrent parser accepts\<close>

lemma safeTorrentPath_elems:
  "safeTorrentPath p = Some q \<Longrightarrow> \<exists>es. es \<noteq> [] \<and> wf_elems es \<and> q = join_with ''/'' es"
proof -
  assume a: "safeTorrentPath p = Some q"
  then have good: "\<forall>e\<in>set (split_on (CHR ''/'') q). good_elem e"
    by (auto simp: safeTorrentPath_def Let_def good_elem_def dest: split_on_elem split: if_splits)
  have "q = join_with ''/'' (split_on (CHR ''/'') q)" by simp
  with good show ?thesis unfolding wf_elems_def by (metis split_on_not_Nil)
qed

lemma path_join_good:
  assumes "wf_elems rs" "wf_elems es" "es \<noteq> []"
  shows "path_join [abs_path rs, join_with ''/'' es] = abs_path (rs @ es)"
proof -
  let ?p = "abs_path rs @ ''/'' @ join_with ''/'' es"
  have split: "split_on (CHR ''/'') ?p = split_on (CHR ''/'') (abs_path rs) @ es" if "rs \<noteq> []"
  proof -
    have gen: "split_on (CHR ''/'') (a @ ''/'' @ b) = split_on (CHR ''/'') a @ split_on (CHR ''/'') b" for a b
      by (induction a) (auto split: list.splits)
    show ?thesis using gen[of "abs_path rs" "join_with ''/'' es"] assms by (simp add: split_join_wf)
  qed
  have "path_elems ?p = rs @ es"
  proof (cases "rs = []")
    case True
    then show ?thesis using assms by (simp add: abs_path_def path_elems_slash path_elems_join)
  next
    case False
    then show ?thesis using split assms wf_elems_filter[OF assms(2)] path_elems_abs_path[OF assms(1)]
      by (simp add: path_elems_def)
  qed
  moreover have "is_abs ?p" by (rule is_abs_append) simp
  moreover have "?p \<noteq> []" by simp
  ultimately have "path_clean ?p = abs_path (rs @ es)"
    using assms by (simp add: path_clean_def clean_stack_good)
  then show ?thesis by (simp add: path_join_Cons)
qed

lemma safeJoin_good:
  assumes "cwd_ok cwd" "path_abs cwd rootdir = Inr (abs_path rs)" "wf_elems rs" "wf_elems es" "es \<noteq> []"
  shows "safeJoin cwd rootdir (join_with ''/'' es) = Inr (abs_path (rs @ es))"
proof -
  have j: "path_join [abs_path rs, join_with ''/'' es] = abs_path (rs @ es)"
    by (rule path_join_good[OF assms(3-5)])
  obtain rel where "path_rel (abs_path rs) (abs_path (rs @ es)) = Inr rel" "\<not> escapes rel"
    using path_rel_inside[OF assms(3,4)] by blast
  moreover have "path_abs cwd (abs_path (rs @ es)) = Inr (abs_path (rs @ es))"
    using assms(3,4) by (simp add: path_abs_def)
  ultimately show ?thesis using assms(2) by (simp add: safeJoin_def j)
qed

end
