(* ===== verification/Strconv.thy ===== *)
theory Strconv
  imports Prelude
begin

text \<open>
  The number formats of Go's \<open>strconv\<close> and \<open>fmt\<close> that the sources use: signed
  64-bit decimal parsing, and printing of natural numbers, with the round trip.
\<close>

section \<open>Parsing\<close>

definition is_digit :: "char \<Rightarrow> bool" where
  "is_digit c \<longleftrightarrow> (let n = (of_char c :: int) in 48 \<le> n \<and> n \<le> 57)"

definition digit_val :: "char \<Rightarrow> int" where
  "digit_val c = of_char c - 48"

definition digits_val :: "string \<Rightarrow> int" where
  "digits_val s = foldl (\<lambda>n c. 10 * n + digit_val c) 0 s"

definition parse_digits :: "string \<Rightarrow> int option" where
  "parse_digits s = (if s \<noteq> [] \<and> list_all is_digit s then Some (digits_val s) else None)"

text \<open>\<open>strconv.ParseInt(s, 10, 64)\<close> and, on 64-bit systems, \<open>strconv.Atoi\<close>.\<close>

definition parse_int64 :: "string \<Rightarrow> int option" where
  "parse_int64 s =
     (let (neg, ds) = (case s of [] \<Rightarrow> (False, [])
        | c # cs \<Rightarrow> if c = CHR ''-'' then (True, cs) else if c = CHR ''+'' then (False, cs)
            else (False, s)) in
      case parse_digits ds of
        None \<Rightarrow> None
      | Some n \<Rightarrow> let v = (if neg then - n else n) in if in_i64 v then Some v else None)"

lemma parse_int64_range: "parse_int64 s = Some v \<Longrightarrow> in_i64 v"
  by (auto simp: parse_int64_def Let_def split: list.splits if_splits option.splits)

section \<open>Printing\<close>

definition digit_char :: "nat \<Rightarrow> char" where
  "digit_char d = char_of (d + 48)"

fun show_nat :: "nat \<Rightarrow> string" where
  "show_nat n = (if n < 10 then [digit_char n] else show_nat (n div 10) @ [digit_char (n mod 10)])"

declare show_nat.simps [simp del]

definition show_int :: "int \<Rightarrow> string" where
  "show_int n = (if n < 0 then CHR ''-'' # show_nat (nat (- n)) else show_nat (nat n))"

lemma digit_char_facts:
  "d < 10 \<Longrightarrow> is_digit (digit_char d) \<and> digit_val (digit_char d) = int d"
proof -
  assume d: "d < 10"
  have "(of_char (char_of (d + 48)) :: int) = int (of_char (char_of (d + 48)))"
    by (simp only: of_nat_of_char)
  also have "(of_char (char_of (d + 48)) :: nat) = d + 48"
    using d by (simp add: of_char_char_of_small)
  finally show ?thesis using d by (simp add: is_digit_def digit_val_def digit_char_def)
qed

lemma digits_val_snoc: "digits_val (s @ [c]) = 10 * digits_val s + digit_val c"
  by (simp add: digits_val_def)

lemma show_nat_facts: "show_nat n \<noteq> [] \<and> list_all is_digit (show_nat n) \<and> digits_val (show_nat n) = int n"
proof (induction n rule: show_nat.induct)
  case (1 n)
  then show ?case
    by (cases "n < 10") (simp_all add: show_nat.simps[of n] digits_val_snoc digit_char_facts
        of_nat_div of_nat_mod, simp add: digits_val_def digit_char_facts)
qed

lemma is_digit_not_letter:
  "is_digit c \<Longrightarrow> c \<noteq> CHR '':'' \<and> c \<noteq> CHR ''e'' \<and> c \<noteq> CHR ''i'' \<and> c \<noteq> CHR ''l'' \<and> c \<noteq> CHR ''d''
     \<and> c \<noteq> CHR ''-'' \<and> c \<noteq> CHR ''+''"
  by (auto simp: is_digit_def Let_def)

lemma show_nat_hd: "\<exists>c cs. show_nat n = c # cs \<and> is_digit c"
  using show_nat_facts[of n] by (cases "show_nat n") auto

lemma show_nat_no_letter: "CHR '':'' \<notin> set (show_nat n)" "CHR ''e'' \<notin> set (show_nat n)"
  using show_nat_facts[of n] is_digit_not_letter by (auto simp: list_all_iff)

lemma show_int_inj: "show_int a = show_int b \<longleftrightarrow> a = b"
proof
  assume e: "show_int a = show_int b"
  obtain c cs where c: "show_nat (nat \<bar>a\<bar>) = c # cs" "is_digit c" using show_nat_hd by blast
  obtain d ds where d: "show_nat (nat \<bar>b\<bar>) = d # ds" "is_digit d" using show_nat_hd by blast
  have m: "\<not> is_digit (CHR ''-'')" by (simp add: is_digit_def)
  have s: "show_int x = (if x < 0 then CHR ''-'' # show_nat (nat \<bar>x\<bar>) else show_nat (nat \<bar>x\<bar>))" for x
    by (simp add: show_int_def)
  have "(a < 0) = (b < 0)" "show_nat (nat \<bar>a\<bar>) = show_nat (nat \<bar>b\<bar>)"
    using e c d m unfolding s by (auto split: if_splits)
  moreover from this(2) have "digits_val (show_nat (nat \<bar>a\<bar>)) = digits_val (show_nat (nat \<bar>b\<bar>))" by (rule arg_cong)
  then have "\<bar>a\<bar> = \<bar>b\<bar>" using show_nat_facts[of "nat \<bar>a\<bar>"] show_nat_facts[of "nat \<bar>b\<bar>"] by linarith
  ultimately show "a = b" by linarith
qed simp

lemma parse_show_nat: "n < 2 ^ 63 \<Longrightarrow> parse_int64 (show_nat n) = Some (int n)"
proof -
  assume n: "n < 2 ^ 63"
  obtain c cs where c: "show_nat n = c # cs" "is_digit c" using show_nat_hd by blast
  have "parse_digits (show_nat n) = Some (int n)" using show_nat_facts by (simp add: parse_digits_def)
  moreover have "int n < 2 ^ 63" using n by (metis of_nat_less_numeral_power_cancel_iff)
  ultimately show ?thesis using c is_digit_not_letter[OF c(2)]
    by (simp add: parse_int64_def in_i64_def)
qed

end
