(* ===== verification/Bencode.thy ===== *)
theory Bencode
  imports Paths Strconv
begin

text \<open>
  Torrent metadata, \<open>internal/application/torrentmeta.go\<close>: the bencode reader
  \<open>readBNode\<close>, \<open>bint\<close>, \<open>isPlayable\<close> and the manifest built by
  \<open>torrentManifest\<close>. A run-time panic of the source is a result of its own, so that
  the slice expressions are modelled with Go's bounds rules; the recursion of the
  reader carries a fuel argument and \<open>read_node_fuel\<close> shows how much is enough.
\<close>

datatype 'a outcome = Ok 'a | Err | Panic | NoFuel

section \<open>readBNode\<close>

datatype bnode = BNode (bn_value: string) (bn_list: "bnode list") (bn_dict: "(string \<times> bnode) list")

definition zero_bnode :: bnode where
  "zero_bnode = BNode [] [] []"

text \<open>A dictionary keeps its last entry for a key: later entries are put in front.\<close>

definition dict_get :: "bnode \<Rightarrow> string \<Rightarrow> bnode" where
  "dict_get n k = (case map_of (bn_dict n) k of None \<Rightarrow> zero_bnode | Some v \<Rightarrow> v)"

fun index_of :: "char \<Rightarrow> string \<Rightarrow> nat option" where
  "index_of c [] = None"
| "index_of c (x # xs) = (if x = c then Some 0 else map_option Suc (index_of c xs))"

text \<open>The slice expression \<open>data[lo:hi]\<close>: it panics unless \<open>0 \<le> lo \<le> hi \<le> len(data)\<close>.\<close>

definition slice :: "string \<Rightarrow> int \<Rightarrow> int \<Rightarrow> string outcome" where
  "slice data lo hi =
     (if 0 \<le> lo \<and> lo \<le> hi \<and> hi \<le> int (length data)
      then Ok (take (nat (hi - lo)) (drop (nat lo) data)) else Panic)"

definition read_str :: "string \<Rightarrow> nat \<Rightarrow> (bnode \<times> nat) outcome" where
  "read_str data pos =
     (case index_of (CHR '':'') (drop pos data) of
        None \<Rightarrow> Err
      | Some k \<Rightarrow>
          (let colon = pos + k in
           case parse_int64 (take k (drop pos data)) of
             None \<Rightarrow> Err
           | Some len \<Rightarrow>
               (let lo = int colon + 1; hi = i64 (lo + len) in
                if len < 0 \<or> hi > int (length data) then Err
                else case slice data lo hi of
                  Ok v \<Rightarrow> Ok (BNode v [] [], nat hi)
                | Err \<Rightarrow> Err | Panic \<Rightarrow> Panic | NoFuel \<Rightarrow> NoFuel)))"

fun read_node :: "nat \<Rightarrow> string \<Rightarrow> nat \<Rightarrow> (bnode \<times> nat) outcome"
and read_list :: "nat \<Rightarrow> string \<Rightarrow> nat \<Rightarrow> bnode list \<Rightarrow> (bnode \<times> nat) outcome"
and read_dict :: "nat \<Rightarrow> string \<Rightarrow> nat \<Rightarrow> (string \<times> bnode) list \<Rightarrow> (bnode \<times> nat) outcome"
where
  "read_node 0 data pos = NoFuel"
| "read_node (Suc f) data pos =
     (if pos \<ge> length data then Err
      else if data ! pos = CHR ''i'' then
        (case index_of (CHR ''e'') (drop (Suc pos) data) of
           None \<Rightarrow> Err
         | Some k \<Rightarrow> Ok (BNode (take k (drop (Suc pos) data)) [] [], Suc pos + k + 1))
      else if data ! pos = CHR ''l'' then read_list f data (Suc pos) []
      else if data ! pos = CHR ''d'' then read_dict f data (Suc pos) []
      else read_str data pos)"
| "read_list 0 data pos acc = NoFuel"
| "read_list (Suc f) data pos acc =
     (if pos < length data \<and> data ! pos \<noteq> CHR ''e'' then
        (case read_node f data pos of
           Ok (child, nx) \<Rightarrow> read_list f data nx (acc @ [child])
         | Err \<Rightarrow> Err | Panic \<Rightarrow> Panic | NoFuel \<Rightarrow> NoFuel)
      else if pos \<ge> length data then Err
      else Ok (BNode [] acc [], Suc pos))"
| "read_dict 0 data pos acc = NoFuel"
| "read_dict (Suc f) data pos acc =
     (if pos < length data \<and> data ! pos \<noteq> CHR ''e'' then
        (case read_node f data pos of
           Ok (key, nx) \<Rightarrow>
             (case read_node f data nx of
                Ok (v, nx2) \<Rightarrow> read_dict f data nx2 ((bn_value key, v) # acc)
              | Err \<Rightarrow> Err | Panic \<Rightarrow> Panic | NoFuel \<Rightarrow> NoFuel)
         | Err \<Rightarrow> Err | Panic \<Rightarrow> Panic | NoFuel \<Rightarrow> NoFuel)
      else if pos \<ge> length data then Err
      else Ok (BNode [] [] acc, Suc pos))"

declare read_node.simps(2) [simp del] read_list.simps(2) [simp del] read_dict.simps(2) [simp del]

definition readBNode :: "string \<Rightarrow> nat \<Rightarrow> (bnode \<times> nat) outcome" where
  "readBNode data pos = read_node (2 * length data + 2) data pos"

subsection \<open>Positions advance and stay inside the data\<close>

lemma index_of_bound: "index_of c s = Some k \<Longrightarrow> k < length s \<and> s ! k = c"
  by (induction s arbitrary: k) (auto split: if_splits)

lemma read_str_bound: "read_str data pos = Ok (n, nx) \<Longrightarrow> pos < nx \<and> nx \<le> length data"
  by (auto simp: read_str_def slice_def Let_def dest!: index_of_bound
      split: option.splits if_splits outcome.splits)

lemma read_bound:
  "read_node f data pos = Ok (n, nx) \<Longrightarrow> pos < nx \<and> nx \<le> length data"
  "read_list f data pos acc = Ok (n, nx) \<Longrightarrow> pos < nx \<and> nx \<le> length data"
  "read_dict f data pos dacc = Ok (n, nx) \<Longrightarrow> pos < nx \<and> nx \<le> length data"
proof (induction f data pos and f data pos acc and f data pos dacc arbitrary: n nx and n nx and n nx
    rule: read_node_read_list_read_dict.induct)
  case (2 f data pos)
  then show ?case
    by (auto simp: read_node.simps(2) dest!: read_str_bound index_of_bound
        split: if_splits option.splits)
next
  case (4 f data pos acc)
  show ?case
  proof (cases "pos < length data \<and> data ! pos \<noteq> CHR ''e''")
    case True
    with "4.prems" obtain c m where c: "read_node f data pos = Ok (c, m)"
      and r: "read_list f data m (acc @ [c]) = Ok (n, nx)"
      by (auto simp: read_list.simps(2) split: outcome.splits prod.splits)
    from "4.IH"(1)[OF True c] "4.IH"(2)[OF True c refl r] show ?thesis by linarith
  next
    case False
    with "4.prems" show ?thesis by (auto simp: read_list.simps(2) split: if_splits)
  qed
next
  case (6 f data pos acc)
  show ?case
  proof (cases "pos < length data \<and> data ! pos \<noteq> CHR ''e''")
    case True
    with "6.prems" obtain c m v m2 where c: "read_node f data pos = Ok (c, m)"
      and v: "read_node f data m = Ok (v, m2)"
      and r: "read_dict f data m2 ((bn_value c, v) # acc) = Ok (n, nx)"
      by (auto simp: read_dict.simps(2) split: outcome.splits prod.splits)
    from "6.IH"(1)[OF True c] "6.IH"(2)[OF True c refl v] "6.IH"(3)[OF True c refl v refl r]
    show ?thesis by linarith
  next
    case False
    with "6.prems" show ?thesis by (auto simp: read_dict.simps(2) split: if_splits)
  qed
qed simp_all

subsection \<open>Enough fuel\<close>

lemma read_str_fuel: "read_str data pos \<noteq> NoFuel"
  by (auto simp: read_str_def slice_def Let_def split: option.splits)

lemma read_fuel:
  "2 * (length data - pos) < f \<Longrightarrow> read_node f data pos \<noteq> NoFuel"
  "2 * (length data - pos) + 1 < f \<Longrightarrow> read_list f data pos acc \<noteq> NoFuel"
  "2 * (length data - pos) + 1 < f \<Longrightarrow> read_dict f data pos dacc \<noteq> NoFuel"
proof (induction f data pos and f data pos acc and f data pos dacc
    rule: read_node_read_list_read_dict.induct)
  case (2 f data pos)
  show ?case
  proof (cases "pos < length data")
    case True
    then have "2 * (length data - Suc pos) + 1 < f" using "2.prems" by linarith
    then show ?thesis using 2 by (simp add: read_node.simps(2) read_str_fuel split: option.splits)
  qed (simp add: read_node.simps(2))
next
  case (4 f data pos acc)
  have "2 * (length data - nx) + 1 < f"
    if "pos < length data" "read_node f data pos = Ok (c, nx)" for c nx
    using "4.prems" that read_bound(1)[OF that(2)] by linarith
  with 4 show ?case
    by (cases "pos < length data \<and> data ! pos \<noteq> CHR ''e''")
      (auto simp: read_list.simps(2) split: outcome.splits)
next
  case (6 f data pos acc)
  have n1: "2 * (length data - nx) < f"
    if "pos < length data" "read_node f data pos = Ok (c, nx)" for c nx
    using "6.prems" that read_bound(1)[OF that(2)] by linarith
  have "2 * (length data - nx2) + 1 < f"
    if "pos < length data" "read_node f data pos = Ok (c, nx)"
      "read_node f data nx = Ok (v, nx2)" for c v nx nx2
    using "6.prems" that(1) read_bound(1)[OF that(2)] read_bound(1)[OF that(3)] by linarith
  note n2 = this
  show ?case
  proof (cases "pos < length data \<and> data ! pos \<noteq> CHR ''e''")
    case True
    then have "read_node f data pos \<noteq> NoFuel" using "6.IH"(1) "6.prems" by simp
    moreover have "read_node f data m \<noteq> NoFuel" if "read_node f data pos = Ok (c, m)" for c m
      using "6.IH"(2)[OF True that refl] n1 True that by blast
    moreover have "read_dict f data m2 ((bn_value c, v) # acc) \<noteq> NoFuel"
      if "read_node f data pos = Ok (c, m)" "read_node f data m = Ok (v, m2)" for c m v m2
      using "6.IH"(3)[OF True that(1) refl that(2) refl] n2 True that by blast
    ultimately show ?thesis using True
      by (auto simp: read_dict.simps(2) split: outcome.splits)
  qed (auto simp: read_dict.simps(2))
qed simp_all

lemma readBNode_fuel: "readBNode data pos \<noteq> NoFuel"
  unfolding readBNode_def by (rule read_fuel) simp

subsection \<open>Panics come from one overflow only\<close>

text \<open>
  The guard \<open>colon+1+length > len(data)\<close> is evaluated in 64-bit arithmetic: a declared
  length close to the largest \<open>int64\<close> wraps to a negative bound, passes the guard and
  makes the slice expression panic. No other input panics.
\<close>

definition overflowing_length :: "string \<Rightarrow> bool" where
  "overflowing_length data \<longleftrightarrow>
     (\<exists>pos k len. index_of (CHR '':'') (drop pos data) = Some k
        \<and> parse_int64 (take k (drop pos data)) = Some len \<and> 2 ^ 63 \<le> int (pos + k) + 1 + len)"

lemma index_of_append: "c \<notin> set s \<Longrightarrow> index_of c (s @ c # t) = Some (length s)"
  by (induction s) auto

lemma i64_no_wrap:
  "0 \<le> a \<Longrightarrow> 0 \<le> b \<Longrightarrow> a + b < 2 ^ 63 \<Longrightarrow> i64 (a + b) = a + b"
  by (rule i64_small) auto

lemma read_str_panic: "read_str data pos = Panic \<Longrightarrow> overflowing_length data"
proof -
  assume "read_str data pos = Panic"
  then obtain k len where k: "index_of (CHR '':'') (drop pos data) = Some k"
    "parse_int64 (take k (drop pos data)) = Some len" "0 \<le> len"
    and p: "slice data (int (pos + k) + 1) (i64 (int (pos + k) + 1 + len)) = Panic"
      "i64 (int (pos + k) + 1 + len) \<le> int (length data)"
    by (auto simp: read_str_def Let_def split: option.splits if_splits outcome.splits)
  have "2 ^ 63 \<le> int (pos + k) + 1 + len"
  proof (rule ccontr)
    assume "\<not> 2 ^ 63 \<le> int (pos + k) + 1 + len"
    then have "i64 (int (pos + k) + 1 + len) = int (pos + k) + 1 + len"
      using k(3) by (intro i64_no_wrap) auto
    then show False using p k(3) by (simp add: slice_def split: if_splits)
  qed
  then show ?thesis using k unfolding overflowing_length_def by blast
qed

lemma read_panic:
  "read_node f data pos = Panic \<Longrightarrow> overflowing_length data"
  "read_list f data pos acc = Panic \<Longrightarrow> overflowing_length data"
  "read_dict f data pos dacc = Panic \<Longrightarrow> overflowing_length data"
proof (induction f data pos and f data pos acc and f data pos dacc
    rule: read_node_read_list_read_dict.induct)
  case (2 f data pos)
  then show ?case
    by (auto simp: read_node.simps(2) dest: read_str_panic split: if_splits option.splits)
next
  case (4 f data pos acc)
  show ?case
  proof (cases "pos < length data \<and> data ! pos \<noteq> CHR ''e''")
    case True
    with 4 show ?thesis
      by (cases "read_node f data pos") (auto simp: read_list.simps(2) split: prod.splits)
  qed (use 4 in \<open>auto simp: read_list.simps(2) split: if_splits\<close>)
next
  case (6 f data pos acc)
  show ?case
  proof (cases "pos < length data \<and> data ! pos \<noteq> CHR ''e''")
    case True
    with "6.prems" consider "read_node f data pos = Panic"
      | c m where "read_node f data pos = Ok (c, m)" "read_node f data m = Panic"
      | c m v m2 where "read_node f data pos = Ok (c, m)" "read_node f data m = Ok (v, m2)"
          "read_dict f data m2 ((bn_value c, v) # acc) = Panic"
      by (auto simp: read_dict.simps(2) split: outcome.splits prod.splits)
    then show ?thesis
    proof cases
      case 1
      then show ?thesis by (rule "6.IH"(1)[OF True])
    next
      case 2
      then show ?thesis using "6.IH"(2)[OF True 2(1) refl] by blast
    next
      case 3
      then show ?thesis using "6.IH"(3)[OF True 3(1) refl 3(2) refl] by blast
    qed
  qed (use 6 in \<open>auto simp: read_dict.simps(2) split: if_splits\<close>)
qed simp_all

subsection \<open>The reader inverts the encoder\<close>

text \<open>
  The reference encoder: bencode as its specification has it, with decimal lengths
  and no leading zeros. \<open>node_of\<close> is the tree the reader is to build for a value.
\<close>

datatype bval = VInt nat | VStr string | VList "bval list" | VDict "(string \<times> bval) list"

definition encode_str :: "string \<Rightarrow> string" where
  "encode_str s = show_nat (length s) @ '':'' @ s"

fun encode :: "bval \<Rightarrow> string" where
  "encode (VInt n) = ''i'' @ show_nat n @ ''e''"
| "encode (VStr s) = encode_str s"
| "encode (VList vs) = ''l'' @ concat (map encode vs) @ ''e''"
| "encode (VDict kvs) = ''d'' @ concat (map (\<lambda>(k, v). encode_str k @ encode v) kvs) @ ''e''"

fun node_of :: "bval \<Rightarrow> bnode" where
  "node_of (VInt n) = BNode (show_nat n) [] []"
| "node_of (VStr s) = BNode s [] []"
| "node_of (VList vs) = BNode [] (map node_of vs) []"
| "node_of (VDict kvs) = BNode [] [] (rev (map (\<lambda>(k, v). (k, node_of v)) kvs))"

lemma read_str_encode:
  assumes "drop pos data = encode_str s @ rest" "length data < 2 ^ 62"
  shows "read_str data pos = Ok (BNode s [] [], pos + length (encode_str s))"
proof -
  let ?k = "length (show_nat (length s))"
  have d: "drop pos data = show_nat (length s) @ CHR '':'' # s @ rest"
    using assms(1) by (simp add: encode_str_def)
  have len: "length data - pos = ?k + 1 + length s + length rest"
    using arg_cong[OF d, of length] by simp
  have s62: "length s < 2 ^ 62" using len assms(2) by linarith
  have le: "pos + ?k + 1 + length s \<le> length data" using len by linarith
  have pk: "parse_int64 (show_nat (length s)) = Some (int (length s))"
    by (rule parse_show_nat) (use s62 in simp)
  have "int (length data) < 2 ^ 62" using assms(2) by simp
  with le have sum: "int (pos + ?k) + 1 + int (length s) < 2 ^ 63" by simp
  have i: "i64 (int (pos + ?k) + 1 + int (length s)) = int (pos + ?k) + 1 + int (length s)"
    using sum by (intro i64_no_wrap) auto
  have dr: "drop (pos + ?k + 1) data = s @ rest"
  proof -
    have "drop (pos + ?k + 1) data = drop (?k + 1) (drop pos data)" by (simp add: add.commute)
    also have "\<dots> = s @ rest" by (simp add: d)
    finally show ?thesis .
  qed
  have n1: "nat (int (pos + ?k) + 1) = pos + ?k + 1" by simp
  have n2: "nat (int (pos + ?k) + 1 + int (length s) - (int (pos + ?k) + 1)) = length s" by simp
  have n3: "nat (int (pos + ?k) + 1 + int (length s)) = pos + ?k + 1 + length s" by linarith
  have sl: "slice data (int (pos + ?k) + 1) (int (pos + ?k) + 1 + int (length s)) = Ok s"
    unfolding slice_def n1 n2 using dr le by auto
  have idx: "index_of (CHR '':'') (drop pos data) = Some ?k"
    unfolding d by (rule index_of_append) (rule show_nat_no_letter)
  have tk: "take ?k (drop pos data) = show_nat (length s)" by (simp add: d)
  have hi: "\<not> (int (pos + ?k) + 1 + int (length s) > int (length data))" using le by linarith
  show ?thesis
    unfolding read_str_def idx option.case tk pk Let_def i sl n3
    using hi by (simp add: encode_str_def)
qed

lemma encode_nonempty: "encode v \<noteq> []"
  by (cases v) (auto simp: encode_str_def)

lemma encode_hd: "hd (encode v) \<noteq> CHR ''e''"
proof (cases v)
  case (VStr s)
  obtain c cs where "show_nat (length s) = c # cs" "is_digit c" using show_nat_hd by blast
  then show ?thesis using VStr is_digit_not_letter by (auto simp: encode_str_def)
qed simp_all

lemma drop_hd: "drop pos data = c # cs \<Longrightarrow> pos < length data \<and> data ! pos = c \<and> drop (Suc pos) data = cs"
  by (metis Cons_nth_drop_Suc drop_all list.distinct(1) list.inject not_le)

lemma drop_append: "drop pos data = a @ b \<Longrightarrow> drop (pos + length a) data = b"
  by (metis add.commute append_eq_conv_conj drop_drop)

lemma read_node_str:
  assumes "drop pos data = encode_str s @ rest" "length data < 2 ^ 62" "0 < f"
  shows "read_node f data pos = Ok (BNode s [] [], pos + length (encode_str s))"
proof -
  obtain g where g: "f = Suc g" using assms(3) by (cases f) auto
  obtain c cs where c: "show_nat (length s) = c # cs" "is_digit c" using show_nat_hd by blast
  then have "drop pos data = c # (cs @ '':'' @ s @ rest)" using assms(1) by (simp add: encode_str_def)
  from drop_hd[OF this] have "pos < length data" "data ! pos = c" by auto
  then show ?thesis using g is_digit_not_letter[OF c(2)] read_str_encode[OF assms(1,2)]
    by (simp add: read_node.simps(2))
qed

lemma read_list_encode:
  assumes "\<And>v f pos rest. v \<in> set vs \<Longrightarrow> drop pos data = encode v @ rest \<Longrightarrow>
      2 * length (encode v) < f \<Longrightarrow> read_node f data pos = Ok (node_of v, pos + length (encode v))"
    and "drop pos data = concat (map encode vs) @ ''e'' @ rest"
    and "2 * (length (concat (map encode vs)) + 1) \<le> f"
  shows "read_list f data pos acc =
    Ok (BNode [] (acc @ map node_of vs) [], pos + length (concat (map encode vs)) + 1)"
  using assms
proof (induction vs arbitrary: pos acc f)
  case Nil
  then obtain g where "f = Suc g" by (cases f) auto
  moreover from Nil.prems(2) have "drop pos data = CHR ''e'' # rest" by simp
  ultimately show ?case using drop_hd by (fastforce simp: read_list.simps(2))
next
  case (Cons v vs)
  let ?n = "length (encode v)"
  have n: "0 < ?n" using encode_nonempty by simp
  from Cons.prems(3) obtain g where g: "f = Suc g" by (cases f) auto
  have d: "drop pos data = encode v @ (concat (map encode vs) @ ''e'' @ rest)"
    using Cons.prems(2) by simp
  have "drop pos data = hd (encode v) # (tl (encode v) @ concat (map encode vs) @ ''e'' @ rest)"
    using d encode_nonempty[of v] by simp
  from drop_hd[OF this] encode_hd[of v] have c: "pos < length data \<and> data ! pos \<noteq> CHR ''e''" by simp
  have r1: "read_node g data pos = Ok (node_of v, pos + ?n)"
    by (rule Cons.prems(1)[OF _ d]) (use Cons.prems(3) g in simp_all)
  have "2 * (?n + length (concat (map encode vs)) + 1) \<le> Suc g"
    using Cons.prems(3) g by simp
  moreover have "2 * (m + 1) \<le> g" if "0 < l" "2 * (l + m + 1) \<le> Suc g" for l m :: nat
    using that by presburger
  ultimately have fuel: "2 * (length (concat (map encode vs)) + 1) \<le> g" using n by blast
  have "read_list g data (pos + ?n) (acc @ [node_of v]) =
      Ok (BNode [] ((acc @ [node_of v]) @ map node_of vs) [],
          pos + ?n + length (concat (map encode vs)) + 1)"
    by (rule Cons.IH[OF _ drop_append[OF d] fuel]) (use Cons.prems(1) in auto)
  with r1 c g show ?case by (simp add: read_list.simps(2))
qed

definition encode_entry :: "string \<times> bval \<Rightarrow> string" where
  "encode_entry kv = encode_str (fst kv) @ encode (snd kv)"

lemma encode_dict:
  "encode (VDict kvs) = ''d'' @ concat (map encode_entry kvs) @ ''e''"
proof -
  have "encode_entry = (\<lambda>(k, v). encode_str k @ encode v)"
    by (auto simp: encode_entry_def fun_eq_iff)
  then show ?thesis by simp
qed

lemma encode_str_facts: "encode_str s \<noteq> []" "hd (encode_str s) \<noteq> CHR ''e''"
  using encode_nonempty[of "VStr s"] encode_hd[of "VStr s"] by simp_all

lemma read_dict_encode:
  assumes "\<And>k v f pos rest. (k, v) \<in> set kvs \<Longrightarrow> drop pos data = encode v @ rest \<Longrightarrow>
      2 * length (encode v) < f \<Longrightarrow> read_node f data pos = Ok (node_of v, pos + length (encode v))"
    and "length data < 2 ^ 62"
    and "drop pos data = concat (map encode_entry kvs) @ ''e'' @ rest"
    and "2 * (length (concat (map encode_entry kvs)) + 1) \<le> f"
  shows "read_dict f data pos acc =
    Ok (BNode [] [] (rev (map (\<lambda>(k, v). (k, node_of v)) kvs) @ acc),
        pos + length (concat (map encode_entry kvs)) + 1)"
  using assms
proof (induction kvs arbitrary: pos acc f)
  case Nil
  then obtain g where "f = Suc g" by (cases f) auto
  moreover from Nil.prems(3) have "drop pos data = CHR ''e'' # rest" by simp
  ultimately show ?case using drop_hd by (fastforce simp: read_dict.simps(2))
next
  case (Cons kv kvs)
  obtain k v where kv: "kv = (k, v)" by (cases kv)
  let ?m = "length (encode_str k)" and ?n = "length (encode v)"
  let ?t = "concat (map encode_entry kvs) @ ''e'' @ rest"
  have n: "0 < ?n" using encode_nonempty by simp
  have m: "0 < ?m" using encode_str_facts(1) by simp
  from Cons.prems(4) obtain g where g: "f = Suc g" by (cases f) auto
  have fuel: "2 * (?m + ?n + length (concat (map encode_entry kvs)) + 1) \<le> Suc g"
  proof -
    have "length (encode_entry kv) = ?m + ?n" by (simp add: encode_entry_def kv)
    then show ?thesis using Cons.prems(4) g by simp
  qed
  have ekv: "encode_entry kv = encode_str k @ encode v" by (simp add: encode_entry_def kv)
  with Cons.prems(3) have d: "drop pos data = encode_str k @ (encode v @ ?t)" by simp
  have "drop pos data = hd (encode_str k) # (tl (encode_str k) @ encode v @ ?t)"
    using d encode_str_facts(1)[of k] by simp
  from drop_hd[OF this] encode_str_facts(2)[of k]
  have c: "pos < length data \<and> data ! pos \<noteq> CHR ''e''" by simp
  have r1: "read_node g data pos = Ok (BNode k [] [], pos + ?m)"
    by (rule read_node_str[OF d Cons.prems(2)]) (use fuel m in \<open>cases g; simp\<close>)
  have d2: "drop (pos + ?m) data = encode v @ ?t" by (rule drop_append[OF d])
  have r2: "read_node g data (pos + ?m) = Ok (node_of v, pos + ?m + ?n)"
    by (rule Cons.prems(1)[OF _ d2]) (use fuel m kv in auto)
  have "read_dict g data (pos + ?m + ?n) ((k, node_of v) # acc) =
      Ok (BNode [] [] (rev (map (\<lambda>(k, v). (k, node_of v)) kvs) @ ((k, node_of v) # acc)),
          pos + ?m + ?n + length (concat (map encode_entry kvs)) + 1)"
  proof (rule Cons.IH[OF _ Cons.prems(2) drop_append[OF d2]])
    have "0 < a \<Longrightarrow> 2 * (a + b + l + 1) \<le> Suc g \<Longrightarrow> 2 * (l + 1) \<le> g" for a b l :: nat
      by presburger
    from this[OF m fuel] show "2 * (length (concat (map encode_entry kvs)) + 1) \<le> g" .
  qed (rule Cons.prems(1), auto)
  with r1 r2 c g kv ekv[unfolded kv] show ?case by (simp add: read_dict.simps(2))
qed

lemma read_node_encode:
  assumes "length data < 2 ^ 62"
  shows "drop pos data = encode v @ rest \<Longrightarrow> 2 * length (encode v) < f \<Longrightarrow>
    read_node f data pos = Ok (node_of v, pos + length (encode v))"
proof (induction v arbitrary: pos rest f)
  case (VInt n)
  from VInt.prems(2) obtain g where g: "f = Suc g" by (cases f) auto
  have "drop pos data = CHR ''i'' # (show_nat n @ CHR ''e'' # rest)" using VInt.prems by simp
  from drop_hd[OF this] have h: "pos < length data" "data ! pos = CHR ''i''"
    "drop (Suc pos) data = show_nat n @ CHR ''e'' # rest" by auto
  show ?case using h g index_of_append[OF show_nat_no_letter(2), of n rest]
    by (simp add: read_node.simps(2))
next
  case (VStr s)
  then show ?case using read_node_str[OF _ assms] by simp
next
  case (VList vs)
  from VList.prems(2) obtain g where g: "f = Suc g" by (cases f) auto
  have "drop pos data = CHR ''l'' # (concat (map encode vs) @ ''e'' @ rest)" using VList.prems by simp
  from drop_hd[OF this] have h: "pos < length data" "data ! pos = CHR ''l''"
    "drop (Suc pos) data = concat (map encode vs) @ ''e'' @ rest" by auto
  have "read_list g data (Suc pos) [] =
      Ok (BNode [] ([] @ map node_of vs) [], Suc pos + length (concat (map encode vs)) + 1)"
    by (rule read_list_encode[OF _ h(3)]) (use VList.IH VList.prems(2) g in auto)
  then show ?case using h g by (simp add: read_node.simps(2))
next
  case (VDict kvs)
  from VDict.prems(2) obtain g where g: "f = Suc g" by (cases f) auto
  have "drop pos data = CHR ''d'' # (concat (map encode_entry kvs) @ ''e'' @ rest)"
    using VDict.prems(1) unfolding encode_dict by simp
  from drop_hd[OF this] have h: "pos < length data" "data ! pos = CHR ''d''"
    "drop (Suc pos) data = concat (map encode_entry kvs) @ ''e'' @ rest" by auto
  have "read_dict g data (Suc pos) [] =
      Ok (BNode [] [] (rev (map (\<lambda>(k, v). (k, node_of v)) kvs) @ []),
          Suc pos + length (concat (map encode_entry kvs)) + 1)"
    by (rule read_dict_encode[OF _ assms h(3)])
      (use VDict.IH VDict.prems(2) g in \<open>unfold encode_dict, auto simp: snds.simps\<close>)
  then show ?case using h g unfolding encode_dict by (simp add: read_node.simps(2))
qed

section \<open>Properties\<close>

text \<open>
  Property C2. Reading inverts writing: for every value, whatever follows it in the
  buffer, the reader returns the tree of the value and the position just behind its
  encoding (buffers below \<open>2^62\<close> bytes, which the 16 MiB limit of the caller ensures).
\<close>

theorem readBNode_encode:
  assumes "length (encode v @ rest) < 2 ^ 62"
  shows "readBNode (encode v @ rest) 0 = Ok (node_of v, length (encode v))"
  using read_node_encode[OF assms, of 0 v rest "2 * length (encode v @ rest) + 2"]
  by (simp add: readBNode_def)

theorem readBNode_encode_witness:
  "readBNode (''d4:listl1:ai7eee'' @ ''xx'') 0 =
     Ok (BNode [] [] [(''list'', BNode [] [BNode ''a'' [] [], BNode ''7'' [] []] [])], 16)"
proof -
  have e: "encode (VDict [(''list'', VList [VStr ''a'', VInt 7])]) = ''d4:listl1:ai7eee''"
    by code_simp
  have s: "show_nat 7 = ''7''" by code_simp
  show ?thesis
    using readBNode_encode[of "VDict [(''list'', VList [VStr ''a'', VInt 7])]" "''xx''"]
    unfolding e by (simp add: s)
qed

text \<open>
  Property C3. The reader is total: on every input it returns, a node it returns ends
  strictly behind the start and inside the buffer, and the only way to a run-time panic is
  a declared string length that overflows 64-bit addition.
\<close>

theorem readBNode_total:
  "readBNode data pos \<noteq> NoFuel
   \<and> (\<forall>n nx. readBNode data pos = Ok (n, nx) \<longrightarrow> pos < nx \<and> nx \<le> length data)
   \<and> (readBNode data pos = Panic \<longrightarrow> overflowing_length data)"
  using readBNode_fuel read_bound(1) read_panic(1) by (auto simp: readBNode_def)

theorem readBNode_total_witness:
  "readBNode ''9223372036854775807:'' 0 = Panic \<and> overflowing_length ''9223372036854775807:''"
proof -
  have "readBNode ''9223372036854775807:'' 0 = Panic"
    by code_simp
  then show ?thesis using readBNode_total[of "''9223372036854775807:''" 0] by simp
qed

end
