(* ===== verification/Manifest.thy ===== *)
theory Manifest
  imports Bencode
begin

text \<open>
  The manifest of a torrent, \<open>torrentManifest\<close> of \<open>internal/application/torrentmeta.go\<close>:
  the list of its files built from the bencoded metadata and kept in the manifest table.
\<close>

section \<open>Building the manifest\<close>

definition bint :: "bnode \<Rightarrow> int64 option" where
  "bint node = (case parse_int64 (bn_value node) of
      None \<Rightarrow> None | Some v \<Rightarrow> if v < 0 then None else Some v)"

text \<open>\<open>filepath.Ext\<close>: the suffix from the last dot of the last path element.\<close>

definition path_ext :: "string \<Rightarrow> string" where
  "path_ext p = (let r = takeWhile (\<lambda>c. c \<noteq> CHR ''/'') (rev p) in
     if CHR ''.'' \<in> set r then CHR ''.'' # rev (takeWhile (\<lambda>c. c \<noteq> CHR ''.'') r) else [])"

definition isPlayable :: "string \<Rightarrow> bool" where
  "isPlayable p \<longleftrightarrow> to_lower (path_ext p) \<in>
     {''.mkv'', ''.mp4'', ''.avi'', ''.mov'', ''.m4v'', ''.webm'', ''.ts'', ''.mp3'', ''.m4a'',
      ''.flac'', ''.ogg'', ''.opus''}"

definition manifest_file :: "int \<Rightarrow> string \<Rightarrow> int64 \<Rightarrow> int64 \<Rightarrow> torrent_file" where
  "manifest_file idx path len off =
     \<lparr>tf_Index = idx, tf_Path = path, tf_SizeBytes = len, tf_Progress = 0, tf_Priority = 0,
      tf_Offset = off, tf_Playable = isPlayable path\<rparr>"

text \<open>The loop over the rows of a multi-file torrent, from row \<open>idx\<close> and offset \<open>off\<close>.\<close>

fun manifest_rows :: "int \<Rightarrow> int64 \<Rightarrow> bnode list \<Rightarrow> torrent_file list outcome" where
  "manifest_rows idx off [] = Ok []"
| "manifest_rows idx off (row # rows) =
     (case bint (dict_get row ''length'') of
        None \<Rightarrow> Err
      | Some len \<Rightarrow>
          (case safeTorrentPath
              (join_with ''/'' (map bn_value (bn_list (dict_get row ''path'')))) of
             None \<Rightarrow> Err
           | Some path \<Rightarrow>
               (case manifest_rows (idx + 1) (i64 (off + len)) rows of
                  Ok fs \<Rightarrow> Ok (manifest_file idx path len off # fs)
                | e \<Rightarrow> e)))"

definition manifest_info :: "bnode \<Rightarrow> torrent_file list outcome" where
  "manifest_info info =
     (case map_of (bn_dict info) ''files'' of
        Some multi \<Rightarrow> manifest_rows 0 0 (bn_list multi)
      | None \<Rightarrow>
          (case bint (dict_get info ''length'') of
             None \<Rightarrow> Err
           | Some len \<Rightarrow>
               (case safeTorrentPath (bn_value (dict_get info ''name'')) of
                  None \<Rightarrow> Err
                | Some path \<Rightarrow> Ok [manifest_file 0 path len 0])))"

definition manifest_files :: "string \<Rightarrow> torrent_file list outcome" where
  "manifest_files data =
     (if data = [] \<or> int (length data) \<ge> 16777216 then Err
      else case readBNode data 0 of
        Ok (doc, _) \<Rightarrow>
          (case map_of (bn_dict doc) ''info'' of None \<Rightarrow> Err | Some info \<Rightarrow> manifest_info info)
      | Err \<Rightarrow> Err | Panic \<Rightarrow> Panic | NoFuel \<Rightarrow> NoFuel)"

text \<open>
  \<open>torrentManifest\<close> over the manifest table. What the repository and the tracker answer
  are inputs: whether the lookup fails with something other than \<open>sql.ErrNoRows\<close>, the
  bytes of the torrent file (\<open>None\<close> when opening or reading fails), and whether the
  save succeeds. The reader stops at \<open>16<<20\<close> bytes.
\<close>

definition torrentManifest ::
  "(string \<rightharpoonup> torrent_manifest) \<Rightarrow> bool \<Rightarrow> string option \<Rightarrow> bool \<Rightarrow> gotime \<Rightarrow> string \<Rightarrow>
     torrent_manifest outcome \<times> (string \<rightharpoonup> torrent_manifest)" where
  "torrentManifest table lookupFails body saveOk now releaseID =
     (if lookupFails then (Err, table)
      else case table releaseID of
        Some cached \<Rightarrow> (Ok cached, table)
      | None \<Rightarrow>
          (case body of
             None \<Rightarrow> (Err, table)
           | Some bytes \<Rightarrow>
               (case manifest_files (take 16777216 bytes) of
                  Ok files \<Rightarrow>
                    (let m = \<lparr>tm_ReleaseID = releaseID, tm_Files = files, tm_FetchedAt = now\<rparr> in
                     if saveOk then (Ok m, table(releaseID \<mapsto> m)) else (Err, table))
                | Err \<Rightarrow> (Err, table) | Panic \<Rightarrow> (Panic, table) | NoFuel \<Rightarrow> (NoFuel, table))))"

subsection \<open>Well-formed manifests\<close>

text \<open>
  What the rest of the program relies on: the index of a file is its place in the list,
  names are relative without empty, \<open>.\<close> or \<open>..\<close> elements, sizes are not negative and
  the offset is the sum of the sizes before it, in 64-bit arithmetic.
\<close>

definition wf_file :: "torrent_file \<Rightarrow> bool" where
  "wf_file f \<longleftrightarrow> (\<exists>es. es \<noteq> [] \<and> wf_elems es \<and> tf_Path f = join_with ''/'' es)
     \<and> 0 \<le> tf_SizeBytes f \<and> in_i64 (tf_SizeBytes f) \<and> tf_Playable f = isPlayable (tf_Path f)"

definition wf_files :: "torrent_file list \<Rightarrow> bool" where
  "wf_files fs \<longleftrightarrow> (\<forall>k<length fs. wf_file (fs ! k) \<and> tf_Index (fs ! k) = int k
     \<and> tf_Offset (fs ! k) = i64 (sum_list (map tf_SizeBytes (take k fs))))"

lemma bint_range: "bint n = Some v \<Longrightarrow> 0 \<le> v \<and> in_i64 v"
  by (auto simp: bint_def dest: parse_int64_range split: option.splits if_splits)

lemma manifest_file_wf:
  "safeTorrentPath p = Some path \<Longrightarrow> bint n = Some len \<Longrightarrow> wf_file (manifest_file idx path len off)"
  using safeTorrentPath_elems bint_range by (simp add: wf_file_def manifest_file_def)

lemma manifest_rows_wf:
  "manifest_rows idx (i64 off) rows = Ok fs \<Longrightarrow> k < length fs \<Longrightarrow>
     wf_file (fs ! k) \<and> tf_Index (fs ! k) = idx + int k
     \<and> tf_Offset (fs ! k) = i64 (off + sum_list (map tf_SizeBytes (take k fs)))"
proof (induction rows arbitrary: idx off fs k)
  case (Cons row rows)
  then obtain len path gs where row: "bint (dict_get row ''length'') = Some len"
    "safeTorrentPath (join_with ''/'' (map bn_value (bn_list (dict_get row ''path'')))) = Some path"
    and gs: "manifest_rows (idx + 1) (i64 (i64 off + len)) rows = Ok gs"
    and fs: "fs = manifest_file idx path len (i64 off) # gs"
    by (auto split: option.splits outcome.splits)
  show ?case
  proof (cases k)
    case 0
    then show ?thesis using fs manifest_file_wf[OF row(2,1)] by (simp add: manifest_file_def)
  next
    case (Suc j)
    have "tf_SizeBytes (manifest_file idx path len (i64 off)) = len" by (simp add: manifest_file_def)
    then show ?thesis using Cons.IH[OF gs[unfolded i64_add], of j] Cons.prems(2) fs Suc
      by (simp add: algebra_simps)
  qed
qed simp

lemma manifest_info_wf: "manifest_info info = Ok fs \<Longrightarrow> wf_files fs"
proof -
  assume m: "manifest_info info = Ok fs"
  show ?thesis
  proof (cases "map_of (bn_dict info) ''files''")
    case None
    with m obtain len path where "bint (dict_get info ''length'') = Some len"
      "safeTorrentPath (bn_value (dict_get info ''name'')) = Some path"
      "fs = [manifest_file 0 path len 0]"
      by (auto simp: manifest_info_def split: option.splits)
    then show ?thesis using manifest_file_wf
      by (simp add: wf_files_def) (simp add: manifest_file_def i64_small)
  next
    case (Some multi)
    have z: "i64 0 = 0" by (simp add: i64_small)
    have "manifest_rows 0 (i64 0) (bn_list multi) = Ok fs"
      using m Some z by (simp add: manifest_info_def)
    from manifest_rows_wf[OF this] show ?thesis by (simp add: wf_files_def)
  qed
qed

lemma manifest_files_wf: "manifest_files data = Ok fs \<Longrightarrow> wf_files fs"
  by (auto simp: manifest_files_def intro: manifest_info_wf
      split: if_splits outcome.splits option.splits)



subsection \<open>The manifest of an encoded torrent\<close>

text \<open>A multi-file torrent as a client writes it: a list of path elements and a length.\<close>

definition entry_val :: "string list \<times> nat \<Rightarrow> bval" where
  "entry_val e = VDict [(''length'', VInt (snd e)), (''path'', VList (map VStr (fst e)))]"

definition torrent_val :: "string \<Rightarrow> (string list \<times> nat) list \<Rightarrow> bval" where
  "torrent_val name es =
     VDict [(''announce'', VStr ''tracker''),
            (''info'', VDict [(''files'', VList (map entry_val es)), (''name'', VStr name)])]"

fun listing :: "nat \<Rightarrow> nat \<Rightarrow> (string list \<times> nat) list \<Rightarrow> torrent_file list" where
  "listing idx off [] = []"
| "listing idx off (e # es) =
     manifest_file (int idx) (join_with ''/'' (fst e)) (int (snd e)) (int off)
       # listing (Suc idx) (off + snd e) es"

definition plain_elem :: "string \<Rightarrow> bool" where
  "plain_elem e \<longleftrightarrow> good_elem e \<and> CHR 0x5C \<notin> set e"

lemma trim_chars_id:
  "s \<noteq> [] \<Longrightarrow> hd s \<notin> set cs \<Longrightarrow> last s \<notin> set cs \<Longrightarrow> trim_chars cs s = s"
proof -
  assume s: "s \<noteq> []" "hd s \<notin> set cs" "last s \<notin> set cs"
  then obtain x xs where x: "s = x # xs" by (cases s) auto
  obtain y ys where y: "rev s = y # ys" using s(1) by (cases "rev s") auto
  have "y = last s" using y by (metis hd_rev list.sel(1))
  then have "dropWhile (\<lambda>c. c \<in> set cs) (rev s) = rev s" unfolding y using s(3) by simp
  moreover have "dropWhile (\<lambda>c. c \<in> set cs) s = s" unfolding x using s(2) x by simp
  ultimately show ?thesis by (simp add: trim_chars_def)
qed

lemma set_join_with: "set (join_with sep es) \<subseteq> set sep \<union> (\<Union>e\<in>set es. set e)"
  by (induction sep es rule: join_with.induct) auto

lemma safeTorrentPath_join:
  assumes "es \<noteq> []" "\<forall>e\<in>set es. plain_elem e"
  shows "safeTorrentPath (join_with ''/'' es) = Some (join_with ''/'' es)"
proof -
  let ?q = "join_with ''/'' es"
  have good: "\<forall>e\<in>set es. e \<noteq> [] \<and> e \<noteq> ''.'' \<and> e \<noteq> ''..'' \<and> CHR ''/'' \<notin> set e \<and> CHR 0x5C \<notin> set e"
    using assms(2) by (auto simp: plain_elem_def good_elem_def)
  have "CHR 0x5C \<notin> set ?q" using set_join_with[of "''/''" es] good by auto
  then have bs: "map (\<lambda>c. if c = CHR 0x5C then CHR ''/'' else c) ?q = ?q"
    by (intro map_idI) auto
  have ne: "?q \<noteq> []"
    and hd: "hd ?q \<noteq> CHR ''/''" and la: "last ?q \<noteq> CHR ''/''"
    using assms(1) good
  proof (induction "''/''" es rule: join_with.induct)
    case (2 x)
    { case 1 then show ?case by simp }
    { case 2 then show ?case by (cases x) auto }
    { case 3 then show ?case by (metis join_with.simps(2) last_in_set list.set_intros(1)) }
  next
    case (3 x y ys)
    { case 1 then show ?case by simp }
    { case 2 then show ?case by (cases x) auto }
    { case 3 then show ?case using "3.hyps"(1,3) by simp }
  qed simp_all
  have "split_on (CHR ''/'') ?q = es" using assms(1) good by (intro split_join) auto
  moreover have "trim_chars ''/'' ?q = ?q" by (rule trim_chars_id) (use ne hd la in auto)
  ultimately show ?thesis using bs ne good by (simp add: safeTorrentPath_def)
qed

lemma manifest_rows_listing:
  assumes "\<forall>e\<in>set es. fst e \<noteq> [] \<and> list_all plain_elem (fst e) \<and> snd e < 2 ^ 63"
    and "off + sum_list (map snd es) < 2 ^ 63"
  shows "manifest_rows (int idx) (int off) (map (\<lambda>e. node_of (entry_val e)) es)
    = Ok (listing idx off es)"
  using assms
proof (induction es arbitrary: idx off)
  case (Cons e es)
  have len: "bint (dict_get (node_of (entry_val e)) ''length'') = Some (int (snd e))"
    using Cons.prems(1) by (simp add: entry_val_def dict_get_def bint_def parse_show_nat)
  have parts: "map bn_value (bn_list (dict_get (node_of (entry_val e)) ''path'')) = fst e"
    by (simp add: entry_val_def dict_get_def comp_def)
  have path: "safeTorrentPath (join_with ''/'' (fst e)) = Some (join_with ''/'' (fst e))"
    by (rule safeTorrentPath_join) (use Cons.prems(1) in \<open>auto simp: list_all_iff\<close>)
  have off: "i64 (int off + int (snd e)) = int (off + snd e)"
    by (rule trans[OF i64_small]) (use Cons.prems(2) in auto)
  have idx: "int idx + 1 = int (Suc idx)" by simp
  have "manifest_rows (int (Suc idx)) (int (off + snd e)) (map (\<lambda>e. node_of (entry_val e)) es)
      = Ok (listing (Suc idx) (off + snd e) es)"
    by (rule Cons.IH) (use Cons.prems in auto)
  then show ?case
    by (simp only: list.map manifest_rows.simps listing.simps len parts path off idx option.case outcome.case)
qed simp

text \<open>
  For the torrent file of a list of files whose path elements are plain names,
  below the 16 MiB limit, the manifest lists exactly those files in order: path elements
  joined by slashes, their lengths, indices from 0 and offsets equal to the exact sum of
  the lengths before (the total size below \<open>2^63\<close> bytes).
\<close>

theorem manifest_of_torrent:
  assumes "\<forall>e\<in>set es. fst e \<noteq> [] \<and> list_all plain_elem (fst e)"
    and "sum_list (map snd es) < 2 ^ 63"
    and "length (encode (torrent_val name es)) < 16777216"
  shows "manifest_files (encode (torrent_val name es)) = Ok (listing 0 0 es)"
proof -
  let ?v = "torrent_val name es"
  have r: "readBNode (encode ?v) 0 = Ok (node_of ?v, length (encode ?v))"
    using read_node_encode[of "encode ?v" 0 ?v "[]" "2 * length (encode ?v) + 2"] assms(3)
    by (simp add: readBNode_def)
  have "\<forall>e\<in>set es. snd e \<le> sum_list (map snd es)"
    by (simp add: member_le_sum_list)
  then have "manifest_rows (int 0) (int 0) (map (\<lambda>e. node_of (entry_val e)) es) = Ok (listing 0 0 es)"
    by (intro manifest_rows_listing) (use assms(1,2) in fastforce)+
  then have info: "manifest_info (node_of (VDict [(''files'', VList (map entry_val es)), (''name'', VStr name)]))
      = Ok (listing 0 0 es)"
    by (simp add: manifest_info_def comp_def)
  have "map_of (bn_dict (node_of ?v)) ''info'' =
      Some (node_of (VDict [(''files'', VList (map entry_val es)), (''name'', VStr name)]))"
    by (simp add: torrent_val_def)
  then show ?thesis using r info encode_nonempty[of ?v] assms(3)
    by (simp add: manifest_files_def del: encode.simps node_of.simps)
qed

theorem manifest_of_torrent_witness:
  "manifest_files (encode (torrent_val ''pack'' [([''s1'', ''e1.mkv''], 700), ([''s1'', ''e2.mkv''], 9)]))
     = Ok [manifest_file 0 ''s1/e1.mkv'' 700 0, manifest_file 1 ''s1/e2.mkv'' 9 700]"
proof -
  let ?es = "[([''s1'', ''e1.mkv''], 700), ([''s1'', ''e2.mkv''], 9 :: nat)]"
  have "length (encode (torrent_val ''pack'' ?es)) < 200" by code_simp
  then show ?thesis using manifest_of_torrent[of ?es "''pack''"]
    by (simp add: plain_elem_def good_elem_def)
qed

text \<open>
  What a torrent may write stays in the download directory: for every file
  of a manifest, joining its name to the root succeeds and gives the root's path
  followed by the elements of the name, whatever the torrent's author put there.
\<close>

theorem manifest_path_contained:
  assumes "manifest_files data = Ok files" and "f \<in> set files"
    and "cwd_ok cwd" and "path_abs cwd rootdir = Inr r"
  shows "\<exists>p. safeJoin cwd rootdir (tf_Path f) = Inr p \<and> contained r p \<and> p \<noteq> r"
proof -
  obtain k where "k < length files" "f = files ! k" using assms(2) by (metis in_set_conv_nth)
  then have "wf_file f" using manifest_files_wf[OF assms(1)] by (simp add: wf_files_def)
  then obtain es where es: "es \<noteq> []" "wf_elems es" "tf_Path f = join_with ''/'' es"
    by (auto simp: wf_file_def)
  obtain rs where rs: "wf_elems rs" "r = abs_path rs" using path_abs_wf[OF assms(3,4)] .
  have j: "safeJoin cwd rootdir (tf_Path f) = Inr (abs_path (rs @ es))"
    using safeJoin_good[OF assms(3) _ rs(1) es(2,1)] assms(4) rs es(3) by simp
  then have "contained r (abs_path (rs @ es))" by (rule safeJoin_contained[OF assms(3,4)])
  moreover have "abs_path (rs @ es) \<noteq> abs_path rs"
  proof -
    have "wf_elems (rs @ es)" using es(2) rs(1) by (auto simp: wf_elems_def)
    with es(1) rs(1) show ?thesis by (metis path_elems_abs_path self_append_conv)
  qed
  ultimately show ?thesis using j rs by blast
qed

theorem manifest_path_contained_witness:
  "\<exists>p. safeJoin None ''/srv/dl'' ''x.mkv'' = Inr p \<and> contained ''/srv/dl'' p \<and> p \<noteq> ''/srv/dl''"
proof -
  have "manifest_files ''d4:infod6:lengthi3e4:name6:/x.mkvee'' = Ok [manifest_file 0 ''x.mkv'' 3 0]"
    by code_simp
  moreover have "path_abs None ''/srv/dl'' = Inr ''/srv/dl''" by code_simp
  moreover have "cwd_ok None" by (simp add: cwd_ok_def)
  ultimately show ?thesis
    using manifest_path_contained[of _ "[manifest_file 0 ''x.mkv'' 3 0]" "manifest_file 0 ''x.mkv'' 3 0"]
    by (simp add: manifest_file_def)
qed

end
