(* ===== verification/JobTable.thy ===== *)
theory JobTable
  imports Domain "HOL-Library.Product_Lexorder"
begin

text \<open>
  The \<open>jobs\<close> table of \<open>internal/adapters/sqlite/repository.go\<close> (\<open>SaveJob\<close>,
  \<open>ListJobs\<close>, \<open>ListDueJobs\<close>, \<open>GetJob\<close>) and the classification of a failed attempt in
  \<open>internal/application/service.go\<close> (\<open>isTransient\<close>, \<open>failOrWait\<close>).

  The table is the list of its rows in insertion order. Times are stored with a
  resolution of one second. The interface \<open>job_store\<close> is what the job runners rely on;
  it is interpreted on the table at the end.
\<close>

section \<open>The table\<close>

definition second :: int where "second = 1000000000"
definition hour :: int where "hour = 3600 * second"

text \<open>\<open>t.Unix()\<close> followed by \<open>time.Unix\<close>.\<close>

definition unix_trunc :: "gotime \<Rightarrow> gotime" where
  "unix_trunc t = t - t mod second"

definition stored_job :: "gotime \<Rightarrow> job \<Rightarrow> job" where
  "stored_job now j = j\<lparr>
     j_NextAttemptAt := map_option unix_trunc (j_NextAttemptAt j),
     j_CreatedAt := unix_trunc (if j_CreatedAt j = 0 then now else j_CreatedAt j),
     j_UpdatedAt := unix_trunc (if j_UpdatedAt j = 0 then now else j_UpdatedAt j)\<rparr>"

text \<open>The \<open>DO UPDATE\<close> clause: every column but id, kind, dedupe key and creation time.\<close>

definition update_row :: "job \<Rightarrow> job \<Rightarrow> job" where
  "update_row old new = old\<lparr>
     j_State := j_State new, j_Label := j_Label new, j_Attempt := j_Attempt new,
     j_Progress := j_Progress new, j_Error := j_Error new, j_Retryable := j_Retryable new,
     j_NextAttemptAt := j_NextAttemptAt new, j_UpdatedAt := j_UpdatedAt new\<rparr>"

text \<open>
  \<open>SaveJob\<close>: an insert, or an update of the row with the same dedupe key. A row with the
  same id and another key violates the primary key and the statement fails.
\<close>

definition SaveJob :: "gotime \<Rightarrow> job \<Rightarrow> job list \<Rightarrow> job list option" where
  "SaveJob now j tab =
     (let s = stored_job now j in
      if \<exists>r\<in>set tab. j_ID r = j_ID s \<and> j_DedupeKey r \<noteq> j_DedupeKey s then None
      else if \<exists>r\<in>set tab. j_DedupeKey r = j_DedupeKey s
        then Some (map (\<lambda>r. if j_DedupeKey r = j_DedupeKey s then update_row r s else r) tab)
      else Some (tab @ [s]))"

text \<open>A save whose error the caller discards (\<open>_ = s.repo.SaveJob(...)\<close>).\<close>

definition SaveJob_ignored :: "gotime \<Rightarrow> job \<Rightarrow> job list \<Rightarrow> job list" where
  "SaveJob_ignored now j tab = (case SaveJob now j tab of None \<Rightarrow> tab | Some t \<Rightarrow> t)"

definition GetJob :: "string \<Rightarrow> job list \<Rightarrow> job option" where
  "GetJob jid tab = find (\<lambda>r. j_ID r = jid) tab"

definition active_state :: "string \<Rightarrow> bool" where
  "active_state s \<longleftrightarrow> s = ''queued'' \<or> s = ''running''"

definition state_rank :: "string \<Rightarrow> int" where
  "state_rank s = (if s = ''running'' then 0 else if s = ''queued'' then 1 else 2)"

definition ListJobs :: "int \<Rightarrow> job list \<Rightarrow> job list" where
  "ListJobs limit tab =
     (let n = (if limit < 1 \<or> limit > 1000 then 100 else limit) in
      take (nat n) (sort_key (\<lambda>r. (state_rank (j_State r), - j_UpdatedAt r)) tab))"

definition due_row :: "gotime \<Rightarrow> job \<Rightarrow> bool" where
  "due_row before r \<longleftrightarrow> (case j_NextAttemptAt r of
       None \<Rightarrow> False
     | Some t \<Rightarrow> t \<le> unix_trunc before
         \<and> (j_State r = ''retry_wait'' \<or> (j_State r = ''failed'' \<and> j_Retryable r)))"

definition ListDueJobs :: "gotime \<Rightarrow> int \<Rightarrow> job list \<Rightarrow> job list" where
  "ListDueJobs before limit tab =
     (let n = (if limit < 1 \<or> limit > 1000 then 500 else limit) in
      take (nat n) (sort_key (\<lambda>r. the (j_NextAttemptAt r)) (filter (due_row before) tab)))"

section \<open>The table as a store\<close>

text \<open>
  Every job the program creates has its dedupe key as its id, so a row is found again
  under either; \<open>wf_jobs\<close> is that invariant with the two uniqueness constraints.
\<close>

definition wf_jobs :: "job list \<Rightarrow> bool" where
  "wf_jobs tab \<longleftrightarrow> distinct (map j_ID tab) \<and> (\<forall>r\<in>set tab. j_DedupeKey r = j_ID r)"

definition own_key :: "job \<Rightarrow> bool" where
  "own_key j \<longleftrightarrow> j_DedupeKey j = j_ID j"

lemma stored_job_simps [simp]:
  "j_ID (stored_job now j) = j_ID j" "j_DedupeKey (stored_job now j) = j_DedupeKey j"
  "j_State (stored_job now j) = j_State j" "j_Attempt (stored_job now j) = j_Attempt j"
  "j_Kind (stored_job now j) = j_Kind j" "j_Retryable (stored_job now j) = j_Retryable j"
  "j_Label (stored_job now j) = j_Label j" "j_Error (stored_job now j) = j_Error j"
  by (simp_all add: stored_job_def)

lemma update_row_simps [simp]:
  "j_ID (update_row r s) = j_ID r" "j_DedupeKey (update_row r s) = j_DedupeKey r"
  "j_State (update_row r s) = j_State s" "j_Attempt (update_row r s) = j_Attempt s"
  "j_Kind (update_row r s) = j_Kind r" "j_Retryable (update_row r s) = j_Retryable s"
  "j_Label (update_row r s) = j_Label s" "j_Error (update_row r s) = j_Error s"
  by (simp_all add: update_row_def)

lemma SaveJob_total:
  "wf_jobs tab \<Longrightarrow> own_key j \<Longrightarrow> \<exists>tab'. SaveJob now j tab = Some tab'"
  by (auto simp: SaveJob_def wf_jobs_def own_key_def Let_def)

lemma SaveJob_wf:
  assumes "wf_jobs tab" "own_key j" "SaveJob now j tab = Some tab'"
  shows "wf_jobs tab'"
proof -
  have ids: "map j_ID (map (\<lambda>r. if P r then update_row r s else r) xs) = map j_ID xs" for P s xs
    by (induction xs) auto
  show ?thesis
    using assms by (fastforce simp: SaveJob_def wf_jobs_def own_key_def Let_def ids image_iff
        simp del: map_map split: if_splits)
qed

text \<open>What a lookup returns after a save: the saved values over the old identity.\<close>

definition saved_over :: "gotime \<Rightarrow> job option \<Rightarrow> job \<Rightarrow> job" where
  "saved_over now old j =
     (case old of None \<Rightarrow> stored_job now j | Some r \<Rightarrow> update_row r (stored_job now j))"

lemma GetJob_map:
  assumes "\<And>r. j_ID (f r) = j_ID r"
  shows "GetJob k (map f tab) = map_option f (GetJob k tab)"
  unfolding GetJob_def by (induction tab) (auto simp: assms)

lemma GetJob_some: "GetJob k tab = Some r \<Longrightarrow> r \<in> set tab \<and> j_ID r = k"
  by (auto simp: GetJob_def find_Some_iff)

lemma GetJob_none: "GetJob k tab = None \<longleftrightarrow> (\<forall>r\<in>set tab. j_ID r \<noteq> k)"
  by (auto simp: GetJob_def find_None_iff)

lemma GetJob_append: "GetJob k (a @ b) = (case GetJob k a of None \<Rightarrow> GetJob k b | Some r \<Rightarrow> Some r)"
  unfolding GetJob_def by (induction a) auto

lemma GetJob_SaveJob:
  assumes "wf_jobs tab" "own_key j" "SaveJob now j tab = Some tab'"
  shows "GetJob k tab' = (if k = j_ID j then Some (saved_over now (GetJob k tab) j) else GetJob k tab)"
proof (cases "\<exists>r\<in>set tab. j_DedupeKey r = j_DedupeKey j")
  case True
  then have t: "tab' = map (\<lambda>r. if j_DedupeKey r = j_DedupeKey j
      then update_row r (stored_job now j) else r) tab"
    using assms(3) by (auto simp: SaveJob_def Let_def split: if_splits)
  have key: "j_DedupeKey r = j_DedupeKey j \<longleftrightarrow> k = j_ID j" if "GetJob k tab = Some r" for r
    using GetJob_some[OF that] assms(1,2) by (auto simp: wf_jobs_def own_key_def)
  show ?thesis
  proof (cases "GetJob k tab")
    case None
    moreover have "k \<noteq> j_ID j" using None True assms(1,2)
      by (auto simp: GetJob_none wf_jobs_def own_key_def)
    ultimately show ?thesis unfolding t by (subst GetJob_map) auto
  next
    case (Some r)
    then show ?thesis unfolding t using key[OF Some]
      by (subst GetJob_map) (auto simp: saved_over_def)
  qed
next
  case False
  then have t: "tab' = tab @ [stored_job now j]"
    using assms(3) by (auto simp: SaveJob_def Let_def split: if_splits)
  have "GetJob (j_ID j) tab = None" using False assms(1,2)
    by (auto simp: GetJob_none wf_jobs_def own_key_def)
  then show ?thesis unfolding t GetJob_append
    by (auto simp: saved_over_def GetJob_def split: option.splits)
qed

text \<open>
  The interface of the runners: a store with an invariant under which saving a job that
  carries its key as id succeeds, keeps the invariant and changes that one row.
\<close>

locale job_store =
  fixes lookup :: "string \<Rightarrow> 'store \<Rightarrow> job option"
    and save :: "gotime \<Rightarrow> job \<Rightarrow> 'store \<Rightarrow> 'store"
    and inv :: "'store \<Rightarrow> bool"
  assumes save_inv: "inv s \<Longrightarrow> own_key j \<Longrightarrow> inv (save now j s)"
    and lookup_save: "inv s \<Longrightarrow> own_key j \<Longrightarrow>
      lookup k (save now j s) =
        (if k = j_ID j then Some (saved_over now (lookup k s) j) else lookup k s)"
begin

definition state_of :: "'store \<Rightarrow> string \<Rightarrow> string" where
  "state_of s k = (case lookup k s of None \<Rightarrow> [] | Some r \<Rightarrow> j_State r)"

lemma state_of_save:
  "inv s \<Longrightarrow> own_key j \<Longrightarrow>
     state_of (save now j s) k = (if k = j_ID j then j_State j else state_of s k)"
  by (simp add: state_of_def lookup_save saved_over_def split: option.splits)

lemma save_last:
  "inv s \<Longrightarrow> own_key j \<Longrightarrow> \<exists>r. lookup (j_ID j) (save now j s) = Some r
     \<and> j_State r = j_State j \<and> j_Attempt r = j_Attempt j \<and> j_Label r = j_Label j
     \<and> j_Error r = j_Error j \<and> j_Retryable r = j_Retryable j"
  by (simp add: lookup_save saved_over_def split: option.splits)

text \<open>A sequence of saves under one key ends with the values of the last one.\<close>

lemma saves_last:
  assumes "inv s" "\<forall>p\<in>set ps. own_key (snd p)" "ps \<noteq> []"
  shows "inv (fold (\<lambda>p. save (fst p) (snd p)) ps s)
    \<and> state_of (fold (\<lambda>p. save (fst p) (snd p)) ps s) (j_ID (snd (last ps))) = j_State (snd (last ps))"
  using assms
proof (induction ps arbitrary: s)
  case (Cons p ps)
  then show ?case
    by (cases "ps = []") (auto simp: save_inv state_of_save)
qed simp

end

lemma SaveJob_ignored_wf: "wf_jobs tab \<Longrightarrow> own_key j \<Longrightarrow> wf_jobs (SaveJob_ignored now j tab)"
  using SaveJob_total[of tab j now] SaveJob_wf by (auto simp: SaveJob_ignored_def)

lemma GetJob_SaveJob_ignored:
  "wf_jobs tab \<Longrightarrow> own_key j \<Longrightarrow> GetJob k (SaveJob_ignored now j tab) =
     (if k = j_ID j then Some (saved_over now (GetJob k tab) j) else GetJob k tab)"
  using SaveJob_total[of tab j now] GetJob_SaveJob by (auto simp: SaveJob_ignored_def)

lemma SaveJob_eq_ignored:
  "wf_jobs tab \<Longrightarrow> own_key j \<Longrightarrow> SaveJob now j tab = Some (SaveJob_ignored now j tab)"
  using SaveJob_total[of tab j now] by (auto simp: SaveJob_ignored_def)

interpretation sqlite: job_store GetJob SaveJob_ignored wf_jobs
  by unfold_locales (simp_all add: SaveJob_ignored_wf GetJob_SaveJob_ignored)

section \<open>Failed attempts\<close>

text \<open>
  What the code asks of an error: its text, the retry time of an
  \<open>outbound.RateLimitError\<close> in its chain (0 is the zero time), and whether a context
  error is in its chain.
\<close>

datatype job_error = JobError (je_Text: string) (je_RetryAt: "gotime option") (je_Context: bool)

definition isTransient :: "job_error \<Rightarrow> bool" where
  "isTransient e \<longleftrightarrow> je_RetryAt e \<noteq> None \<or> je_Context e \<or>
     (let t = to_lower (je_Text e) in
      contains_str t ''timeout'' \<or> contains_str t ''temporar''
      \<or> contains_str t ''connection reset'' \<or> contains_str t ''http 5'' \<or> contains_str t ''returned 5'')"

definition failOrWait :: "gotime \<Rightarrow> job \<Rightarrow> job_error \<Rightarrow> job" where
  "failOrWait now j e =
     (let j1 = j\<lparr>j_Error := je_Text e, j_UpdatedAt := now, j_Retryable := isTransient e\<rparr> in
      case je_RetryAt e of
        Some t \<Rightarrow> j1\<lparr>j_State := ''retry_wait'',
                      j_NextAttemptAt := Some (if t = 0 then now + hour else t)\<rparr>
      | None \<Rightarrow> let j2 = j1\<lparr>j_State := ''failed''\<rparr> in
          if isTransient e then j2\<lparr>j_NextAttemptAt := Some (now + hour)\<rparr> else j2)"

lemma failOrWait_simps [simp]:
  "j_ID (failOrWait now j e) = j_ID j" "j_DedupeKey (failOrWait now j e) = j_DedupeKey j"
  "j_Kind (failOrWait now j e) = j_Kind j" "j_Label (failOrWait now j e) = j_Label j"
  "j_Attempt (failOrWait now j e) = j_Attempt j"
  by (simp_all add: failOrWait_def Let_def split: option.splits)

lemma failOrWait_state: "j_State (failOrWait now j e) \<in> {''failed'', ''retry_wait''}"
  by (simp add: failOrWait_def Let_def split: option.splits)



end
