(* ===== verification/EvictionRules.thy ===== *)
theory EvictionRules
  imports Prelude
begin

text \<open>
  The eviction rule list of \<open>internal/platform/config/config.go\<close>:
  \<open>EvictionRuleAtoms\<close>, \<open>ValidEvictionRule\<close>, \<open>NormalizeEvictionRules\<close>.
\<close>

definition EvictionRuleAtoms :: "string list" where
  "EvictionRuleAtoms = [''oldest-completed'', ''newest-completed'', ''least-recently-played'',
     ''most-recently-played'', ''watched-first'', ''never-watched-first'', ''largest'', ''smallest'']"

definition ValidEvictionRule :: "string \<Rightarrow> bool" where
  "ValidEvictionRule rule \<longleftrightarrow> to_lower (trim_space rule) \<in> set EvictionRuleAtoms"

definition NormalizeEvictionRules :: "string list \<Rightarrow> string list" where
  "NormalizeEvictionRules rules =
     (let out = filter (\<lambda>a. a \<noteq> []) (map (\<lambda>r. to_lower (trim_space r)) rules) in
      if out = [] then [hd EvictionRuleAtoms] else out)"

lemma NormalizeEvictionRules_nonempty: "NormalizeEvictionRules rules \<noteq> []"
  by (simp add: NormalizeEvictionRules_def Let_def)

lemma NormalizeEvictionRules_atoms:
  "\<forall>r\<in>set rules. trim_space r = [] \<or> ValidEvictionRule r \<Longrightarrow>
     set (NormalizeEvictionRules rules) \<subseteq> set EvictionRuleAtoms"
  by (auto simp: NormalizeEvictionRules_def ValidEvictionRule_def Let_def EvictionRuleAtoms_def
      to_lower_def)

end
