(* ===== verification/EvictionOrder.thy ===== *)
theory EvictionOrder
  imports Domain EvictionRules Strconv "HOL-Library.Product_Lexorder" "HOL-Library.List_Lexorder"
    "HOL-Library.Char_ord"
begin

text \<open>
  What an eviction decides on, \<open>internal/application/retention.go\<close>: a route (a torrent with
  its rows), the protection predicate, the comparison of two routes under the configured
  rules with the proof that it is a lexicographic order, and the household facts.
\<close>

section \<open>Routes\<close>

record retention_settings =
  rs_AllocationGB :: float64
  rs_ReserveGB :: float64
  rs_ProtectIncomplete :: bool
  rs_ProtectLeased :: bool
  rs_ProtectFavorites :: bool
  rs_ProtectNeverWatched :: bool
  rs_EvictionRules :: "string list"

text \<open>The conversion \<open>int64(x)\<close> of a finite float truncates towards zero.\<close>

definition gigabytesToBytes :: "float64 \<Rightarrow> int64" where
  "gigabytesToBytes gb = (let x = gb * 1073741824 in if 0 \<le> x then \<lfloor>x\<rfloor> else \<lceil>x\<rceil>)"

record retention_route =
  rt_engineID :: string
  rt_hash :: string
  rt_rows :: "download list"
  rt_status :: download_status
  rt_favorite :: bool
  rt_watched :: bool
  rt_lastPlayed :: gotime

definition completedAt :: "retention_route \<Rightarrow> gotime" where
  "completedAt r = fold (\<lambda>row oldest. if d_UpdatedAt row < oldest then d_UpdatedAt row else oldest)
     (tl (rt_rows r)) (d_UpdatedAt (hd (rt_rows r)))"

definition lastActivity :: "retention_route \<Rightarrow> gotime" where
  "lastActivity r = (if rt_lastPlayed r \<noteq> 0 then rt_lastPlayed r else completedAt r)"

definition routeIncomplete :: "retention_route \<Rightarrow> bool" where
  "routeIncomplete r \<longleftrightarrow> st_Progress (rt_status r) < 1 \<or> list_ex (\<lambda>d. d_Progress d < 1) (rt_rows r)"

definition routeLeased :: "retention_route \<Rightarrow> bool" where
  "routeLeased r \<longleftrightarrow> list_ex d_Leased (rt_rows r)"

definition retentionProtected :: "retention_route \<Rightarrow> retention_settings \<Rightarrow> bool" where
  "retentionProtected r s \<longleftrightarrow>
     (rs_ProtectIncomplete s \<and> routeIncomplete r) \<or> (rs_ProtectLeased s \<and> routeLeased r)
     \<or> (rs_ProtectFavorites s \<and> rt_favorite r) \<or> (rs_ProtectNeverWatched s \<and> \<not> rt_watched r)"

section \<open>Ordering\<close>

definition cmp3 :: "int \<Rightarrow> int \<Rightarrow> int" where
  "cmp3 a b = (if a < b then - 1 else if a > b then 1 else 0)"

definition boolFirst :: "bool \<Rightarrow> bool \<Rightarrow> int" where
  "boolFirst a b = (if a = b then 0 else if a then - 1 else 1)"

definition compareEvictionRule :: "string \<Rightarrow> retention_route \<Rightarrow> retention_route \<Rightarrow> int" where
  "compareEvictionRule rule a b =
     (if rule = ''newest-completed'' then cmp3 (completedAt b) (completedAt a)
      else if rule = ''least-recently-played'' then cmp3 (lastActivity a) (lastActivity b)
      else if rule = ''most-recently-played'' then cmp3 (lastActivity b) (lastActivity a)
      else if rule = ''watched-first'' then boolFirst (rt_watched a) (rt_watched b)
      else if rule = ''never-watched-first'' then boolFirst (\<not> rt_watched a) (\<not> rt_watched b)
      else if rule = ''largest'' then cmp3 (st_TotalBytes (rt_status b)) (st_TotalBytes (rt_status a))
      else if rule = ''smallest'' then cmp3 (st_TotalBytes (rt_status a)) (st_TotalBytes (rt_status b))
      else cmp3 (completedAt a) (completedAt b))"

text \<open>The comparison function given to \<open>sort.Slice\<close>.\<close>

fun eviction_less :: "string list \<Rightarrow> retention_route \<Rightarrow> retention_route \<Rightarrow> bool" where
  "eviction_less [] a b =
     (let c = cmp3 (completedAt a) (completedAt b) in
      if c \<noteq> 0 then c < 0 else rt_engineID a < rt_engineID b)"
| "eviction_less (rule # rules) a b =
     (let c = compareEvictionRule rule a b in if c \<noteq> 0 then c < 0 else eviction_less rules a b)"

fun insert_by :: "('a \<Rightarrow> 'a \<Rightarrow> bool) \<Rightarrow> 'a \<Rightarrow> 'a list \<Rightarrow> 'a list" where
  "insert_by lt x [] = [x]"
| "insert_by lt x (y # ys) = (if lt y x then y # insert_by lt x ys else x # y # ys)"

definition sort_by :: "('a \<Rightarrow> 'a \<Rightarrow> bool) \<Rightarrow> 'a list \<Rightarrow> 'a list" where
  "sort_by lt xs = foldr (insert_by lt) xs []"

definition applyEvictionRules :: "retention_route list \<Rightarrow> string list \<Rightarrow> retention_route list" where
  "applyEvictionRules candidates rules = sort_by (eviction_less rules) candidates"

subsection \<open>The rule list is a lexicographic order\<close>

text \<open>Every rule compares one integer per route; a tie under all of them is broken by
  the completion time and the engine id.\<close>

definition rule_key :: "string \<Rightarrow> retention_route \<Rightarrow> int" where
  "rule_key rule r =
     (if rule = ''newest-completed'' then - completedAt r
      else if rule = ''least-recently-played'' then lastActivity r
      else if rule = ''most-recently-played'' then - lastActivity r
      else if rule = ''watched-first'' then (if rt_watched r then 0 else 1)
      else if rule = ''never-watched-first'' then (if rt_watched r then 1 else 0)
      else if rule = ''largest'' then - st_TotalBytes (rt_status r)
      else if rule = ''smallest'' then st_TotalBytes (rt_status r)
      else completedAt r)"

definition route_key :: "string list \<Rightarrow> retention_route \<Rightarrow> (int list \<times> string)" where
  "route_key rules r = (map (\<lambda>rule. rule_key rule r) rules @ [completedAt r], rt_engineID r)"

lemma compareEvictionRule_key:
  "compareEvictionRule rule a b = cmp3 (rule_key rule a) (rule_key rule b)"
  by (auto simp: compareEvictionRule_def rule_key_def cmp3_def boolFirst_def)

lemma eviction_less_key:
  "eviction_less rules a b \<longleftrightarrow> route_key rules a < route_key rules b"
proof (induction rules)
  case Nil
  then show ?case by (auto simp: route_key_def cmp3_def Let_def)
next
  case (Cons rule rules)
  then show ?case by (auto simp: route_key_def cmp3_def Let_def compareEvictionRule_key)
qed

lemma insert_by_set [simp]: "set (insert_by lt x xs) = insert x (set xs)"
  by (induction xs) auto

lemma sort_by_set [simp]: "set (sort_by lt xs) = set xs"
  unfolding sort_by_def by (induction xs) auto

lemma insert_by_sorted:
  fixes key :: "'a \<Rightarrow> 'k :: linorder"
  assumes "\<And>a b. lt a b \<longleftrightarrow> key a < key b" "sorted (map key xs)"
  shows "sorted (map key (insert_by lt x xs))"
  using assms(2) by (induction xs) (auto simp: assms(1) not_less)

lemma sort_by_sorted:
  fixes key :: "'a \<Rightarrow> 'k :: linorder"
  assumes "\<And>a b. lt a b \<longleftrightarrow> key a < key b"
  shows "sorted (map key (sort_by lt xs))"
  unfolding sort_by_def
  by (induction xs) (auto intro: insert_by_sorted[of lt key, OF assms])

lemma applyEvictionRules_hd:
  assumes "applyEvictionRules cs rules = v # vs"
  shows "v \<in> set cs \<and> (\<forall>c\<in>set cs. route_key rules v \<le> route_key rules c)"
proof -
  have eq: "sort_by (eviction_less rules) cs = v # vs" using assms by (simp add: applyEvictionRules_def)
  have "sorted (map (route_key rules) (v # vs))"
    using sort_by_sorted[of "eviction_less rules" "route_key rules" cs, OF eviction_less_key]
    unfolding eq .
  moreover have "set (v # vs) = set cs" using sort_by_set[of "eviction_less rules" cs] unfolding eq .
  ultimately have "v \<in> set (v # vs) \<and> (\<forall>c\<in>set (v # vs). route_key rules v \<le> route_key rules c)"
    by auto
  then show ?thesis unfolding \<open>set (v # vs) = set cs\<close> .
qed

section \<open>Household facts\<close>

record retention_household =
  hh_favoriteTitles :: "string list"
  hh_latestByTitle :: "string \<rightharpoonup> playback_state"
  hh_titleByRelease :: "string \<rightharpoonup> string"

text \<open>Reading a missing key of a \<open>map[string]string\<close> gives the empty string.\<close>

definition title_of :: "(string \<rightharpoonup> string) \<Rightarrow> string \<Rightarrow> string" where
  "title_of m r = (case m r of None \<Rightarrow> [] | Some t \<Rightarrow> t)"

text \<open>The loop over the playback rows of the household.\<close>

definition add_playback ::
  "(string \<rightharpoonup> string) \<Rightarrow> playback_state \<Rightarrow> (string \<rightharpoonup> playback_state) \<Rightarrow> (string \<rightharpoonup> playback_state)" where
  "add_playback titles p latest =
     (let t = title_of titles (pb_ReleaseID p) in
      if t = [] then latest
      else (case latest t of
        None \<Rightarrow> latest(t \<mapsto> p)
      | Some l \<Rightarrow> if pb_UpdatedAt l < pb_UpdatedAt p then latest(t \<mapsto> p) else latest))"

definition retentionHousehold ::
  "(string \<rightharpoonup> string) \<Rightarrow> string list \<Rightarrow> playback_state list \<Rightarrow> download list \<Rightarrow> retention_household" where
  "retentionHousehold catalog favorites playback managed =
     (let ids = filter (\<lambda>r. r \<noteq> []) (map d_ReleaseID managed);
          titles = (\<lambda>r. if r \<in> set ids then catalog r else None) in
      \<lparr>hh_favoriteTitles = favorites,
       hh_latestByTitle = fold (add_playback titles) playback Map.empty,
       hh_titleByRelease = titles\<rparr>)"

definition row_facts ::
  "retention_household \<Rightarrow> download \<Rightarrow> bool \<times> bool \<times> gotime \<Rightarrow> bool \<times> bool \<times> gotime" where
  "row_facts h row acc =
     (let (favorite, watched, lastPlayed) = acc; t = title_of (hh_titleByRelease h) (d_ReleaseID row) in
      if t = [] then acc
      else let favorite' = (favorite \<or> t \<in> set (hh_favoriteTitles h)) in
        (case hh_latestByTitle h t of
           None \<Rightarrow> (favorite', watched, lastPlayed)
         | Some p \<Rightarrow> (favorite', watched \<or> pb_Watched p,
             if lastPlayed = 0 \<or> lastPlayed < pb_UpdatedAt p then pb_UpdatedAt p else lastPlayed)))"

definition routeFacts :: "retention_household \<Rightarrow> download list \<Rightarrow> bool \<times> bool \<times> gotime" where
  "routeFacts h rows = fold (row_facts h) rows (False, False, 0)"

end
