(* ===== verification/Retention.thy ===== *)
theory Retention
  imports JobTable EvictionOrder
begin

text \<open>
  Storage retention, \<open>internal/application/retention.go\<close>: the survey, the deficit checks,
  one eviction with its delete path (\<open>removeTorrent\<close> and \<open>forgetEngineRows\<close> of
  \<open>internal/application/service.go\<close>) and the hourly run.

  The state \<open>rworld\<close> holds the rows of the downloads table and the torrents the engine
  has. What the run reads and does not change (settings, household tables, the errors of
  the engine, disk and database) is the record \<open>retention_env\<close>.
\<close>

section \<open>The survey\<close>

record rworld =
  rw_rows :: "download list"
  rw_torrents :: "(string \<times> download_status) list"
  rw_evicted :: "(string \<times> string) list"

text \<open>
  \<open>rw_evicted\<close> is the journal of \<open>downloads.evicted\<close> events (reason and engine id).
  Of the environment: the route prefix, the settings, the catalog's release-to-title
  table, the favorite titles and playback rows of the household; the free space the disk
  reports (\<open>None\<close> for an error) and the errors the database and the engine return.
\<close>

record retention_env =
  en_prefix :: string
  en_settings :: retention_settings
  en_catalog :: "string \<rightharpoonup> string"
  en_favorites :: "string list"
  en_playback :: "playback_state list"
  en_free :: "rworld \<Rightarrow> int64 option"
  en_surveyError :: "rworld \<Rightarrow> job_error option"
  en_removeError :: "rworld \<Rightarrow> string \<Rightarrow> job_error option"
  en_listError :: "rworld \<Rightarrow> job_error option"
  en_deleteError :: "rworld \<Rightarrow> string \<Rightarrow> job_error option"

record retention_plan =
  pl_routes :: "retention_route list"
  pl_storedBytes :: int64
  pl_freeBytes :: "int64 option"

definition route :: "retention_env \<Rightarrow> string \<Rightarrow> string option" where
  "route env engineID = cut_prefix engineID (en_prefix env)"

text \<open>The distinct elements in the order of their first occurrence.\<close>

fun first_seen :: "string list \<Rightarrow> string list \<Rightarrow> string list" where
  "first_seen seen [] = []"
| "first_seen seen (x # xs) =
     (if x \<in> set seen then first_seen seen xs else x # first_seen (x # seen) xs)"

text \<open>\<open>route_of\<close> is one pass of the loop over \<open>order\<close>: \<open>None\<close> when the engine cannot
  describe the torrent.\<close>

definition route_of :: "retention_env \<Rightarrow> rworld \<Rightarrow> retention_household \<Rightarrow> string \<Rightarrow> retention_route option" where
  "route_of env w h engineID =
     (case route env engineID of
        None \<Rightarrow> None
      | Some hash \<Rightarrow>
          (case map_of (rw_torrents w) hash of
             None \<Rightarrow> None
           | Some status \<Rightarrow>
               (let rows = filter (\<lambda>d. d_EngineID d = engineID) (rw_rows w);
                    (favorite, watched, lastPlayed) = routeFacts h rows in
                Some \<lparr>rt_engineID = engineID, rt_hash = hash, rt_rows = rows, rt_status = status,
                      rt_favorite = favorite, rt_watched = watched, rt_lastPlayed = lastPlayed\<rparr>)))"

definition routed_ids :: "retention_env \<Rightarrow> rworld \<Rightarrow> string list" where
  "routed_ids env w = first_seen []
     (filter (\<lambda>e. route env e \<noteq> None) (map d_EngineID (rw_rows w)))"

definition survey_routes :: "retention_env \<Rightarrow> rworld \<Rightarrow> retention_route list" where
  "survey_routes env w =
     List.map_filter (route_of env w (retentionHousehold (en_catalog env) (en_favorites env)
       (en_playback env) (rw_rows w))) (routed_ids env w)"

definition retentionSurvey :: "retention_env \<Rightarrow> rworld \<Rightarrow> job_error + retention_plan" where
  "retentionSurvey env w =
     (case en_surveyError env w of
        Some e \<Rightarrow> Inl e
      | None \<Rightarrow>
          (let routes = survey_routes env w in
           Inr \<lparr>pl_routes = routes,
                pl_storedBytes = fold (\<lambda>r n. i64 (n + st_TotalBytes (rt_status r))) routes 0,
                pl_freeBytes = en_free env w\<rparr>))"

definition retentionDeficit :: "retention_plan \<Rightarrow> retention_settings \<Rightarrow> string option" where
  "retentionDeficit plan s =
     (if rs_AllocationGB s > 0
         \<and> i64 (pl_storedBytes plan - gigabytesToBytes (rs_AllocationGB s)) > 0
      then Some ''cap''
      else if rs_ReserveGB s > 0 then
        (case pl_freeBytes plan of
           None \<Rightarrow> None
         | Some free \<Rightarrow> if gigabytesToBytes (rs_ReserveGB s) > free then Some ''reserve'' else None)
      else None)"

section \<open>Removing a torrent\<close>

text \<open>The delete loop stops at the first error; the rows deleted before stay deleted.\<close>

fun forget_rows ::
  "retention_env \<Rightarrow> string \<Rightarrow> download list \<Rightarrow> rworld \<Rightarrow> rworld \<times> job_error option" where
  "forget_rows env engineID [] w = (w, None)"
| "forget_rows env engineID (d # ds) w =
     (if d_EngineID d \<noteq> engineID then forget_rows env engineID ds w
      else (case en_deleteError env w (d_ID d) of
        Some e \<Rightarrow> (w, Some e)
      | None \<Rightarrow> forget_rows env engineID ds
          (w\<lparr>rw_rows := filter (\<lambda>r. d_ID r \<noteq> d_ID d) (rw_rows w)\<rparr>)))"

definition forgetEngineRows :: "retention_env \<Rightarrow> string \<Rightarrow> rworld \<Rightarrow> rworld \<times> job_error option" where
  "forgetEngineRows env engineID w =
     (case en_listError env w of
        Some e \<Rightarrow> (w, Some e)
      | None \<Rightarrow> forget_rows env engineID (rw_rows w) w)"

text \<open>\<open>engine.Remove\<close> drops the torrent; \<open>ErrTorrentNotFound\<close> is not an error here.\<close>

definition removeTorrent :: "retention_env \<Rightarrow> string \<Rightarrow> rworld \<Rightarrow> rworld \<times> job_error option" where
  "removeTorrent env engineID w =
     (case route env engineID of
        None \<Rightarrow> (w, Some (JobError ''unsupported engine route'' None False))
      | Some hash \<Rightarrow>
          (case en_removeError env w hash of
             Some e \<Rightarrow> (w, Some e)
           | None \<Rightarrow> forgetEngineRows env engineID
               (w\<lparr>rw_torrents := filter (\<lambda>t. fst t \<noteq> hash) (rw_torrents w)\<rparr>)))"

definition evictNext ::
  "retention_env \<Rightarrow> retention_plan \<Rightarrow> string \<Rightarrow> string list \<Rightarrow> rworld \<Rightarrow>
     rworld \<times> (job_error + retention_route option)" where
  "evictNext env plan reason rules w =
     (let candidates = filter (\<lambda>r. \<not> retentionProtected r (en_settings env)) (pl_routes plan) in
      if candidates = [] then (w, Inr None)
      else let victim = hd (applyEvictionRules candidates rules) in
        (case removeTorrent env (rt_engineID victim) w of
           (w', Some e) \<Rightarrow> (w', Inl e)
         | (w', None) \<Rightarrow>
             (w'\<lparr>rw_evicted := rw_evicted w' @ [(reason, rt_engineID victim)]\<rparr>, Inr (Some victim))))"

subsection \<open>What a removal changes\<close>

lemma forget_rows_facts:
  "forget_rows env e ds w = (w', r) \<Longrightarrow>
     rw_torrents w' = rw_torrents w \<and> rw_evicted w' = rw_evicted w
     \<and> set (rw_rows w') \<subseteq> set (rw_rows w) \<and> length (rw_rows w') \<le> length (rw_rows w)"
proof (induction env e ds w arbitrary: w' r rule: forget_rows.induct)
  case (2 env e d ds w)
  show ?case
  proof (cases "d_EngineID d \<noteq> e \<or> en_deleteError env w (d_ID d) \<noteq> None")
    case True
    then show ?thesis using 2 by (auto split: if_splits)
  next
    case False
    with 2 have "rw_torrents w' = rw_torrents w \<and> rw_evicted w' = rw_evicted w
        \<and> set (rw_rows w') \<subseteq> set (filter (\<lambda>r. d_ID r \<noteq> d_ID d) (rw_rows w))
        \<and> length (rw_rows w') \<le> length (filter (\<lambda>r. d_ID r \<noteq> d_ID d) (rw_rows w))"
      by simp
    then show ?thesis by (auto intro: le_trans[OF _ length_filter_le])
  qed
qed simp

lemma forget_rows_rows:
  "forget_rows env e ds w = (w', None) \<Longrightarrow> distinct (map d_ID (rw_rows w)) \<Longrightarrow>
     set ds \<subseteq> set all \<Longrightarrow> rw_rows w = filter (\<lambda>d. d \<notin> gone) all \<Longrightarrow> distinct (map d_ID all) \<Longrightarrow>
     rw_rows w' = filter (\<lambda>d. d \<notin> gone \<and> \<not> (d \<in> set ds \<and> d_EngineID d = e)) all"
proof (induction env e ds w arbitrary: w' gone rule: forget_rows.induct)
  case (2 env e d ds w)
  show ?case
  proof (cases "d_EngineID d = e")
    case False
    with 2 show ?thesis by (auto intro: filter_cong)
  next
    case True
    with "2.prems"(1) have del: "en_deleteError env w (d_ID d) = None"
      and rest: "forget_rows env e ds (w\<lparr>rw_rows := filter (\<lambda>r. d_ID r \<noteq> d_ID d) (rw_rows w)\<rparr>) = (w', None)"
      by (auto split: option.splits)
    have key: "d_ID r \<noteq> d_ID d \<longleftrightarrow> r \<noteq> d" if "r \<in> set all" for r
      using that "2.prems"(3,5) by (auto simp: distinct_map inj_on_def)
    have rows: "filter (\<lambda>r. d_ID r \<noteq> d_ID d) (rw_rows w) = filter (\<lambda>r. r \<notin> insert d gone) all"
      using "2.prems"(4) key by (auto intro: filter_cong)
    have "rw_rows w' = filter (\<lambda>r. r \<notin> insert d gone \<and> \<not> (r \<in> set ds \<and> d_EngineID r = e)) all"
      by (rule "2.IH"(2)[OF _ del rest, where gone = "insert d gone"])
        (use True rows 2 in \<open>auto simp: distinct_map_filter\<close>)
    then show ?thesis using True by (auto intro: filter_cong)
  qed
qed auto

lemma removeTorrent_rows:
  assumes "removeTorrent env e w = (w', None)" "distinct (map d_ID (rw_rows w))"
  shows "rw_rows w' = filter (\<lambda>d. d_EngineID d \<noteq> e) (rw_rows w)"
proof -
  from assms(1) obtain hash where
    "forget_rows env e (rw_rows w) (w\<lparr>rw_torrents := filter (\<lambda>t. fst t \<noteq> hash) (rw_torrents w)\<rparr>) = (w', None)"
    by (auto simp: removeTorrent_def forgetEngineRows_def split: option.splits)
  from forget_rows_rows[OF this, of "rw_rows w" "{}"] assms(2)
  show ?thesis by (auto intro: filter_cong)
qed

lemma removeTorrent_facts:
  "removeTorrent env e w = (w', r) \<Longrightarrow>
     set (rw_rows w') \<subseteq> set (rw_rows w) \<and> length (rw_rows w') \<le> length (rw_rows w)
     \<and> rw_evicted w' = rw_evicted w
     \<and> (rw_torrents w' = rw_torrents w
        \<or> (\<exists>hash. route env e = Some hash
            \<and> rw_torrents w' = filter (\<lambda>t. fst t \<noteq> hash) (rw_torrents w)))"
  by (auto simp: removeTorrent_def forgetEngineRows_def dest!: forget_rows_facts split: option.splits)

lemma forget_rows_subseq:
  "forget_rows env e ds w = (w', r) \<Longrightarrow> subseq (rw_rows w') (rw_rows w)"
proof (induction env e ds w arbitrary: w' r rule: forget_rows.induct)
  case (2 env e d ds w)
  show ?case
  proof (cases "d_EngineID d \<noteq> e \<or> en_deleteError env w (d_ID d) \<noteq> None")
    case True
    then show ?thesis using 2 by (auto split: if_splits)
  next
    case False
    with 2 have "subseq (rw_rows w') (filter (\<lambda>r. d_ID r \<noteq> d_ID d) (rw_rows w))" by simp
    then show ?thesis using subseq_filter_left subseq_order.trans by blast
  qed
qed simp

lemma forget_rows_gone:
  "forget_rows env e ds w = (w', None) \<Longrightarrow> d \<in> set ds \<Longrightarrow> d_EngineID d = e \<Longrightarrow> d \<notin> set (rw_rows w')"
proof (induction env e ds w arbitrary: w' rule: forget_rows.induct)
  case (2 env e x ds w)
  then show ?case
    by (auto split: if_splits option.splits dest!: forget_rows_facts)
qed simp

lemma removeTorrent_shrinks:
  assumes "removeTorrent env e w = (w', None)" "d \<in> set (rw_rows w)" "d_EngineID d = e"
  shows "length (rw_rows w') < length (rw_rows w)"
proof -
  from assms(1) obtain hash where
    f: "forget_rows env e (rw_rows w) (w\<lparr>rw_torrents := filter (\<lambda>t. fst t \<noteq> hash) (rw_torrents w)\<rparr>) = (w', None)"
    by (auto simp: removeTorrent_def forgetEngineRows_def split: option.splits)
  show ?thesis
  proof (rule ccontr)
    assume "\<not> ?thesis"
    then have len: "length (rw_rows w') = length (rw_rows w)"
      using forget_rows_facts[OF f] by simp
    have sub: "subseq (rw_rows w') (rw_rows w)" using forget_rows_subseq[OF f] by simp
    have "rw_rows w' = rw_rows w" using subseq_same_length[OF sub] len by simp
    then show False using forget_rows_gone[OF f assms(2,3)] assms(2) by simp
  qed
qed

section \<open>The survey's routes\<close>

lemma first_seen_set: "set (first_seen seen xs) = set xs - set seen"
  by (induction seen xs rule: first_seen.induct) auto

lemma first_seen_distinct: "distinct (first_seen seen xs)"
  by (induction seen xs rule: first_seen.induct) (auto simp: first_seen_set)

lemma map_filter_set: "y \<in> set (List.map_filter f xs) \<longleftrightarrow> (\<exists>x\<in>set xs. f x = Some y)"
  by (auto simp: List.map_filter_def) force

lemma route_of_Some:
  assumes "route_of env w h e = Some r"
  shows "rt_engineID r = e \<and> route env e = Some (rt_hash r)
    \<and> map_of (rw_torrents w) (rt_hash r) = Some (rt_status r)
    \<and> rt_rows r = filter (\<lambda>d. d_EngineID d = e) (rw_rows w)
    \<and> routeFacts h (rt_rows r) = (rt_favorite r, rt_watched r, rt_lastPlayed r)"
  using assms by (auto simp: route_of_def Let_def split: option.splits prod.splits)

definition household_of :: "retention_env \<Rightarrow> rworld \<Rightarrow> retention_household" where
  "household_of env w =
     retentionHousehold (en_catalog env) (en_favorites env) (en_playback env) (rw_rows w)"

lemma survey_routes_iff:
  "r \<in> set (survey_routes env w) \<longleftrightarrow>
     (\<exists>d\<in>set (rw_rows w). route env (d_EngineID d) \<noteq> None
        \<and> route_of env w (household_of env w) (d_EngineID d) = Some r)"
  by (auto simp: survey_routes_def map_filter_set routed_ids_def first_seen_set household_of_def)

lemma survey_routes_facts:
  assumes "r \<in> set (survey_routes env w)"
  shows "route env (rt_engineID r) = Some (rt_hash r)"
    "map_of (rw_torrents w) (rt_hash r) = Some (rt_status r)"
    "rt_rows r = filter (\<lambda>d. d_EngineID d = rt_engineID r) (rw_rows w)"
    "\<exists>d\<in>set (rw_rows w). d_EngineID d = rt_engineID r"
    "routeFacts (household_of env w) (rt_rows r) = (rt_favorite r, rt_watched r, rt_lastPlayed r)"
proof -
  from assms obtain d where "d \<in> set (rw_rows w)"
    and "route_of env w (household_of env w) (d_EngineID d) = Some r"
    unfolding survey_routes_iff by blast
  with route_of_Some[OF this(2)]
  show "route env (rt_engineID r) = Some (rt_hash r)"
    "map_of (rw_torrents w) (rt_hash r) = Some (rt_status r)"
    "rt_rows r = filter (\<lambda>d. d_EngineID d = rt_engineID r) (rw_rows w)"
    "\<exists>d\<in>set (rw_rows w). d_EngineID d = rt_engineID r"
    "routeFacts (household_of env w) (rt_rows r) = (rt_favorite r, rt_watched r, rt_lastPlayed r)"
    by auto
qed

lemma survey_plan:
  "retentionSurvey env w = Inr plan \<Longrightarrow> pl_routes plan = survey_routes env w
     \<and> pl_freeBytes plan = en_free env w"
  by (auto simp: retentionSurvey_def Let_def split: option.splits)

section \<open>The run\<close>

datatype retention_end = WithinLimits | Blocked string | Aborted job_error

lemma sort_by_not_Nil: "xs \<noteq> [] \<Longrightarrow> sort_by lt xs \<noteq> []"
  using sort_by_set[of lt xs] by (metis set_empty)

lemma evictNext_Some:
  assumes "evictNext env plan reason rules w = (w', Inr (Some v))"
  shows "v \<in> set (pl_routes plan) \<and> \<not> retentionProtected v (en_settings env)
    \<and> (\<forall>c\<in>set (pl_routes plan). retentionProtected c (en_settings env)
         \<or> route_key rules v \<le> route_key rules c)
    \<and> (\<exists>u. removeTorrent env (rt_engineID v) w = (u, None)
         \<and> w' = u\<lparr>rw_evicted := rw_evicted u @ [(reason, rt_engineID v)]\<rparr>)"
proof -
  let ?cs = "filter (\<lambda>r. \<not> retentionProtected r (en_settings env)) (pl_routes plan)"
  have ne: "?cs \<noteq> []" and v: "v = hd (applyEvictionRules ?cs rules)"
    and rm: "\<exists>u. removeTorrent env (rt_engineID v) w = (u, None)
         \<and> w' = u\<lparr>rw_evicted := rw_evicted u @ [(reason, rt_engineID v)]\<rparr>"
    using assms by (auto simp: evictNext_def Let_def split: if_splits prod.splits option.splits)
  have "applyEvictionRules ?cs rules \<noteq> []"
    using sort_by_not_Nil[OF ne] by (simp add: applyEvictionRules_def)
  then obtain vs where "applyEvictionRules ?cs rules = v # vs" using v by (metis list.collapse)
  from applyEvictionRules_hd[OF this] rm show ?thesis by auto
qed

lemma evictNext_shrinks:
  assumes "retentionSurvey env w = Inr plan" "evictNext env plan reason rules w = (w', Inr (Some v))"
  shows "length (rw_rows w') < length (rw_rows w)"
proof -
  from evictNext_Some[OF assms(2)] survey_plan[OF assms(1)] obtain u where
    v: "v \<in> set (survey_routes env w)" and u: "removeTorrent env (rt_engineID v) w = (u, None)"
    "rw_rows w' = rw_rows u" by auto
  from survey_routes_facts(4)[OF v] obtain d where "d \<in> set (rw_rows w)" "d_EngineID d = rt_engineID v"
    by blast
  from removeTorrent_shrinks[OF u(1) this] u(2) show ?thesis by simp
qed

text \<open>
  The eviction loop of \<open>runRetention\<close>. Every eviction deletes at least one row, so the
  number of rows bounds the number of passes; the result is the final state, why the loop
  stopped, the number of evictions and the bytes they freed.
\<close>

function retention_loop ::
  "retention_env \<Rightarrow> string list \<Rightarrow> rworld \<Rightarrow> nat \<Rightarrow> int64 \<Rightarrow> rworld \<times> retention_end \<times> nat \<times> int64" where
  "retention_loop env rules w evicted freed =
     (case retentionSurvey env w of
        Inl e \<Rightarrow> (w, Aborted e, evicted, freed)
      | Inr plan \<Rightarrow>
          (case retentionDeficit plan (en_settings env) of
             None \<Rightarrow> (w, WithinLimits, evicted, freed)
           | Some reason \<Rightarrow>
               (case evictNext env plan reason rules w of
                  (w', Inl e) \<Rightarrow> (w', Aborted e, evicted, freed)
                | (w', Inr None) \<Rightarrow> (w', Blocked reason, evicted, freed)
                | (w', Inr (Some v)) \<Rightarrow> retention_loop env rules w' (Suc evicted)
                    (i64 (freed + st_TotalBytes (rt_status v))))))"
  by pat_completeness auto
termination
  by (relation "measure (\<lambda>(env, rules, w, evicted, freed). length (rw_rows w))")
    (auto intro: evictNext_shrinks[OF _ sym])

declare retention_loop.simps [simp del]

text \<open>The printed size of the freed bytes, \<open>%.1f\<close> of a float, is a parameter.\<close>

definition middot :: string where "middot = [CHR 0xC2, CHR 0xB7]"

definition finishRetentionJob ::
  "(int64 \<Rightarrow> string) \<Rightarrow> gotime \<Rightarrow> job \<Rightarrow> nat \<Rightarrow> int64 \<Rightarrow> job list \<Rightarrow> job list" where
  "finishRetentionJob gib now j evicted freed tab =
     (let j1 = (if j_State j = ''running'' then
          j\<lparr>j_Label := j_Label j @ '' '' @ middot @
               (if evicted > 0 then '' '' @ show_nat evicted @ '' evicted '' @ middot @ '' '' @ gib freed @ '' GiB freed''
                else '' within limits''),
            j_State := ''completed'', j_Retryable := False, j_NextAttemptAt := None, j_Progress := 1\<rparr>
        else j) in
      SaveJob_ignored now (j1\<lparr>j_UpdatedAt := now\<rparr>) tab)"

definition runRetention ::
  "(int64 \<Rightarrow> string) \<Rightarrow> retention_env \<Rightarrow> gotime \<Rightarrow> job \<Rightarrow> rworld \<Rightarrow> job list \<Rightarrow> rworld \<times> job list" where
  "runRetention gib env now j w tab =
     (let rules = NormalizeEvictionRules (rs_EvictionRules (en_settings env));
          run = j\<lparr>j_State := ''running'', j_Progress := 1 / 20, j_UpdatedAt := now\<rparr>;
          tab1 = SaveJob_ignored now run tab;
          (w', why, evicted, freed) = retention_loop env rules w 0 0;
          tab2 = (SaveJob_ignored now run ^^ evicted) tab1;
          final = (case why of Aborted e \<Rightarrow> failOrWait now run e | _ \<Rightarrow> run) in
      (w', finishRetentionJob gib now final evicted freed tab2))"

text \<open>The scan for a job with the same dedupe key, shared in text with \<open>SyncCatalog\<close>:
  an active one is returned, otherwise the attempt number grows past the stored one.\<close>

fun dedupe_scan :: "job \<Rightarrow> job list \<Rightarrow> job + job" where
  "dedupe_scan j [] = Inr j"
| "dedupe_scan j (e # es) =
     (if j_DedupeKey e = j_DedupeKey j \<and> active_state (j_State e) then Inl e
      else if j_DedupeKey e = j_DedupeKey j \<and> j_Attempt e \<ge> j_Attempt j
        then dedupe_scan (j\<lparr>j_Attempt := j_Attempt e + 1\<rparr>) es
      else dedupe_scan j es)"

definition new_job :: "string \<Rightarrow> string \<Rightarrow> string \<Rightarrow> int \<Rightarrow> gotime \<Rightarrow> job" where
  "new_job key kind label attempt now =
     \<lparr>j_ID = key, j_Kind = kind, j_State = ''queued'', j_Label = label, j_DedupeKey = key,
      j_Progress = 0, j_Attempt = attempt, j_Error = [], j_Retryable = False,
      j_NextAttemptAt = None, j_CreatedAt = 0, j_UpdatedAt = now\<rparr>"

definition retentionKind :: string where "retentionKind = ''retention''"

text \<open>\<open>RunRetention\<close>; \<open>None\<close> stands for a database error.\<close>

definition RunRetention ::
  "(int64 \<Rightarrow> string) \<Rightarrow> retention_env \<Rightarrow> gotime \<Rightarrow> rworld \<Rightarrow> job list \<Rightarrow> job option \<times> rworld \<times> job list" where
  "RunRetention gib env now w tab =
     (case dedupe_scan (new_job retentionKind retentionKind
              ''Enforce storage allocation and reserve'' 1 now) (ListJobs 200 tab) of
        Inl existing \<Rightarrow> (Some existing, w, tab)
      | Inr j \<Rightarrow>
          (case SaveJob now j tab of
             None \<Rightarrow> (None, w, tab)
           | Some tab1 \<Rightarrow>
               (let (w', tab2) = runRetention gib env now j w tab1 in
                (GetJob (j_ID j) tab2, w', tab2))))"

section \<open>Properties\<close>

subsection \<open>The victim\<close>

text \<open>
  An eviction takes an unprotected torrent that no other unprotected torrent
  of the survey precedes under the configured rules, and it deletes exactly the rows of
  that torrent: every other row of the table stays.
\<close>

theorem evictNext_victim:
  assumes "retentionSurvey env w = Inr plan"
    and "evictNext env plan reason rules w = (w', Inr (Some v))"
    and "distinct (map d_ID (rw_rows w))"
  shows "v \<in> set (pl_routes plan) \<and> \<not> retentionProtected v (en_settings env)
    \<and> (\<forall>c\<in>set (pl_routes plan).
         \<not> retentionProtected c (en_settings env) \<longrightarrow> \<not> eviction_less rules c v)
    \<and> rw_rows w' = filter (\<lambda>d. d_EngineID d \<noteq> rt_engineID v) (rw_rows w)
    \<and> rw_evicted w' = rw_evicted w @ [(reason, rt_engineID v)]"
proof -
  from evictNext_Some[OF assms(2)] obtain u where
    u: "removeTorrent env (rt_engineID v) w = (u, None)"
      "w' = u\<lparr>rw_evicted := rw_evicted u @ [(reason, rt_engineID v)]\<rparr>" by blast
  from evictNext_Some[OF assms(2)] u removeTorrent_rows[OF u(1) assms(3)] removeTorrent_facts[OF u(1)]
  show ?thesis by (auto simp: eviction_less_key not_less)
qed

subsection \<open>The run stops with a reason\<close>

lemma evictNext_None:
  assumes "evictNext env plan reason rules w = (w', Inr None)"
  shows "w' = w \<and> (\<forall>r\<in>set (pl_routes plan). retentionProtected r (en_settings env))"
  using assms by (auto simp: evictNext_def Let_def filter_empty_conv split: if_splits prod.splits option.splits)

lemma evictNext_journal:
  assumes "evictNext env plan reason rules w = (w', Inr (Some v))"
  shows "rw_evicted w' = rw_evicted w @ [(reason, rt_engineID v)]"
  using evictNext_Some[OF assms] removeTorrent_facts by fastforce

text \<open>Induction over the passes of a run, one premise for each way a pass can go.\<close>

lemma retention_loop_passes:
  assumes "\<And>w n f e. retentionSurvey env w = Inl e \<Longrightarrow> P w n f (w, Aborted e, n, f)"
    and "\<And>w n f plan. retentionSurvey env w = Inr plan \<Longrightarrow>
      retentionDeficit plan (en_settings env) = None \<Longrightarrow> P w n f (w, WithinLimits, n, f)"
    and "\<And>w n f plan reason u e. retentionSurvey env w = Inr plan \<Longrightarrow>
      retentionDeficit plan (en_settings env) = Some reason \<Longrightarrow>
      evictNext env plan reason rules w = (u, Inl e) \<Longrightarrow> P w n f (u, Aborted e, n, f)"
    and "\<And>w n f plan reason u. retentionSurvey env w = Inr plan \<Longrightarrow>
      retentionDeficit plan (en_settings env) = Some reason \<Longrightarrow>
      evictNext env plan reason rules w = (u, Inr None) \<Longrightarrow> P w n f (u, Blocked reason, n, f)"
    and "\<And>w n f plan reason u v res. retentionSurvey env w = Inr plan \<Longrightarrow>
      retentionDeficit plan (en_settings env) = Some reason \<Longrightarrow>
      evictNext env plan reason rules w = (u, Inr (Some v)) \<Longrightarrow>
      P u (Suc n) (i64 (f + st_TotalBytes (rt_status v))) res \<Longrightarrow> P w n f res"
  shows "P w n f (retention_loop env rules w n f)"
  using assms
proof (induction env rules w n f rule: retention_loop.induct)
  case (1 env rules w n f)
  show ?case
  proof (cases "retentionSurvey env w")
    case (Inl e)
    then show ?thesis using "1.prems"(1) by (simp add: retention_loop.simps[of env rules w])
  next
    case (Inr plan)
    note survey = this
    show ?thesis
    proof (cases "retentionDeficit plan (en_settings env)")
      case None
      then show ?thesis using survey "1.prems"(2) by (simp add: retention_loop.simps[of env rules w])
    next
      case (Some reason)
      obtain u r where ev: "evictNext env plan reason rules w = (u, r)" by fastforce
      consider e where "r = Inl e" | "r = Inr None" | v where "r = Inr (Some v)"
        by (metis old.sum.exhaust option.exhaust)
      then show ?thesis
      proof cases
        case 1
        then show ?thesis using survey Some ev "1.prems"(3)
          by (simp add: retention_loop.simps[of env rules w])
      next
        case 2
        then show ?thesis using survey Some ev "1.prems"(4)
          by (simp add: retention_loop.simps[of env rules w])
      next
        case 3
        have "P u (Suc n) (i64 (f + st_TotalBytes (rt_status v)))
            (retention_loop env rules u (Suc n) (i64 (f + st_TotalBytes (rt_status v))))"
          by (rule "1.IH"[OF survey Some ev[symmetric] 3 refl "1.prems"]) assumption+
        then show ?thesis using survey Some ev 3 "1.prems"(5)
          by (simp add: retention_loop.simps[of env rules w])
      qed
    qed
  qed
qed

definition end_reason :: "retention_env \<Rightarrow> rworld \<Rightarrow> retention_end \<Rightarrow> bool" where
  "end_reason env w why \<longleftrightarrow> (case why of
      WithinLimits \<Rightarrow> \<exists>plan. retentionSurvey env w = Inr plan
        \<and> retentionDeficit plan (en_settings env) = None
    | Blocked reason \<Rightarrow> \<exists>plan. retentionSurvey env w = Inr plan
        \<and> retentionDeficit plan (en_settings env) = Some reason
        \<and> (\<forall>r\<in>set (pl_routes plan). retentionProtected r (en_settings env))
    | Aborted _ \<Rightarrow> True)"

lemma retention_loop_end:
  "case retention_loop env rules w n f of (w', why, _) \<Rightarrow> end_reason env w' why"
  by (rule retention_loop_passes[where P = "\<lambda>w n f (w', why, _). end_reason env w' why"])
    (auto simp: end_reason_def dest: evictNext_None)

lemma evictNext_error_facts:
  assumes "evictNext env plan reason rules w = (w', Inl e)"
  shows "rw_evicted w' = rw_evicted w \<and> length (rw_rows w') \<le> length (rw_rows w)"
  using assms removeTorrent_facts
  by (auto simp: evictNext_def Let_def split: if_splits prod.splits option.splits)

lemma retention_loop_count:
  "case retention_loop env rules w n f of (w', _, n', _) \<Rightarrow>
     \<exists>k. n' = n + k \<and> length (rw_evicted w') = length (rw_evicted w) + k
       \<and> length (rw_rows w') + k \<le> length (rw_rows w)"
proof (rule retention_loop_passes[where P = "\<lambda>w n f (w', _, n', _).
      \<exists>k. n' = n + k \<and> length (rw_evicted w') = length (rw_evicted w) + k
       \<and> length (rw_rows w') + k \<le> length (rw_rows w)"], goal_cases)
  case (3 w n f plan reason u e)
  then show ?case using evictNext_error_facts by auto
next
  case (4 w n f plan reason u)
  then show ?case using evictNext_None[OF 4(3)] by auto
next
  case (5 w n f plan reason u v res)
  obtain w' why n' f' where res: "res = (w', why, n', f')" by (cases res)
  with 5(4) obtain k where "n' = Suc n + k" "length (rw_evicted w') = length (rw_evicted u) + k"
    "length (rw_rows w') + k \<le> length (rw_rows u)" by auto
  then show ?case using evictNext_journal[OF 5(3)] evictNext_shrinks[OF 5(1,3)] res
    by (auto intro!: exI[of _ "Suc k"])
qed auto


subsection \<open>What is in use survives\<close>

text \<open>
  \<open>pinned env w e\<close>: the torrent of engine id \<open>e\<close> is known to the engine and is protected
  for a reason that an eviction of another torrent cannot take away: it is incomplete,
  one of its rows is leased, or one of its titles is a favorite.
\<close>

definition favorite_row :: "retention_env \<Rightarrow> download \<Rightarrow> bool" where
  "favorite_row env d \<longleftrightarrow> d_ReleaseID d \<noteq> [] \<and> title_of (en_catalog env) (d_ReleaseID d) \<noteq> []
     \<and> title_of (en_catalog env) (d_ReleaseID d) \<in> set (en_favorites env)"

definition pinned :: "retention_env \<Rightarrow> rworld \<Rightarrow> string \<Rightarrow> bool" where
  "pinned env w e \<longleftrightarrow> (\<exists>hash status.
     route env e = Some hash \<and> map_of (rw_torrents w) hash = Some status
     \<and> (let s = en_settings env; rows = filter (\<lambda>d. d_EngineID d = e) (rw_rows w) in
        (rs_ProtectIncomplete s \<and> (st_Progress status < 1 \<or> list_ex (\<lambda>d. d_Progress d < 1) rows))
        \<or> (rs_ProtectLeased s \<and> list_ex d_Leased rows)
        \<or> (rs_ProtectFavorites s \<and> list_ex (favorite_row env) rows)))"

lemma routeFacts_favorite:
  "fst (fold (row_facts h) rows acc) \<longleftrightarrow> fst acc \<or>
     (\<exists>d\<in>set rows. title_of (hh_titleByRelease h) (d_ReleaseID d) \<noteq> []
        \<and> title_of (hh_titleByRelease h) (d_ReleaseID d) \<in> set (hh_favoriteTitles h))"
proof (induction rows arbitrary: acc)
  case (Cons d rows)
  have "fst (row_facts h d acc) \<longleftrightarrow> fst acc \<or> (title_of (hh_titleByRelease h) (d_ReleaseID d) \<noteq> []
      \<and> title_of (hh_titleByRelease h) (d_ReleaseID d) \<in> set (hh_favoriteTitles h))"
    by (auto simp: row_facts_def Let_def split: prod.splits option.splits)
  then show ?case using Cons.IH by auto
qed simp

lemma favorite_row_household:
  assumes "d \<in> set (rw_rows w)"
  shows "favorite_row env d \<longleftrightarrow>
    title_of (hh_titleByRelease (household_of env w)) (d_ReleaseID d) \<noteq> []
    \<and> title_of (hh_titleByRelease (household_of env w)) (d_ReleaseID d)
        \<in> set (hh_favoriteTitles (household_of env w))"
  using assms
  by (auto simp: favorite_row_def household_of_def retentionHousehold_def Let_def title_of_def)

lemma pinned_protected:
  assumes "pinned env w (rt_engineID r)" "r \<in> set (survey_routes env w)"
  shows "retentionProtected r (en_settings env)"
proof -
  note f = survey_routes_facts[OF assms(2)]
  have fav: "rt_favorite r \<longleftrightarrow> list_ex (favorite_row env) (rt_rows r)"
    using f(5) routeFacts_favorite[of "household_of env w" "rt_rows r" "(False, False, 0)"]
      favorite_row_household[of _ w env] f(3)
    by (auto simp: routeFacts_def list_ex_iff)
  show ?thesis
    using assms(1) f(1-3) fav
    by (auto simp: pinned_def Let_def retentionProtected_def routeIncomplete_def routeLeased_def)
qed

lemma route_inj: "route env a = Some h \<Longrightarrow> route env b = Some h \<Longrightarrow> a = b"
  by (simp add: route_def cut_prefix_Some)

lemma forget_rows_other:
  "forget_rows env e ds w = (w', r) \<Longrightarrow> distinct (map d_ID (rw_rows w)) \<Longrightarrow>
     set ds \<subseteq> set all \<Longrightarrow> set (rw_rows w) \<subseteq> set all \<Longrightarrow> distinct (map d_ID all) \<Longrightarrow> e' \<noteq> e \<Longrightarrow>
     filter (\<lambda>d. d_EngineID d = e') (rw_rows w') = filter (\<lambda>d. d_EngineID d = e') (rw_rows w)"
proof (induction env e ds w arbitrary: w' r rule: forget_rows.induct)
  case (2 env e d ds w)
  show ?case
  proof (cases "d_EngineID d \<noteq> e \<or> en_deleteError env w (d_ID d) \<noteq> None")
    case True
    then show ?thesis using 2 by (auto split: if_splits)
  next
    case False
    let ?w = "w\<lparr>rw_rows := filter (\<lambda>r. d_ID r \<noteq> d_ID d) (rw_rows w)\<rparr>"
    have del: "en_deleteError env w (d_ID d) = None" and rest: "forget_rows env e ds ?w = (w', r)"
      using False "2.prems"(1) by auto
    have "filter (\<lambda>d. d_EngineID d = e') (rw_rows w') = filter (\<lambda>d. d_EngineID d = e') (rw_rows ?w)"
      by (rule "2.IH"(2)[OF _ del rest]) (use False 2 in \<open>auto simp: distinct_map_filter\<close>)
    moreover have "d_ID x \<noteq> d_ID d" if "x \<in> set (rw_rows w)" "d_EngineID x = e'" for x
      using that False "2.prems"(3-6) by (auto simp: distinct_map inj_on_def)
    ultimately show ?thesis by (auto intro: filter_cong)
  qed
qed simp

lemma removeTorrent_other:
  assumes "removeTorrent env e w = (w', r)" "distinct (map d_ID (rw_rows w))" "e' \<noteq> e"
  shows "filter (\<lambda>d. d_EngineID d = e') (rw_rows w') = filter (\<lambda>d. d_EngineID d = e') (rw_rows w)"
proof -
  have "filter (\<lambda>d. d_EngineID d = e') (rw_rows w') = filter (\<lambda>d. d_EngineID d = e') (rw_rows w)"
    if "forget_rows env e (rw_rows w) (w\<lparr>rw_torrents := T\<rparr>) = (w', r)" for T
    using forget_rows_other[OF that, of "rw_rows w" e'] assms(2,3) by simp
  then show ?thesis using assms(1)
    by (auto simp: removeTorrent_def forgetEngineRows_def split: option.splits)
qed

lemma removeTorrent_status:
  assumes "removeTorrent env e w = (w', r)" "e' \<noteq> e" "route env e' = Some hash"
  shows "map_of (rw_torrents w') hash = map_of (rw_torrents w) hash"
proof -
  have "map_of (filter (\<lambda>t. fst t \<noteq> k) xs) hash = map_of xs hash" if "k \<noteq> hash" for k and xs :: "(string \<times> download_status) list"
    using that by (induction xs) auto
  moreover have "k \<noteq> hash" if "route env e = Some k" for k
    using that assms(2,3) route_inj by blast
  ultimately show ?thesis using removeTorrent_facts[OF assms(1)] by auto
qed

lemma removeTorrent_distinct:
  assumes "removeTorrent env e w = (w', r)" "distinct (map d_ID (rw_rows w))"
  shows "distinct (map d_ID (rw_rows w'))"
proof -
  have "subseq (rw_rows w') (rw_rows w)"
    using assms(1) forget_rows_subseq
    by (fastforce simp: removeTorrent_def forgetEngineRows_def split: option.splits)
  then have "subseq (map d_ID (rw_rows w')) (map d_ID (rw_rows w))" by (rule subseq_map)
  then show ?thesis using assms(2) by (auto simp: subseq_conv_nths)
qed

lemma removeTorrent_pinned:
  assumes "removeTorrent env e w = (w', r)" "distinct (map d_ID (rw_rows w))" "pinned env w e'" "e' \<noteq> e"
  shows "pinned env w' e'"
proof -
  from assms(3) obtain hash status where h: "route env e' = Some hash"
    "map_of (rw_torrents w) hash = Some status" by (auto simp: pinned_def)
  show ?thesis using assms(3) removeTorrent_other[OF assms(1,2,4)] removeTorrent_status[OF assms(1,4) h(1)] h
    by (auto simp: pinned_def)
qed

text \<open>One pass never touches a pinned torrent, whatever error it ends with.\<close>

lemma evictNext_pinned:
  assumes "retentionSurvey env w = Inr plan" "evictNext env plan reason rules w = (u, r)"
    "distinct (map d_ID (rw_rows w))" "pinned env w e"
  shows "pinned env u e \<and> distinct (map d_ID (rw_rows u))
    \<and> filter (\<lambda>d. d_EngineID d = e) (rw_rows u) = filter (\<lambda>d. d_EngineID d = e) (rw_rows w)"
proof -
  let ?cs = "filter (\<lambda>r. \<not> retentionProtected r (en_settings env)) (pl_routes plan)"
  show ?thesis
  proof (cases "?cs = []")
    case True
    then show ?thesis using assms(2-4) by (simp add: evictNext_def)
  next
    case False
    let ?v = "hd (applyEvictionRules ?cs rules)"
    have "applyEvictionRules ?cs rules \<noteq> []"
      using sort_by_not_Nil[OF False] by (simp add: applyEvictionRules_def)
    then have "?v \<in> set ?cs"
      using applyEvictionRules_hd by (metis list.collapse)
    then have v: "?v \<in> set (survey_routes env w)" "\<not> retentionProtected ?v (en_settings env)"
      using survey_plan[OF assms(1)] by auto
    then have ne: "e \<noteq> rt_engineID ?v" using pinned_protected assms(4) by blast
    obtain x e' where rm: "removeTorrent env (rt_engineID ?v) w = (x, e')" by fastforce
    have "rw_rows u = rw_rows x \<and> rw_torrents u = rw_torrents x"
      using assms(2) False rm by (auto simp: evictNext_def Let_def split: option.splits)
    moreover have "pinned env x e" by (rule removeTorrent_pinned[OF rm assms(3,4) ne])
    moreover have "filter (\<lambda>d. d_EngineID d = e) (rw_rows x) = filter (\<lambda>d. d_EngineID d = e) (rw_rows w)"
      by (rule removeTorrent_other[OF rm assms(3) ne])
    moreover have "distinct (map d_ID (rw_rows x))" by (rule removeTorrent_distinct[OF rm assms(3)])
    ultimately show ?thesis by (simp add: pinned_def)
  qed
qed


section \<open>A concrete world\<close>

text \<open>Two torrents of 80 and 90 MiB under a cap of 0.1 GiB; the first is being streamed.\<close>

definition sample_row :: "string \<Rightarrow> string \<Rightarrow> string \<Rightarrow> bool \<Rightarrow> gotime \<Rightarrow> download" where
  "sample_row rid rel eng leased updated =
     \<lparr>d_ID = rid, d_ReleaseID = rel, d_EngineID = eng, d_FilePath = ''a.mkv'', d_AbsolutePath = ''/d/a.mkv'',
      d_State = StateSeeding, d_FileIndex = 0, d_SizeBytes = 1, d_FileOffset = 0, d_PieceSize = 0,
      d_BufferedBytes = 1, d_DownloadedBytes = 1, d_SpeedBytesPerSecond = 0, d_ETASeconds = 0, d_Peers = 0,
      d_Seeds = 0, d_UploadSpeedBytesPerSecond = 0, d_Progress = 1, d_Leased = leased, d_CreatedAt = 1,
      d_UpdatedAt = updated, d_Error = []\<rparr>"

definition sample_status :: "string \<Rightarrow> int64 \<Rightarrow> download_status" where
  "sample_status hash n =
     \<lparr>st_Hash = hash, st_State = StateSeeding, st_Progress = 1, st_DownloadedBytes = n,
      st_TotalBytes = n, st_SpeedBytesPerSecond = 0, st_ETASeconds = 0, st_Peers = 0, st_Seeds = 0,
      st_UploadSpeedBytesPerSecond = 0, st_PieceSize = 0, st_Sequential = True, st_FirstLastPriority = True,
      st_SavePath = [], st_ContentPath = [], st_TempPath = [], st_TempPathEnabled = False,
      st_Trackers = [], st_TrackerError = []\<rparr>"

definition sample_settings :: retention_settings where
  "sample_settings = \<lparr>rs_AllocationGB = 1 / 10, rs_ReserveGB = 0, rs_ProtectIncomplete = True,
     rs_ProtectLeased = True, rs_ProtectFavorites = True, rs_ProtectNeverWatched = False,
     rs_EvictionRules = []\<rparr>"

definition sample_env :: "retention_settings \<Rightarrow> playback_state list \<Rightarrow> retention_env" where
  "sample_env s playback =
     \<lparr>en_prefix = ''n:'', en_settings = s, en_catalog = [''r1'' \<mapsto> ''t'', ''r2'' \<mapsto> ''t''],
      en_favorites = [], en_playback = playback, en_free = (\<lambda>_. None), en_surveyError = (\<lambda>_. None),
      en_removeError = (\<lambda>_ _. None), en_listError = (\<lambda>_. None), en_deleteError = (\<lambda>_ _. None)\<rparr>"

definition sample_world :: "bool \<Rightarrow> bool \<Rightarrow> rworld" where
  "sample_world l1 l2 =
     \<lparr>rw_rows = [sample_row ''1'' ''r1'' ''n:a'' l1 50, sample_row ''2'' ''r2'' ''n:b'' l2 60],
      rw_torrents = [(''a'', sample_status ''a'' 83886080), (''b'', sample_status ''b'' 94371840)],
      rw_evicted = []\<rparr>"

lemma sample_cap: "gigabytesToBytes (1 / 10) = 107374182"
  by code_simp

theorem evictNext_victim_witness:
  "\<exists>w' v. evictNext (sample_env sample_settings []) \<lparr>pl_routes = survey_routes (sample_env sample_settings [])
      (sample_world True False), pl_storedBytes = 178257920, pl_freeBytes = None\<rparr> ''cap'' [''largest'']
      (sample_world True False) = (w', Inr (Some v))
    \<and> rt_engineID v = ''n:b'' \<and> map d_ID (rw_rows w') = [''1'']"
proof -
  let ?E = "sample_env sample_settings []" and ?W = "sample_world True False"
  let ?P = "\<lparr>pl_routes = survey_routes ?E ?W, pl_storedBytes = 178257920, pl_freeBytes = None\<rparr> :: retention_plan"
  have s: "retentionSurvey ?E ?W = Inr ?P" by code_simp
  have e: "map_prod (map d_ID \<circ> rw_rows) (map_sum id (map_option rt_engineID))
      (evictNext ?E ?P ''cap'' [''largest''] ?W) = ([''1''], Inr (Some ''n:b''))"
    by code_simp
  obtain w' r where ev: "evictNext ?E ?P ''cap'' [''largest''] ?W = (w', r)" by fastforce
  with e obtain v where v: "r = Inr (Some v)" "rt_engineID v = ''n:b''"
    by (cases r) auto
  have "distinct (map d_ID (rw_rows ?W))" by code_simp
  from evictNext_victim[OF s ev[unfolded v(1)] this] have "rw_rows w' = filter (\<lambda>d. d_EngineID d \<noteq> ''n:b'') (rw_rows ?W)"
    using v(2) by simp
  moreover have "map d_ID (filter (\<lambda>d. d_EngineID d \<noteq> ''n:b'') (rw_rows ?W)) = [''1'']" by code_simp
  ultimately show ?thesis using ev v by metis
qed


section \<open>The label of a run\<close>

definition within_limits_label :: "job \<Rightarrow> string" where
  "within_limits_label j = j_Label j @ '' '' @ middot @ '' within limits''"

text \<open>
  The label \<open>within limits\<close> is also what a run reports that evicted nothing
  because every torrent is protected: the job ends \<open>completed\<close> with that label although the
  survey of the state it leaves still trips the check it was blocked on.
\<close>

theorem blocked_run_label:
  assumes "wf_jobs tab" and "own_key j"
    and "retention_loop env (NormalizeEvictionRules (rs_EvictionRules (en_settings env))) w 0 0
           = (w', Blocked reason, 0, freed)"
    and "runRetention gib env now j w tab = (w2, tab2)"
  shows "\<exists>r plan. GetJob (j_ID j) tab2 = Some r \<and> j_State r = ''completed''
    \<and> j_Label r = within_limits_label j
    \<and> retentionSurvey env w2 = Inr plan \<and> retentionDeficit plan (en_settings env) = Some reason"
proof -
  let ?run = "j\<lparr>j_State := ''running'', j_Progress := 1 / 20, j_UpdatedAt := now\<rparr>"
  let ?done = "?run\<lparr>j_Label := within_limits_label j, j_State := ''completed'', j_Retryable := False,
      j_NextAttemptAt := None, j_Progress := 1\<rparr>"
  let ?tab1 = "SaveJob_ignored now ?run tab"
  have w2: "w2 = w'" and tab2: "tab2 = SaveJob_ignored now (?done\<lparr>j_UpdatedAt := now\<rparr>) ?tab1"
    using assms(3,4) by (simp_all add: runRetention_def finishRetentionJob_def within_limits_label_def Let_def)
  have own: "own_key ?run" "own_key (?done\<lparr>j_UpdatedAt := now\<rparr>)"
    using assms(2) by (simp_all add: own_key_def)
  have "wf_jobs ?tab1" by (rule sqlite.save_inv[OF assms(1) own(1)])
  from sqlite.save_last[OF this own(2)] obtain r where "GetJob (j_ID j) tab2 = Some r"
    "j_State r = ''completed''" "j_Label r = within_limits_label j" unfolding tab2 by auto
  moreover have "end_reason env w' (Blocked reason)"
    using retention_loop_end[where env = env and w = w and n = 0 and f = 0
        and rules = "NormalizeEvictionRules (rs_EvictionRules (en_settings env))"] assms(3) by simp
  ultimately show ?thesis using w2 by (auto simp: end_reason_def)
qed

theorem blocked_run_label_witness:
  "\<exists>w2 tab2 r. runRetention (\<lambda>_. []) (sample_env sample_settings [])  7
       (new_job retentionKind retentionKind ''Enforce'' 1 7) (sample_world True True) [] = (w2, tab2)
     \<and> GetJob retentionKind tab2 = Some r
     \<and> j_Label r = ''Enforce '' @ middot @ '' within limits''"
proof -
  let ?E = "sample_env sample_settings []" and ?W = "sample_world True True"
  let ?j = "new_job retentionKind retentionKind ''Enforce'' 1 7"
  let ?P = "\<lparr>pl_routes = survey_routes ?E ?W, pl_storedBytes = 178257920, pl_freeBytes = None\<rparr> :: retention_plan"
  have survey: "retentionSurvey ?E ?W = Inr ?P" by code_simp
  have deficit: "retentionDeficit ?P (en_settings ?E) = Some ''cap''" by code_simp
  have evict: "evictNext ?E ?P ''cap'' [''oldest-completed''] ?W = (?W, Inr None)" by code_simp
  have rules: "NormalizeEvictionRules (rs_EvictionRules (en_settings ?E)) = [''oldest-completed'']"
    by code_simp
  have run: "retention_loop ?E (NormalizeEvictionRules (rs_EvictionRules (en_settings ?E))) ?W 0 0
      = (?W, Blocked ''cap'', 0, 0)"
    unfolding rules by (subst retention_loop.simps) (simp add: survey deficit evict)
  obtain w2 tab2 where r: "runRetention (\<lambda>_. []) ?E 7 ?j ?W [] = (w2, tab2)" by fastforce
  have "wf_jobs []" "own_key ?j" by (simp_all add: wf_jobs_def own_key_def new_job_def)
  from blocked_run_label[OF this run r] r show ?thesis
    by (auto simp: within_limits_label_def new_job_def)
qed

section \<open>Watched titles\<close>

text \<open>
  Playback counts only through releases that are still managed: a playback row
  whose release no managed row carries changes neither the favorite nor the watched nor
  the last-played fact of any route, whatever title it belongs to.
\<close>

theorem unmanaged_playback_ignored:
  assumes "\<forall>d\<in>set managed. d_ReleaseID d \<noteq> pb_ReleaseID p"
  shows "routeFacts (retentionHousehold catalog favorites (before @ p # after) managed) rows
    = routeFacts (retentionHousehold catalog favorites (before @ after) managed) rows"
proof -
  let ?t = "\<lambda>r. if r \<in> set (filter (\<lambda>r. r \<noteq> []) (map d_ReleaseID managed)) then catalog r else None"
  have "title_of ?t (pb_ReleaseID p) = []" using assms by (auto simp: title_of_def)
  then have "add_playback ?t p latest = latest" for latest
    by (simp add: add_playback_def Let_def)
  then have "retentionHousehold catalog favorites (before @ p # after) managed
      = retentionHousehold catalog favorites (before @ after) managed"
    by (simp add: retentionHousehold_def Let_def)
  then show ?thesis by simp
qed

definition sample_playback :: "string \<Rightarrow> bool \<Rightarrow> gotime \<Rightarrow> playback_state" where
  "sample_playback rel watched t =
     \<lparr>pb_ProfileID = ''household'', pb_SourceID = ''s'', pb_ReleaseID = rel, pb_FileIndex = 0,
      pb_FilePath = [], pb_PositionMS = 0, pb_DurationMS = 0, pb_Watched = watched, pb_UpdatedAt = t\<rparr>"

theorem unmanaged_playback_ignored_witness:
  "let catalog = [''r1'' \<mapsto> ''t'', ''r2'' \<mapsto> ''t''];
       rows = [sample_row ''2'' ''r2'' ''n:b'' False 60] in
     catalog ''r1'' = catalog ''r2''
     \<and> routeFacts (retentionHousehold catalog [] [sample_playback ''r1'' True 90] rows) rows
         = (False, False, 0)"
proof -
  let ?rows = "[sample_row ''2'' ''r2'' ''n:b'' False 60]"
  have "routeFacts (retentionHousehold [''r1'' \<mapsto> ''t'', ''r2'' \<mapsto> ''t''] [] [] ?rows) ?rows = (False, False, 0)"
    by code_simp
  then show ?thesis
    using unmanaged_playback_ignored[of ?rows "sample_playback ''r1'' True 90" _ "[]" "[]" "[]"]
    by (simp add: sample_row_def sample_playback_def Let_def)
qed

end
