(* ===== verification/Admission.thy ===== *)
theory Admission
  imports Retention
begin

text \<open>
  The admission of a new torrent, \<open>ensureAllocationRoom\<close> and \<open>incomingTorrentBytes\<close> of
  \<open>internal/application/service.go\<close>: the same survey, deficit check and eviction as the
  hourly run, with the size of the incoming torrent added to the stored bytes.
\<close>

section \<open>The admission gate\<close>

record allocation_error =
  ae_Release :: string
  ae_RequiredBytes :: int64
  ae_FreeBytes :: int64
  ae_CapacityBytes :: int64

datatype admission = Admitted | Refused allocation_error | AdmissionError job_error

text \<open>\<open>incomingTorrentBytes\<close> over the result of \<open>torrentManifest\<close> (\<open>None\<close> for an error).\<close>

definition incomingTorrentBytes :: "torrent_file list option \<Rightarrow> torrent_release \<Rightarrow> int64" where
  "incomingTorrentBytes files release =
     (case files of
        None \<Rightarrow> rel_SizeBytes release
      | Some fs \<Rightarrow> let total = fold (\<lambda>f n. i64 (n + tf_SizeBytes f)) fs 0 in
          if total > 0 then total else rel_SizeBytes release)"

definition with_incoming :: "int64 \<Rightarrow> retention_plan \<Rightarrow> retention_plan" where
  "with_incoming n plan = plan\<lparr>pl_storedBytes := i64 (pl_storedBytes plan + n)\<rparr>"

lemma evictNext_incoming [simp]:
  "evictNext env (with_incoming n plan) reason rules w = evictNext env plan reason rules w"
  by (simp add: evictNext_def with_incoming_def)

function admission_loop ::
  "retention_env \<Rightarrow> string list \<Rightarrow> string \<Rightarrow> int64 \<Rightarrow> rworld \<Rightarrow> rworld \<times> admission" where
  "admission_loop env rules name incoming w =
     (case retentionSurvey env w of
        Inl e \<Rightarrow> (w, AdmissionError e)
      | Inr surveyed \<Rightarrow>
          (let plan = with_incoming incoming surveyed;
               cap = gigabytesToBytes (rs_AllocationGB (en_settings env)) in
           case retentionDeficit plan (en_settings env) of
             None \<Rightarrow> (w, Admitted)
           | Some reason \<Rightarrow>
               (case evictNext env plan reason rules w of
                  (w', Inl e) \<Rightarrow> (w', AdmissionError e)
                | (w', Inr None) \<Rightarrow>
                    (if reason = ''cap'' then
                       (w', Refused \<lparr>ae_Release = name, ae_RequiredBytes = incoming,
                          ae_FreeBytes = i64 (cap - i64 (pl_storedBytes plan - incoming)),
                          ae_CapacityBytes = cap\<rparr>)
                     else (w', Admitted))
                | (w', Inr (Some v)) \<Rightarrow> admission_loop env rules name incoming w')))"
  by pat_completeness auto
termination
  by (relation "measure (\<lambda>(env, rules, name, incoming, w). length (rw_rows w))")
    (auto intro: evictNext_shrinks[OF _ sym])

declare admission_loop.simps [simp del]

definition ensureAllocationRoom ::
  "retention_env \<Rightarrow> torrent_file list option \<Rightarrow> torrent_release \<Rightarrow> rworld \<Rightarrow> rworld \<times> admission" where
  "ensureAllocationRoom env files release w =
     (if rs_AllocationGB (en_settings env) \<le> 0 then (w, Admitted)
      else admission_loop env (NormalizeEvictionRules (rs_EvictionRules (en_settings env)))
             (rel_Name release) (incomingTorrentBytes files release) w)"

subsection \<open>How an admission ends\<close>

lemma admission_loop_passes:
  assumes "\<And>w e. retentionSurvey env w = Inl e \<Longrightarrow> P w (w, AdmissionError e)"
    and "\<And>w plan. retentionSurvey env w = Inr plan \<Longrightarrow>
      retentionDeficit (with_incoming n plan) (en_settings env) = None \<Longrightarrow> P w (w, Admitted)"
    and "\<And>w plan reason u e. retentionSurvey env w = Inr plan \<Longrightarrow>
      evictNext env plan reason rules w = (u, Inl e) \<Longrightarrow> P w (u, AdmissionError e)"
    and "\<And>w plan. retentionSurvey env w = Inr plan \<Longrightarrow>
      retentionDeficit (with_incoming n plan) (en_settings env) = Some ''cap'' \<Longrightarrow>
      \<forall>r\<in>set (pl_routes plan). retentionProtected r (en_settings env) \<Longrightarrow>
      P w (w, Refused \<lparr>ae_Release = name, ae_RequiredBytes = n,
         ae_FreeBytes = i64 (gigabytesToBytes (rs_AllocationGB (en_settings env))
           - i64 (pl_storedBytes (with_incoming n plan) - n)),
         ae_CapacityBytes = gigabytesToBytes (rs_AllocationGB (en_settings env))\<rparr>)"
    and "\<And>w plan reason. retentionSurvey env w = Inr plan \<Longrightarrow> reason \<noteq> ''cap'' \<Longrightarrow>
      retentionDeficit (with_incoming n plan) (en_settings env) = Some reason \<Longrightarrow> P w (w, Admitted)"
    and "\<And>w plan reason u v res. retentionSurvey env w = Inr plan \<Longrightarrow>
      retentionDeficit (with_incoming n plan) (en_settings env) = Some reason \<Longrightarrow>
      evictNext env plan reason rules w = (u, Inr (Some v)) \<Longrightarrow> P u res \<Longrightarrow> P w res"
  shows "P w (admission_loop env rules name n w)"
  using assms
proof (induction env rules name n w rule: admission_loop.induct)
  case (1 env rules name n w)
  note unfold = admission_loop.simps[of env rules name n w]
  show ?case
  proof (cases "retentionSurvey env w")
    case (Inl e)
    then show ?thesis using "1.prems"(1) by (simp add: unfold)
  next
    case (Inr plan)
    note survey = this
    show ?thesis
    proof (cases "retentionDeficit (with_incoming n plan) (en_settings env)")
      case None
      then show ?thesis using survey "1.prems"(2) by (simp add: unfold Let_def)
    next
      case (Some reason)
      obtain u r where ev: "evictNext env plan reason rules w = (u, r)" by fastforce
      consider e where "r = Inl e" | "r = Inr None" | v where "r = Inr (Some v)"
        by (metis old.sum.exhaust option.exhaust)
      then show ?thesis
      proof cases
        case 1
        then show ?thesis using survey Some ev "1.prems"(3) by (simp add: unfold Let_def)
      next
        case 2
        from evictNext_None[OF ev[unfolded 2]]
        have u: "u = w" and prot: "\<forall>r\<in>set (pl_routes plan). retentionProtected r (en_settings env)"
          by simp_all
        show ?thesis
        proof (cases "reason = ''cap''")
          case True
          have "admission_loop env rules name n w = (w, Refused \<lparr>ae_Release = name, ae_RequiredBytes = n,
              ae_FreeBytes = i64 (gigabytesToBytes (rs_AllocationGB (en_settings env))
                - i64 (pl_storedBytes (with_incoming n plan) - n)),
              ae_CapacityBytes = gigabytesToBytes (rs_AllocationGB (en_settings env))\<rparr>)"
            using ev[unfolded 2] u True by (subst unfold) (simp add: survey Some Let_def)
          then show ?thesis using "1.prems"(4)[OF survey Some[unfolded True] prot] by simp
        next
          case False
          then have "admission_loop env rules name n w = (w, Admitted)"
            using ev[unfolded 2] u False by (subst unfold) (simp add: survey Some Let_def)
          then show ?thesis using "1.prems"(5)[OF survey False Some] by simp
        qed
      next
        case 3
        have ev': "(u, r) = evictNext env (with_incoming n plan) reason rules w" using ev by simp
        have "P u (admission_loop env rules name n u)"
          by (rule "1.IH"[OF survey refl refl Some ev' 3 refl "1.prems"]) assumption+
        then show ?thesis using survey Some ev 3 "1.prems"(6) by (simp add: unfold Let_def)
      qed
    qed
  qed
qed

text \<open>
  Property C6. Admission decides exactly by the cap: an admitted torrent fits under the
  Allocation together with what the final survey counts as stored (or the Allocation is
  off), and a refused one does not fit although every torrent left is protected; the
  refusal names its size, the room that is left and the capacity.
\<close>

theorem ensureAllocationRoom_decision:
  assumes "ensureAllocationRoom env files release w = (w', r)"
    and "rs_AllocationGB (en_settings env) > 0"
  shows "case r of
      AdmissionError _ \<Rightarrow> True
    | Admitted \<Rightarrow> (\<exists>plan. retentionSurvey env w' = Inr plan
        \<and> i64 (i64 (pl_storedBytes plan + incomingTorrentBytes files release)
               - gigabytesToBytes (rs_AllocationGB (en_settings env))) \<le> 0)
    | Refused ae \<Rightarrow> (\<exists>plan. retentionSurvey env w' = Inr plan
        \<and> (\<forall>rt\<in>set (pl_routes plan). retentionProtected rt (en_settings env))
        \<and> i64 (i64 (pl_storedBytes plan + incomingTorrentBytes files release)
               - gigabytesToBytes (rs_AllocationGB (en_settings env))) > 0
        \<and> ae = \<lparr>ae_Release = rel_Name release,
                ae_RequiredBytes = incomingTorrentBytes files release,
                ae_FreeBytes = i64 (gigabytesToBytes (rs_AllocationGB (en_settings env)) - pl_storedBytes plan),
                ae_CapacityBytes = gigabytesToBytes (rs_AllocationGB (en_settings env))\<rparr>)"
proof -
  let ?n = "incomingTorrentBytes files release" and ?s = "en_settings env"
  let ?cap = "gigabytesToBytes (rs_AllocationGB ?s)"
  let ?over = "\<lambda>plan. i64 (i64 (pl_storedBytes plan + ?n) - ?cap) > 0"
  have over: "retentionDeficit (with_incoming ?n plan) ?s = Some ''cap'' \<longleftrightarrow> ?over plan" for plan
    using assms(2) by (auto simp: retentionDeficit_def with_incoming_def split: option.splits)
  have free: "i64 (?cap - i64 (i64 (x + ?n) - ?n)) = i64 (?cap - x)" for x
    using i64_add[of "x + ?n" "- ?n"] i64_diff by simp
  let ?Q = "\<lambda>(w' :: rworld, r). case r of AdmissionError _ \<Rightarrow> True
    | Admitted \<Rightarrow> (\<exists>plan. retentionSurvey env w' = Inr plan \<and> \<not> ?over plan)
    | Refused ae \<Rightarrow> (\<exists>plan. retentionSurvey env w' = Inr plan
        \<and> (\<forall>rt\<in>set (pl_routes plan). retentionProtected rt ?s) \<and> ?over plan
        \<and> ae = \<lparr>ae_Release = rel_Name release, ae_RequiredBytes = ?n,
                ae_FreeBytes = i64 (?cap - pl_storedBytes plan), ae_CapacityBytes = ?cap\<rparr>)"
  have "?Q (admission_loop env (NormalizeEvictionRules (rs_EvictionRules ?s)) (rel_Name release) ?n w)"
  proof (rule admission_loop_passes[where P = "\<lambda>_. ?Q"], goal_cases)
    case (2 w plan)
    then show ?case using over[of plan] by auto
  next
    case (4 w plan)
    then show ?case using over free by (auto simp: with_incoming_def)
  next
    case (5 w plan reason)
    then show ?case using over[of plan] by auto
  qed auto
  then show ?thesis using assms by (auto simp: ensureAllocationRoom_def not_less split: admission.splits)
qed

definition sample_release :: "int64 \<Rightarrow> torrent_release" where
  "sample_release n = \<lparr>rel_ID = ''9'', rel_Name = ''New'', rel_Category = [], rel_SizeBytes = n,
     rel_IMDbID = [], rel_Seeders = 1, rel_Leechers = 0, rel_TimesCompleted = 0, rel_Freeleech = False,
     rel_DoubleUp = False, rel_Internal = False, rel_Moderated = False, rel_SmallDescription = [],
     rel_UploadedAt = None, rel_FileCount = 1, rel_Comments = 0\<rparr>"

theorem ensureAllocationRoom_decision_witness:
  "\<exists>w' ae. ensureAllocationRoom (sample_env sample_settings []) None (sample_release 200000000)
      (sample_world True True) = (w', Refused ae)
    \<and> ae_RequiredBytes ae = 200000000 \<and> ae_CapacityBytes ae = 107374182"
proof -
  let ?E = "sample_env sample_settings []" and ?W = "sample_world True True"
  let ?P = "\<lparr>pl_routes = survey_routes ?E ?W, pl_storedBytes = 178257920, pl_freeBytes = None\<rparr> :: retention_plan"
  have survey: "retentionSurvey ?E ?W = Inr ?P" by code_simp
  have deficit: "retentionDeficit (with_incoming 200000000 ?P) (en_settings ?E) = Some ''cap''" by code_simp
  have evict: "evictNext ?E ?P ''cap'' rules ?W = (?W, Inr None)" for rules
  proof -
    have "filter (\<lambda>r. \<not> retentionProtected r (en_settings ?E)) (pl_routes ?P) = []" by code_simp
    then show ?thesis by (simp add: evictNext_def)
  qed
  have n: "incomingTorrentBytes None (sample_release 200000000) = 200000000" by code_simp
  have cap: "gigabytesToBytes (rs_AllocationGB (en_settings ?E)) = 107374182" by code_simp
  have on: "rs_AllocationGB (en_settings ?E) > 0" by code_simp
  obtain w' r where r: "ensureAllocationRoom ?E None (sample_release 200000000) ?W = (w', r)" by fastforce
  have "\<exists>ae. r = Refused ae"
    using r on unfolding ensureAllocationRoom_def n
    by (subst (asm) admission_loop.simps) (auto simp: survey deficit evict Let_def)
  with ensureAllocationRoom_decision[OF r on] r show ?thesis by (auto simp: n cap)
qed

text \<open>
  Admission spares what is in use: however it ends, a pinned torrent keeps its
  rows and stays pinned.
\<close>

theorem admission_spares_pinned:
  assumes "distinct (map d_ID (rw_rows w))" and "pinned env w e"
    and "ensureAllocationRoom env files release w = (w', r)"
  shows "pinned env w' e
    \<and> filter (\<lambda>d. d_EngineID d = e) (rw_rows w') = filter (\<lambda>d. d_EngineID d = e) (rw_rows w)"
proof -
  let ?P = "\<lambda>w (w', _ :: admission). distinct (map d_ID (rw_rows w)) \<longrightarrow> pinned env w e \<longrightarrow> pinned env w' e
      \<and> filter (\<lambda>d. d_EngineID d = e) (rw_rows w') = filter (\<lambda>d. d_EngineID d = e) (rw_rows w)"
  have spared: "?P w (admission_loop env rules name n w)" for rules name n
  proof (rule admission_loop_passes[where P = ?P], goal_cases)
    case (3 w plan reason u err)
    then show ?case using evictNext_pinned[OF 3] by auto
  next
    case (6 w plan reason u v res)
    then show ?case using evictNext_pinned[OF 6(1,3)] by (cases res) auto
  qed auto
  show ?thesis
  proof (cases "rs_AllocationGB (en_settings env) \<le> 0")
    case True
    then show ?thesis using assms by (auto simp: ensureAllocationRoom_def)
  next
    case False
    then show ?thesis using assms
        spared[of "NormalizeEvictionRules (rs_EvictionRules (en_settings env))"
          "rel_Name release" "incomingTorrentBytes files release"]
      by (simp add: ensureAllocationRoom_def)
  qed
qed

theorem admission_spares_pinned_witness:
  "let E = sample_env sample_settings []; W = sample_world True False in
     pinned E (fst (ensureAllocationRoom E None (sample_release 200000000) W)) ''n:a''"
proof -
  let ?E = "sample_env sample_settings []" and ?W = "sample_world True False"
  have "route ?E ''n:a'' = Some ''a''" by code_simp
  moreover have "map_of (rw_torrents ?W) ''a'' = Some (sample_status ''a'' 83886080)"
    by (simp add: sample_world_def)
  moreover have "rs_ProtectLeased sample_settings
      \<and> list_ex d_Leased (filter (\<lambda>d. d_EngineID d = ''n:a'') (rw_rows ?W))" by code_simp
  ultimately have pin: "pinned ?E ?W ''n:a''" by (auto simp: pinned_def Let_def sample_env_def)
  have "distinct (map d_ID (rw_rows ?W))" by code_simp
  note d = this
  obtain w' r where r: "ensureAllocationRoom ?E None (sample_release 200000000) ?W = (w', r)" by fastforce
  from admission_spares_pinned[OF d pin r] r show ?thesis by (simp add: Let_def)
qed

end
