(* ===== verification/Jobs.thy ===== *)
theory Jobs
  imports Retention
begin

text \<open>
  Background jobs, \<open>internal/application/service.go\<close>: queueing (\<open>SyncCatalog\<close>,
  \<open>QueueTrackerSearch\<close>, \<open>QueueTitleRefresh\<close>, \<open>ensureMetadata\<close>), the workers' runs,
  retries (\<open>RetryJob\<close>, \<open>retryDueJobs\<close>) and the recovery after a restart.

  The state is the jobs table with the buffered channels between the queueing
  operations and the workers. Each worker is a single goroutine, so a run is one step
  that ends with the outcome of the provider call, which is an input of the step.
\<close>

section \<open>State\<close>

record jobs_state =
  js_jobs :: "job list"
  js_refreshQ :: "(string \<times> string) list"
  js_searchQ :: "string list"
  js_metaQ :: "string list"
  js_pending :: "string list"
  js_syncs :: "(job \<times> string) list"
  js_world :: rworld

text \<open>
  The environment of one operation: the clock, the digest of a search query (sha256 in
  base64), the title and IMDb id the catalog has for a title id, whether it has fresh
  metadata and whether one of its categories is not excluded, the age of the last
  successful synchronisation, and what retention needs.
\<close>

record jobs_env =
  jv_now :: gotime
  jv_digest :: "string \<Rightarrow> string"
  jv_title :: "string \<Rightarrow> (string \<times> string) option"
  jv_fresh :: "string \<Rightarrow> bool"
  jv_allowed :: "string \<Rightarrow> bool"
  jv_syncAge :: "string \<Rightarrow> int option"
  jv_gib :: "int64 \<Rightarrow> string"
  jv_retention :: retention_env

definition queue_capacity :: nat where "queue_capacity = 256"

definition save :: "jobs_env \<Rightarrow> job \<Rightarrow> jobs_state \<Rightarrow> jobs_state" where
  "save env j st = st\<lparr>js_jobs := SaveJob_ignored (jv_now env) j (js_jobs st)\<rparr>"

text \<open>Code points of a valid UTF-8 string, \<open>len([]rune(s))\<close>: continuation bytes do not count.\<close>

definition rune_count :: "string \<Rightarrow> nat" where
  "rune_count s = length (filter (\<lambda>c. \<not> (128 \<le> (of_char c :: nat) \<and> (of_char c :: nat) < 192)) s)"

section \<open>Catalog synchronisation\<close>

definition SyncCatalog :: "jobs_env \<Rightarrow> string \<Rightarrow> jobs_state \<Rightarrow> (string + job) \<times> jobs_state" where
  "SyncCatalog env mode st =
     (if mode \<noteq> ''latest'' \<and> mode \<noteq> ''rebuild'' then (Inl ''mode must be latest or rebuild'', st)
      else
        let key = ''catalog-'' @ mode;
            label = (if mode = ''latest'' then ''Fetch latest FileList releases'' else ''Rebuild FileList catalog'') in
        (case dedupe_scan (new_job key key label 1 (jv_now env)) (ListJobs 200 (js_jobs st)) of
           Inl existing \<Rightarrow> (Inr existing, st)
         | Inr j \<Rightarrow>
             (case SaveJob (jv_now env) j (js_jobs st) of
                None \<Rightarrow> (Inl ''database'', st)
              | Some tab \<Rightarrow> (Inr j, st\<lparr>js_jobs := tab, js_syncs := js_syncs st @ [(j, mode)]\<rparr>))))"

text \<open>
  \<open>runCatalogSync\<close> for the job a goroutine was started with; the outcome is an error or
  the label suffix with the counts (\<open>None\<close> when counting fails).
\<close>

definition runCatalogSync ::
  "jobs_env \<Rightarrow> job_error + string option \<Rightarrow> job \<Rightarrow> jobs_state \<Rightarrow> jobs_state" where
  "runCatalogSync env outcome j st =
     (let run = j\<lparr>j_State := ''running'', j_Progress := 1 / 50, j_UpdatedAt := jv_now env\<rparr>;
          st1 = save env run st;
          final = (case outcome of
              Inl e \<Rightarrow> failOrWait (jv_now env) run e
            | Inr counts \<Rightarrow>
                (let d = run\<lparr>j_State := ''completed'', j_Retryable := False, j_NextAttemptAt := None,
                             j_Progress := 1\<rparr> in
                 case counts of None \<Rightarrow> d | Some suf \<Rightarrow> d\<lparr>j_Label := j_Label d @ suf\<rparr>)) in
      save env final st1)"

section \<open>Tracker searches\<close>

definition search_key :: "jobs_env \<Rightarrow> string \<Rightarrow> string" where
  "search_key env q = ''tracker-search:'' @ jv_digest env (to_lower q)"

definition enqueue_search ::
  "jobs_env \<Rightarrow> string \<Rightarrow> int \<Rightarrow> jobs_state \<Rightarrow> (string + job) \<times> jobs_state" where
  "enqueue_search env q attempt st =
     (let key = search_key env q;
          j = new_job key ''tracker-search'' (''Search FileList for '' @ q) attempt (jv_now env) in
      case SaveJob (jv_now env) j (js_jobs st) of
        None \<Rightarrow> (Inl ''database'', st)
      | Some tab \<Rightarrow>
          (let st1 = st\<lparr>js_jobs := tab\<rparr> in
           if length (js_searchQ st) < queue_capacity
           then (Inr j, st1\<lparr>js_searchQ := js_searchQ st @ [q]\<rparr>)
           else (Inl ''tracker search queue is full'',
                 save env (j\<lparr>j_State := ''failed'', j_Error := ''tracker search queue is full''\<rparr>) st1)))"

definition QueueTrackerSearch ::
  "jobs_env \<Rightarrow> string \<Rightarrow> bool \<Rightarrow> jobs_state \<Rightarrow> (string + job) \<times> jobs_state" where
  "QueueTrackerSearch env query force st =
     (let q = trim_space query in
      if rune_count q < 3 then (Inl ''search query must contain at least three characters'', st)
      else (case GetJob (search_key env q) (js_jobs st) of
           None \<Rightarrow> enqueue_search env q 1 st
         | Some e \<Rightarrow>
             if active_state (j_State e) \<or> j_State e = ''retry_wait'' then (Inr e, st)
             else enqueue_search env q
               (if force \<or> j_State e = ''completed'' \<or> j_State e = ''failed''
                then j_Attempt e + 1 else j_Attempt e) st))"

text \<open>A missing job reads as the zero value; its save then fails on no constraint.\<close>

definition job_or_zero :: "string \<Rightarrow> job list \<Rightarrow> job" where
  "job_or_zero key tab = (case GetJob key tab of Some j \<Rightarrow> j
     | None \<Rightarrow> \<lparr>j_ID = [], j_Kind = [], j_State = [], j_Label = [], j_DedupeKey = [], j_Progress = 0,
         j_Attempt = 0, j_Error = [], j_Retryable = False, j_NextAttemptAt = None,
         j_CreatedAt = 0, j_UpdatedAt = 0\<rparr>)"

definition running :: "jobs_env \<Rightarrow> float64 \<Rightarrow> job \<Rightarrow> job" where
  "running env p j = j\<lparr>j_State := ''running'', j_Progress := p, j_Error := [], j_NextAttemptAt := None,
     j_UpdatedAt := jv_now env\<rparr>"

definition completed :: "jobs_env \<Rightarrow> job \<Rightarrow> job" where
  "completed env j = j\<lparr>j_State := ''completed'', j_Progress := 1, j_Retryable := False,
     j_NextAttemptAt := None, j_UpdatedAt := jv_now env\<rparr>"

definition runTrackerSearch ::
  "jobs_env \<Rightarrow> job_error option \<Rightarrow> string \<Rightarrow> jobs_state \<Rightarrow> jobs_state" where
  "runTrackerSearch env err q st =
     (let run = running env (1 / 10) (job_or_zero (search_key env q) (js_jobs st));
          st1 = save env run st in
      save env (case err of None \<Rightarrow> completed env run | Some e \<Rightarrow> failOrWait (jv_now env) run e) st1)"

section \<open>Title refreshes\<close>

definition refresh_key :: "string \<Rightarrow> string" where
  "refresh_key titleID = ''catalog-title-refresh:'' @ titleID"

definition enqueue_refresh ::
  "jobs_env \<Rightarrow> string \<Rightarrow> string \<Rightarrow> int \<Rightarrow> jobs_state \<Rightarrow> (string + job) \<times> jobs_state" where
  "enqueue_refresh env titleID q attempt st =
     (let j = new_job (refresh_key titleID) ''catalog-title-refresh''
                (''Refresh all versions of '' @ q) attempt (jv_now env) in
      case SaveJob (jv_now env) j (js_jobs st) of
        None \<Rightarrow> (Inl ''database'', st)
      | Some tab \<Rightarrow>
          (let st1 = st\<lparr>js_jobs := tab\<rparr> in
           if length (js_refreshQ st) < queue_capacity
           then (Inr j, st1\<lparr>js_refreshQ := js_refreshQ st @ [(titleID, q)]\<rparr>)
           else (Inl ''title refresh queue is full'',
                 save env (j\<lparr>j_State := ''failed'', j_Error := ''title refresh queue is full''\<rparr>) st1)))"

definition QueueTitleRefresh ::
  "jobs_env \<Rightarrow> string \<Rightarrow> string \<Rightarrow> bool \<Rightarrow> jobs_state \<Rightarrow> (string + job) \<times> jobs_state" where
  "QueueTitleRefresh env titleID query force st =
     (let q = trim_space query; key = refresh_key titleID;
          fresh = (case jv_syncAge env key of None \<Rightarrow> False | Some age \<Rightarrow> 0 \<le> age \<and> age < 3600) in
      if titleID = [] \<or> rune_count q < 3 then (Inl ''title and refresh query are required'', st)
      else if \<not> force \<and> fresh then
        (Inr ((new_job key ''catalog-title-refresh'' ''Title was refreshed less than one hour ago'' 0 (jv_now env))
           \<lparr>j_State := ''completed'', j_Progress := 1\<rparr>), st)
      else
        (case GetJob key (js_jobs st) of
           None \<Rightarrow> enqueue_refresh env titleID q 1 st
         | Some e \<Rightarrow>
             if active_state (j_State e)
                \<or> (\<not> force \<and> j_State e = ''failed'' \<and> jv_now env - j_UpdatedAt e < 300 * second)
             then (Inr e, st)
             else enqueue_refresh env titleID q
               (let a = (if force then j_Attempt e + 1 else j_Attempt e) in if a < 1 then 1 else a) st))"

section \<open>Metadata\<close>

definition metadata_key :: "string \<Rightarrow> string" where
  "metadata_key titleID = ''metadata:'' @ titleID"

definition enqueue_metadata ::
  "jobs_env \<Rightarrow> string \<Rightarrow> string \<Rightarrow> int \<Rightarrow> nat \<times> jobs_state \<Rightarrow> nat \<times> jobs_state" where
  "enqueue_metadata env titleID title attempt acc =
     (let (n, st) = acc;
          j = new_job (metadata_key titleID) ''metadata'' (''Fetch metadata for '' @ title) attempt (jv_now env) in
      case SaveJob (jv_now env) j (js_jobs st) of
        None \<Rightarrow> acc
      | Some tab \<Rightarrow>
          (if length (js_metaQ st) < queue_capacity
           then (n + 1, st\<lparr>js_jobs := tab, js_pending := titleID # js_pending st,
                           js_metaQ := js_metaQ st @ [titleID]\<rparr>)
           else (n, save env (j\<lparr>j_State := ''failed'', j_Error := ''metadata queue is full''\<rparr>)
                      (st\<lparr>js_jobs := tab\<rparr>))))"

text \<open>One pass of the loop of \<open>ensureMetadata\<close>; the counter is of queued requests.\<close>

definition ensure_one :: "jobs_env \<Rightarrow> bool \<Rightarrow> string \<Rightarrow> nat \<times> jobs_state \<Rightarrow> nat \<times> jobs_state" where
  "ensure_one env force titleID acc =
     (case jv_title env titleID of
        None \<Rightarrow> acc
      | Some (title, imdb) \<Rightarrow>
          if imdb = [] \<or> (\<not> force \<and> jv_fresh env titleID) \<or> titleID \<in> set (js_pending (snd acc)) then acc
          else
            let a0 = (case GetJob (metadata_key titleID) (js_jobs (snd acc)) of None \<Rightarrow> 0 | Some e \<Rightarrow> j_Attempt e);
                a1 = (if force then a0 + 1 else a0) in
            enqueue_metadata env titleID title (if a1 < 1 then 1 else a1) acc)"

definition ensureMetadata :: "jobs_env \<Rightarrow> string list \<Rightarrow> bool \<Rightarrow> jobs_state \<Rightarrow> nat \<times> jobs_state" where
  "ensureMetadata env titleIDs force st = fold (ensure_one env force) (take 24 titleIDs) (0, st)"

definition runMetadataRequest ::
  "jobs_env \<Rightarrow> job_error option \<Rightarrow> string \<Rightarrow> jobs_state \<Rightarrow> jobs_state" where
  "runMetadataRequest env err titleID st =
     (let r0 = running env (1 / 10) (job_or_zero (metadata_key titleID) (js_jobs st));
          run = (if j_Attempt r0 < 1 then r0\<lparr>j_Attempt := 1\<rparr> else r0);
          st1 = save env run st;
          st2 = save env (case err of None \<Rightarrow> completed env run
                  | Some e \<Rightarrow> failOrWait (jv_now env) run e) st1 in
      st2\<lparr>js_pending := filter (\<lambda>t. t \<noteq> titleID) (js_pending st2)\<rparr>)"

text \<open>
  \<open>runTitleRefresh\<close>; the outcome is the error of the search, the import or a manifest, or
  the number of releases found. A success also queues the title's metadata.
\<close>

definition runTitleRefresh ::
  "jobs_env \<Rightarrow> job_error + nat \<Rightarrow> string \<times> string \<Rightarrow> jobs_state \<Rightarrow> jobs_state" where
  "runTitleRefresh env outcome req st =
     (let (titleID, q) = req;
          run = running env (1 / 20) (job_or_zero (refresh_key titleID) (js_jobs st));
          st1 = save env run st in
      case outcome of
        Inl e \<Rightarrow> save env (failOrWait (jv_now env) run e) st1
      | Inr items \<Rightarrow>
          save env ((completed env run)\<lparr>j_Label :=
              ''Refreshed '' @ q @ '' '' @ middot @ '' '' @ show_nat items @ '' releases''\<rparr>)
            (snd (ensureMetadata env [titleID] False st1)))"

section \<open>Retries and recovery\<close>

definition RetryJob :: "jobs_env \<Rightarrow> string \<Rightarrow> jobs_state \<Rightarrow> (string + job) \<times> jobs_state" where
  "RetryJob env jid st =
     (case GetJob jid (js_jobs st) of
        None \<Rightarrow> (Inl ''sql: no rows in result set'', st)
      | Some j \<Rightarrow>
          if active_state (j_State j) \<or> j_State j = ''retry_wait''
          then (Inl ''active jobs cannot be retried'', st)
          else if j_Kind j = ''catalog-latest'' then SyncCatalog env ''latest'' st
          else if j_Kind j = ''catalog-rebuild'' then SyncCatalog env ''rebuild'' st
          else if j_Kind j = ''metadata'' then
            (let (n, st1) = ensureMetadata env [trim_prefix (j_DedupeKey j) ''metadata:''] True st in
             if n = 0 then
               (Inl ''metadata title is unavailable, lacks an IMDb id, or is already queued'', st1)
             else (case GetJob jid (js_jobs st1) of
               None \<Rightarrow> (Inl ''sql: no rows in result set'', st1) | Some r \<Rightarrow> (Inr r, st1)))
          else if j_Kind j = ''catalog-title-refresh'' then
            (let titleID = trim_prefix (j_DedupeKey j) ''catalog-title-refresh:'' in
             case jv_title env titleID of
               None \<Rightarrow> (Inl ''catalog title is unavailable'', st)
             | Some (title, _) \<Rightarrow> QueueTitleRefresh env titleID title True st)
          else if j_Kind j = ''tracker-search'' then
            QueueTrackerSearch env (trim_prefix (j_Label j) ''Search FileList for '') True st
          else if j_Kind j = retentionKind then
            (case RunRetention (jv_gib env) (jv_retention env) (jv_now env) (js_world st) (js_jobs st) of
               (None, w, tab) \<Rightarrow> (Inl ''database'', st\<lparr>js_world := w, js_jobs := tab\<rparr>)
             | (Some r, w, tab) \<Rightarrow> (Inr r, st\<lparr>js_world := w, js_jobs := tab\<rparr>))
          else (Inl ''job kind is not retryable'', st))"

text \<open>One row of the scan of \<open>retryDueJobs\<close>: the saved row is released and retried.\<close>

definition retry_one :: "jobs_env \<Rightarrow> bool \<Rightarrow> job \<Rightarrow> jobs_state \<Rightarrow> jobs_state" where
  "retry_one env waitingOnly j st =
     (let due = (case j_NextAttemptAt j of None \<Rightarrow> False | Some t \<Rightarrow> t \<le> jv_now env) in
      if \<not> due then st
      else if waitingOnly \<and> j_State j \<noteq> ''retry_wait'' then st
      else if \<not> waitingOnly \<and> (j_State j \<noteq> ''failed'' \<or> \<not> j_Retryable j) then st
      else snd (RetryJob env (j_ID j)
             (save env (j\<lparr>j_State := ''failed'', j_NextAttemptAt := None\<rparr>) st)))"

definition retryDueJobs :: "jobs_env \<Rightarrow> bool \<Rightarrow> jobs_state \<Rightarrow> jobs_state" where
  "retryDueJobs env waitingOnly st =
     fold (retry_one env waitingOnly) (ListDueJobs (jv_now env) 500 (js_jobs st)) st"

definition recover_one :: "jobs_env \<Rightarrow> job \<Rightarrow> jobs_state \<Rightarrow> jobs_state" where
  "recover_one env j st =
     (if \<not> active_state (j_State j) then st
      else if j_Kind j = ''catalog-title-refresh'' then
        let q = trim_prefix (j_Label j) ''Refresh all versions of '';
            titleID = trim_prefix (j_DedupeKey j) ''catalog-title-refresh:'' in
        if q = j_Label j \<or> rune_count (trim_space q) < 3 then st
        else if jv_title env titleID \<noteq> None \<and> \<not> jv_allowed env titleID then
          save env (j\<lparr>j_State := ''failed'', j_Error := ''category is excluded from discovery'',
                      j_UpdatedAt := jv_now env\<rparr>) st
        else
          let st1 = save env (j\<lparr>j_State := ''queued'', j_Progress := 0, j_Error := [],
                                j_UpdatedAt := jv_now env\<rparr>) st in
          (if length (js_refreshQ st1) < queue_capacity
           then st1\<lparr>js_refreshQ := js_refreshQ st1 @ [(titleID, q)]\<rparr> else st1)
      else save env (j\<lparr>j_State := ''failed'',
             j_Error := ''interrupted by server restart; safe to retry'', j_Retryable := True,
             j_NextAttemptAt := Some (jv_now env + hour), j_UpdatedAt := jv_now env\<rparr>) st)"

definition recoverInterruptedJobs :: "jobs_env \<Rightarrow> jobs_state \<Rightarrow> jobs_state" where
  "recoverInterruptedJobs env st =
     fold (recover_one env) (ListJobs 500 (js_jobs st)) st"

section \<open>No queued job is forgotten\<close>

text \<open>The requests that wait for a worker, by the key of their job.\<close>

definition waiting :: "jobs_env \<Rightarrow> jobs_state \<Rightarrow> string \<Rightarrow> bool" where
  "waiting env st k \<longleftrightarrow> k \<in> search_key env ` set (js_searchQ st)
     \<or> k \<in> (refresh_key \<circ> fst) ` set (js_refreshQ st)
     \<or> k \<in> metadata_key ` set (js_metaQ st) \<or> k \<in> (j_ID \<circ> fst) ` set (js_syncs st)"

definition jobs_inv :: "jobs_env \<Rightarrow> jobs_state \<Rightarrow> bool" where
  "jobs_inv env st \<longleftrightarrow> wf_jobs (js_jobs st)
     \<and> length (js_searchQ st) \<le> queue_capacity \<and> length (js_refreshQ st) \<le> queue_capacity
     \<and> length (js_metaQ st) \<le> queue_capacity
     \<and> (\<forall>s\<in>set (js_syncs st). own_key (fst s))
     \<and> (\<forall>k. sqlite.state_of (js_jobs st) k = ''queued'' \<longrightarrow> waiting env st k)"

lemma save_simps [simp]:
  "js_searchQ (save env j st) = js_searchQ st" "js_refreshQ (save env j st) = js_refreshQ st"
  "js_metaQ (save env j st) = js_metaQ st" "js_syncs (save env j st) = js_syncs st"
  "js_pending (save env j st) = js_pending st" "js_world (save env j st) = js_world st"
  "js_jobs (save env j st) = SaveJob_ignored (jv_now env) j (js_jobs st)"
  by (simp_all add: save_def)

lemma waiting_save [simp]: "waiting env (save env' j st) k = waiting env st k"
  by (simp add: waiting_def)

text \<open>A save of a job that is not queued, or one whose request waits, keeps the invariant.\<close>

lemma jobs_inv_save:
  assumes "jobs_inv env st" "own_key j" "j_State j = ''queued'' \<longrightarrow> waiting env st (j_ID j)"
  shows "jobs_inv env (save env' j st)"
  using assms by (auto simp: jobs_inv_def sqlite.save_inv sqlite.state_of_save)

lemma new_job_simps [simp]:
  "own_key (new_job key kind label a now)" "j_ID (new_job key kind label a now) = key"
  "j_State (new_job key kind label a now) = ''queued''" "j_DedupeKey (new_job key kind label a now) = key"
  by (simp_all add: new_job_def own_key_def)

lemma dedupe_scan_new:
  "dedupe_scan j es = Inr j' \<Longrightarrow> j_ID j' = j_ID j \<and> j_DedupeKey j' = j_DedupeKey j \<and> j_State j' = j_State j"
  by (induction j es rule: dedupe_scan.induct) (auto split: if_splits)

lemma job_or_zero_own: "wf_jobs tab \<Longrightarrow> own_key (job_or_zero k tab)"
  by (auto simp: job_or_zero_def own_key_def wf_jobs_def dest: GetJob_some split: option.splits)

lemma run_simps [simp]:
  "own_key (running env p j) = own_key j" "j_ID (running env p j) = j_ID j"
  "j_State (running env p j) = ''running''"
  "own_key (completed env j) = own_key j" "j_ID (completed env j) = j_ID j"
  "j_State (completed env j) = ''completed''"
  "own_key (failOrWait now j e) = own_key j"
  by (simp_all add: running_def completed_def own_key_def)

lemma failOrWait_not_queued [simp]: "j_State (failOrWait now j e) \<noteq> ''queued''"
  using failOrWait_state[of now j e] by auto

subsection \<open>Queueing\<close>

lemma SyncCatalog_inv:
  assumes "jobs_inv env st" shows "jobs_inv env (snd (SyncCatalog env' mode st))"
proof -
  have "jobs_inv env (st\<lparr>js_jobs := SaveJob_ignored (jv_now env') j (js_jobs st),
      js_syncs := js_syncs st @ [(j, mode)]\<rparr>)" if "own_key j" for j
    using assms that
    by (auto simp: jobs_inv_def waiting_def sqlite.save_inv sqlite.state_of_save)
  moreover have "own_key j" if "dedupe_scan (new_job key kind label 1 now) es = Inr j" for key kind label now es j
    using dedupe_scan_new[OF that] by (simp add: own_key_def)
  ultimately show ?thesis using assms
    by (auto simp: SyncCatalog_def Let_def SaveJob_eq_ignored jobs_inv_def split: sum.splits option.splits)
qed

lemma enqueue_search_inv:
  assumes "jobs_inv env st" "jv_digest env' = jv_digest env"
  shows "jobs_inv env (snd (enqueue_search env' q a st))"
proof -
  have key: "search_key env' q = search_key env q" using assms(2) by (simp add: search_key_def)
  let ?j = "new_job (search_key env q) ''tracker-search'' (''Search FileList for '' @ q) a (jv_now env')"
  let ?st1 = "st\<lparr>js_jobs := SaveJob_ignored (jv_now env') ?j (js_jobs st)\<rparr>"
  have wf: "wf_jobs (js_jobs st)" using assms(1) by (simp add: jobs_inv_def)
  show ?thesis
  proof (cases "length (js_searchQ st) < queue_capacity")
    case True
    have "jobs_inv env (?st1\<lparr>js_searchQ := js_searchQ st @ [q]\<rparr>)"
      using assms(1) True by (auto simp: jobs_inv_def waiting_def sqlite.save_inv sqlite.state_of_save)
    then show ?thesis using True wf by (simp add: enqueue_search_def Let_def SaveJob_eq_ignored key)
  next
    case False
    let ?f = "?j\<lparr>j_State := ''failed'', j_Error := ''tracker search queue is full''\<rparr>"
    have own: "own_key ?f" by (simp add: own_key_def)
    have "jobs_inv env (save env' ?f ?st1)"
      using assms(1) own by (auto simp: jobs_inv_def waiting_def sqlite.save_inv sqlite.state_of_save)
    then show ?thesis using False wf by (simp add: enqueue_search_def Let_def SaveJob_eq_ignored key)
  qed
qed

lemma QueueTrackerSearch_inv:
  assumes "jobs_inv env st" "jv_digest env' = jv_digest env"
  shows "jobs_inv env (snd (QueueTrackerSearch env' q force st))"
  using assms enqueue_search_inv[OF assms]
  by (auto simp: QueueTrackerSearch_def Let_def split: option.splits)

lemma enqueue_refresh_inv:
  assumes "jobs_inv env st"
  shows "jobs_inv env (snd (enqueue_refresh env' t q a st))"
proof -
  let ?j = "new_job (refresh_key t) ''catalog-title-refresh'' (''Refresh all versions of '' @ q) a (jv_now env')"
  let ?st1 = "st\<lparr>js_jobs := SaveJob_ignored (jv_now env') ?j (js_jobs st)\<rparr>"
  have wf: "wf_jobs (js_jobs st)" using assms(1) by (simp add: jobs_inv_def)
  show ?thesis
  proof (cases "length (js_refreshQ st) < queue_capacity")
    case True
    have "jobs_inv env (?st1\<lparr>js_refreshQ := js_refreshQ st @ [(t, q)]\<rparr>)"
      using assms(1) True by (auto simp: jobs_inv_def waiting_def sqlite.save_inv sqlite.state_of_save)
    then show ?thesis using True wf by (simp add: enqueue_refresh_def Let_def SaveJob_eq_ignored)
  next
    case False
    let ?f = "?j\<lparr>j_State := ''failed'', j_Error := ''title refresh queue is full''\<rparr>"
    have own: "own_key ?f" by (simp add: own_key_def)
    have "jobs_inv env (save env' ?f ?st1)"
      using assms(1) own by (auto simp: jobs_inv_def waiting_def sqlite.save_inv sqlite.state_of_save)
    then show ?thesis using False wf by (simp add: enqueue_refresh_def Let_def SaveJob_eq_ignored)
  qed
qed

lemma QueueTitleRefresh_inv:
  assumes "jobs_inv env st"
  shows "jobs_inv env (snd (QueueTitleRefresh env' t q force st))"
  using assms enqueue_refresh_inv[OF assms]
  by (auto simp: QueueTitleRefresh_def Let_def split: option.splits)

lemma enqueue_metadata_inv:
  assumes "jobs_inv env (snd acc)"
  shows "jobs_inv env (snd (enqueue_metadata env' t title a acc))"
proof -
  obtain n st where acc: "acc = (n, st)" by (cases acc)
  with assms have inv: "jobs_inv env st" by simp
  then have wf: "wf_jobs (js_jobs st)" by (simp add: jobs_inv_def)
  let ?j = "new_job (metadata_key t) ''metadata'' (''Fetch metadata for '' @ title) a (jv_now env')"
  let ?st1 = "st\<lparr>js_jobs := SaveJob_ignored (jv_now env') ?j (js_jobs st)\<rparr>"
  show ?thesis
  proof (cases "length (js_metaQ st) < queue_capacity")
    case True
    have "jobs_inv env (?st1\<lparr>js_pending := t # js_pending st, js_metaQ := js_metaQ st @ [t]\<rparr>)"
      using inv True by (auto simp: jobs_inv_def waiting_def sqlite.save_inv sqlite.state_of_save)
    then show ?thesis using True wf by (simp add: enqueue_metadata_def acc Let_def SaveJob_eq_ignored)
  next
    case False
    let ?f = "?j\<lparr>j_State := ''failed'', j_Error := ''metadata queue is full''\<rparr>"
    have own: "own_key ?f" by (simp add: own_key_def)
    have "jobs_inv env (save env' ?f ?st1)"
      using inv own by (auto simp: jobs_inv_def waiting_def sqlite.save_inv sqlite.state_of_save)
    then show ?thesis using False wf by (simp add: enqueue_metadata_def acc Let_def SaveJob_eq_ignored)
  qed
qed

lemma ensure_one_inv:
  "jobs_inv env (snd acc) \<Longrightarrow> jobs_inv env (snd (ensure_one env' force t acc))"
  using enqueue_metadata_inv by (auto simp: ensure_one_def Let_def split: option.splits)

lemma ensureMetadata_inv:
  assumes "jobs_inv env st" shows "jobs_inv env (snd (ensureMetadata env' ids force st))"
proof -
  have "jobs_inv env (snd (fold (ensure_one env' force) xs acc))" if "jobs_inv env (snd acc)" for xs acc
    using that
  proof (induction xs arbitrary: acc)
    case (Cons x xs)
    from Cons.IH[OF ensure_one_inv[OF Cons.prems]] show ?case by simp
  qed simp
  then show ?thesis using assms by (simp add: ensureMetadata_def)
qed

subsection \<open>Runs\<close>

text \<open>The invariant while a worker holds the request of job \<open>key\<close>.\<close>

definition held_inv :: "jobs_env \<Rightarrow> string \<Rightarrow> jobs_state \<Rightarrow> bool" where
  "held_inv env key st \<longleftrightarrow> wf_jobs (js_jobs st)
     \<and> length (js_searchQ st) \<le> queue_capacity \<and> length (js_refreshQ st) \<le> queue_capacity
     \<and> length (js_metaQ st) \<le> queue_capacity
     \<and> (\<forall>s\<in>set (js_syncs st). own_key (fst s))
     \<and> (\<forall>k. k \<noteq> key \<longrightarrow> sqlite.state_of (js_jobs st) k = ''queued'' \<longrightarrow> waiting env st k)"

lemma held_done:
  assumes "held_inv env key st" "sqlite.state_of (js_jobs st) key \<noteq> ''queued''"
  shows "jobs_inv env st"
  using assms by (auto simp: held_inv_def jobs_inv_def)

lemma held_save_running:
  assumes "held_inv env key st" "j_State run \<noteq> ''queued''"
    "j_ID run = j_ID (job_or_zero key (js_jobs st))"
    "j_DedupeKey run = j_DedupeKey (job_or_zero key (js_jobs st))"
  shows "own_key run \<and> jobs_inv env (save env' run st)"
proof -
  have wf: "wf_jobs (js_jobs st)" using assms(1) by (simp add: held_inv_def)
  have own: "own_key run" using job_or_zero_own[OF wf] assms(3,4) by (simp add: own_key_def)
  have none: "j_ID run = key \<or> sqlite.state_of (js_jobs st) key = []"
    using assms(3) by (auto simp: job_or_zero_def sqlite.state_of_def dest: GetJob_some split: option.splits)
  have "held_inv env key (save env' run st)"
    using assms(1,2) own by (auto simp: held_inv_def sqlite.save_inv sqlite.state_of_save)
  moreover have "sqlite.state_of (js_jobs (save env' run st)) key \<noteq> ''queued''"
    using none assms(2) own wf by (auto simp: sqlite.state_of_save)
  ultimately show ?thesis using own held_done by blast
qed

lemma run_done:
  assumes "jobs_inv env st" "own_key j" "j_State j \<noteq> ''queued''"
  shows "jobs_inv env (save env' j st)"
  using jobs_inv_save[OF assms(1,2)] assms(3) by blast

lemma runTrackerSearch_inv:
  assumes "jobs_inv env st" "js_searchQ st = q # qs" "jv_digest env' = jv_digest env"
  shows "jobs_inv env (runTrackerSearch env' err q (st\<lparr>js_searchQ := qs\<rparr>))"
proof -
  have wf: "wf_jobs (js_jobs st)" using assms(1) by (simp add: jobs_inv_def)
  have "held_inv env (search_key env' q) (st\<lparr>js_searchQ := qs\<rparr>)"
    using assms by (auto simp: jobs_inv_def held_inv_def waiting_def search_key_def)
  from held_save_running[OF this, of "running env' (1 / 10) (job_or_zero (search_key env' q) (js_jobs st))"]
  have "jobs_inv env (save env' (running env' (1 / 10)
      (job_or_zero (search_key env' q) (js_jobs st))) (st\<lparr>js_searchQ := qs\<rparr>))"
    by (simp add: running_def)
  then show ?thesis unfolding runTrackerSearch_def Let_def
    by (cases err) (auto intro!: run_done job_or_zero_own simp: wf)
qed

lemma runTitleRefresh_inv:
  assumes "jobs_inv env st" "js_refreshQ st = req # qs"
  shows "jobs_inv env (runTitleRefresh env' outcome req (st\<lparr>js_refreshQ := qs\<rparr>))"
proof -
  obtain t q where req: "req = (t, q)" by (cases req)
  have wf: "wf_jobs (js_jobs st)" using assms(1) by (simp add: jobs_inv_def)
  have "held_inv env (refresh_key t) (st\<lparr>js_refreshQ := qs\<rparr>)"
    using assms req by (auto simp: jobs_inv_def held_inv_def waiting_def)
  from held_save_running[OF this, of "running env' (1 / 20) (job_or_zero (refresh_key t) (js_jobs st))"]
  have r: "jobs_inv env (save env' (running env' (1 / 20)
      (job_or_zero (refresh_key t) (js_jobs st))) (st\<lparr>js_refreshQ := qs\<rparr>))"
    by (simp add: running_def)
  have lab: "own_key (j\<lparr>j_Label := l\<rparr>) = own_key j" for j l by (simp add: own_key_def)
  show ?thesis unfolding runTitleRefresh_def Let_def req prod.case using r
    by (cases outcome) (auto intro!: run_done job_or_zero_own ensureMetadata_inv simp: wf lab)
qed

lemma runMetadataRequest_inv:
  assumes "jobs_inv env st" "js_metaQ st = t # ts"
  shows "jobs_inv env (runMetadataRequest env' err t (st\<lparr>js_metaQ := ts\<rparr>))"
proof -
  let ?st = "st\<lparr>js_metaQ := ts\<rparr>" and ?z = "job_or_zero (metadata_key t) (js_jobs (st\<lparr>js_metaQ := ts\<rparr>))"
  define r0 where "r0 = running env' (1 / 10) ?z"
  define r where "r = (if j_Attempt r0 < 1 then r0\<lparr>j_Attempt := 1\<rparr> else r0)"
  define fin where "fin = (case err of None \<Rightarrow> completed env' r | Some e \<Rightarrow> failOrWait (jv_now env') r e)"
  have held: "held_inv env (metadata_key t) ?st"
    using assms by (auto simp: jobs_inv_def held_inv_def waiting_def)
  have "j_ID r = j_ID ?z" "j_DedupeKey r = j_DedupeKey ?z" "j_State r = ''running''"
    by (simp_all add: r_def r0_def running_def)
  then have own: "own_key r" and inv: "jobs_inv env (save env' r ?st)"
    using held_save_running[OF held, of r env'] by auto
  have "own_key fin" "j_State fin \<noteq> ''queued''" using own by (auto simp: fin_def split: option.splits)
  from run_done[OF inv this] have fin: "jobs_inv env (save env' fin (save env' r ?st))" .
  have "runMetadataRequest env' err t ?st =
      (save env' fin (save env' r ?st))\<lparr>js_pending := filter (\<lambda>x. x \<noteq> t) (js_pending st)\<rparr>"
    unfolding runMetadataRequest_def Let_def r0_def[symmetric] r_def[symmetric] fin_def[symmetric]
    by simp
  then show ?thesis using fin by (simp add: jobs_inv_def waiting_def)
qed

lemma runCatalogSync_inv:
  assumes "jobs_inv env st" "js_syncs st = before @ (j, mode) # after"
  shows "jobs_inv env (runCatalogSync env' outcome j (st\<lparr>js_syncs := before @ after\<rparr>))"
proof -
  let ?st = "st\<lparr>js_syncs := before @ after\<rparr>"
  let ?run = "j\<lparr>j_State := ''running'', j_Progress := 1 / 50, j_UpdatedAt := jv_now env'\<rparr>"
  have wf: "wf_jobs (js_jobs st)" and own: "own_key j" using assms by (auto simp: jobs_inv_def)
  have own': "own_key ?run" using own by (simp add: own_key_def)
  have "held_inv env (j_ID j) (save env' ?run ?st)"
    using assms own' by (auto simp: jobs_inv_def held_inv_def waiting_def sqlite.save_inv sqlite.state_of_save)
  moreover have "sqlite.state_of (js_jobs (save env' ?run ?st)) (j_ID j) \<noteq> ''queued''"
    using own' wf by (simp add: sqlite.state_of_save)
  ultimately have inv: "jobs_inv env (save env' ?run ?st)" by (rule held_done)
  show ?thesis unfolding runCatalogSync_def Let_def using own'
    by (auto intro!: run_done[OF inv] simp: own_key_def split: sum.splits option.splits)
qed

subsection \<open>Retries\<close>

lemma SaveJob_power_states:
  assumes "wf_jobs tab" "own_key j"
  shows "wf_jobs ((SaveJob_ignored now j ^^ n) tab)
    \<and> (\<forall>k. sqlite.state_of ((SaveJob_ignored now j ^^ n) tab) k =
         (if k = j_ID j \<and> n > 0 then j_State j else sqlite.state_of tab k))"
  using assms by (induction n) (auto simp: sqlite.save_inv sqlite.state_of_save)

lemma runRetention_states:
  assumes "wf_jobs tab" "own_key j" "runRetention gib renv now j w tab = (w', tab')"
  shows "wf_jobs tab' \<and> (\<forall>k. sqlite.state_of tab' k = sqlite.state_of tab k
    \<or> (k = j_ID j \<and> sqlite.state_of tab' k \<noteq> ''queued''))
    \<and> sqlite.state_of tab' (j_ID j) \<noteq> ''queued''"
proof -
  let ?run = "j\<lparr>j_State := ''running'', j_Progress := 1 / 20, j_UpdatedAt := now\<rparr>"
  have own: "own_key ?run" using assms(2) by (simp add: own_key_def)
  obtain x why n freed where
    l: "retention_loop renv (NormalizeEvictionRules (rs_EvictionRules (en_settings renv))) w 0 0 = (x, why, n, freed)"
    by (cases "retention_loop renv (NormalizeEvictionRules (rs_EvictionRules (en_settings renv))) w 0 0")
  let ?fin = "case why of Aborted e \<Rightarrow> failOrWait now ?run e | _ \<Rightarrow> ?run"
  let ?tab1 = "SaveJob_ignored now ?run tab"
  let ?tab2 = "(SaveJob_ignored now ?run ^^ n) ?tab1"
  have t: "tab' = finishRetentionJob gib now ?fin n freed ?tab2"
    using assms(3) l by (simp add: runRetention_def Let_def)
  have fin: "own_key ?fin" "j_ID ?fin = j_ID j" "j_State ?fin \<noteq> ''queued''"
    using own by (auto split: retention_end.splits)
  have 1: "wf_jobs ?tab1" "\<And>k. sqlite.state_of ?tab1 k = (if k = j_ID j then ''running'' else sqlite.state_of tab k)"
    using assms(1) own by (simp_all add: sqlite.save_inv sqlite.state_of_save)
  have 2: "wf_jobs ?tab2" "\<And>k. sqlite.state_of ?tab2 k = (if k = j_ID j then ''running'' else sqlite.state_of tab k)"
    using SaveJob_power_states[OF 1(1) own, where now = now and n = n] 1(2) by auto
  define g where "g = (if j_State ?fin = ''running'' then ?fin\<lparr>j_Label := j_Label ?fin @ '' '' @ middot @
               (if n > 0 then '' '' @ show_nat n @ '' evicted '' @ middot @ '' '' @ gib freed @ '' GiB freed''
                else '' within limits''),
            j_State := ''completed'', j_Retryable := False, j_NextAttemptAt := None, j_Progress := 1\<rparr>
        else ?fin)\<lparr>j_UpdatedAt := now\<rparr>"
  have g: "own_key g" "j_ID g = j_ID j" "j_State g \<noteq> ''queued''"
    using fin by (auto simp: g_def own_key_def)
  have "tab' = SaveJob_ignored now g ?tab2"
    unfolding t finishRetentionJob_def g_def Let_def ..
  then show ?thesis using 2 g by (auto simp: sqlite.save_inv sqlite.state_of_save)
qed

lemma RunRetention_inv:
  assumes "jobs_inv env st" "RunRetention gib renv now w (js_jobs st) = (r, w', tab)"
  shows "jobs_inv env (st\<lparr>js_world := w', js_jobs := tab\<rparr>)"
proof -
  have wf: "wf_jobs (js_jobs st)" using assms(1) by (simp add: jobs_inv_def)
  have world: "jobs_inv env (s\<lparr>js_world := x\<rparr>) = jobs_inv env s" for s x
    by (simp add: jobs_inv_def waiting_def)
  show ?thesis
  proof (cases "dedupe_scan (new_job retentionKind retentionKind
              ''Enforce storage allocation and reserve'' 1 now) (ListJobs 200 (js_jobs st))")
    case (Inl e)
    then show ?thesis using assms by (auto simp: RunRetention_def world)
  next
    case (Inr j)
    have own: "own_key j" using dedupe_scan_new[OF Inr] by (simp add: own_key_def)
    let ?tab1 = "SaveJob_ignored now j (js_jobs st)"
    obtain x tab2 where run: "runRetention gib renv now j w ?tab1 = (x, tab2)" by fastforce
    have tab: "tab = tab2" using assms(2) Inr run wf own
      by (auto simp: RunRetention_def SaveJob_eq_ignored)
    have "wf_jobs ?tab1" by (rule sqlite.save_inv[OF wf own])
    from runRetention_states[OF this own run] have st2: "wf_jobs tab2"
      "\<And>k. sqlite.state_of tab2 k = ''queued'' \<Longrightarrow> k \<noteq> j_ID j \<and> sqlite.state_of ?tab1 k = ''queued''"
      by metis+
    have "sqlite.state_of (js_jobs st) k = ''queued''" if "sqlite.state_of tab2 k = ''queued''" for k
      using st2(2)[OF that] wf own by (auto simp: sqlite.state_of_save)
    then have "jobs_inv env (st\<lparr>js_jobs := tab2\<rparr>)"
      using assms(1) st2(1) by (auto simp: jobs_inv_def waiting_def)
    then show ?thesis unfolding tab by (simp add: jobs_inv_def waiting_def)
  qed
qed

lemma RetryJob_inv:
  assumes "jobs_inv env st" "jv_digest env' = jv_digest env"
  shows "jobs_inv env (snd (RetryJob env' jid st))"
proof (cases "GetJob jid (js_jobs st)")
  case (Some j)
  obtain n st1 where m: "ensureMetadata env' [trim_prefix (j_DedupeKey j) ''metadata:''] True st = (n, st1)"
    by fastforce
  have inv1: "jobs_inv env st1" using ensureMetadata_inv[OF assms(1)] m by (metis snd_conv)
  obtain r w tab where ret: "RunRetention (jv_gib env') (jv_retention env') (jv_now env')
      (js_world st) (js_jobs st) = (r, w, tab)" by (metis prod_cases3)
  note inv = SyncCatalog_inv[OF assms(1), of env'] QueueTitleRefresh_inv[OF assms(1), of env']
    QueueTrackerSearch_inv[OF assms] RunRetention_inv[OF assms(1) ret]
  show ?thesis
    using assms(1) inv inv1 Some unfolding RetryJob_def
    by (auto simp: m ret Let_def split: option.splits)
qed (use assms in \<open>simp add: RetryJob_def\<close>)

lemma retry_one_inv:
  assumes "jobs_inv env st" "jv_digest env' = jv_digest env" "own_key j"
  shows "jobs_inv env (retry_one env' waitingOnly j st)"
proof -
  have "jobs_inv env (save env' (j\<lparr>j_State := ''failed'', j_NextAttemptAt := None\<rparr>) st)"
    by (rule run_done[OF assms(1)]) (use assms(3) in \<open>simp_all add: own_key_def\<close>)
  from RetryJob_inv[OF this assms(2)] show ?thesis using assms(1) by (simp add: retry_one_def Let_def)
qed

lemma retryDueJobs_inv:
  assumes "jobs_inv env st" "jv_digest env' = jv_digest env"
  shows "jobs_inv env (retryDueJobs env' waitingOnly st)"
proof -
  have "\<forall>j\<in>set (ListDueJobs (jv_now env') 500 (js_jobs st)). own_key j"
    using assms(1) by (auto simp: ListDueJobs_def jobs_inv_def wf_jobs_def own_key_def dest: in_set_takeD)
  moreover have "jobs_inv env (fold (retry_one env' waitingOnly) js s)"
    if "\<forall>j\<in>set js. own_key j" "jobs_inv env s" for js s
    using that by (induction js arbitrary: s) (auto intro: retry_one_inv[OF _ assms(2)])
  ultimately show ?thesis using assms(1) by (simp add: retryDueJobs_def)
qed

section \<open>The service as a step relation\<close>

text \<open>
  Every operation of a running service, in any order: requests of clients, the ticks of
  the scheduler, and the runs of the workers, each with its own clock and outcome.
\<close>

inductive jobs_step :: "jobs_env \<Rightarrow> jobs_state \<Rightarrow> jobs_state \<Rightarrow> bool" for env where
  sync: "jobs_step env st (snd (SyncCatalog env' mode st))"
| search: "jv_digest env' = jv_digest env \<Longrightarrow> jobs_step env st (snd (QueueTrackerSearch env' q force st))"
| refresh: "jobs_step env st (snd (QueueTitleRefresh env' t q force st))"
| metadata: "jobs_step env st (snd (ensureMetadata env' ids force st))"
| retry: "jv_digest env' = jv_digest env \<Longrightarrow> jobs_step env st (snd (RetryJob env' jid st))"
| due: "jv_digest env' = jv_digest env \<Longrightarrow> jobs_step env st (retryDueJobs env' waitingOnly st)"
| run_sync: "js_syncs st = before @ (j, mode) # after \<Longrightarrow>
    jobs_step env st (runCatalogSync env' outcome j (st\<lparr>js_syncs := before @ after\<rparr>))"
| run_search: "js_searchQ st = q # qs \<Longrightarrow> jv_digest env' = jv_digest env \<Longrightarrow>
    jobs_step env st (runTrackerSearch env' err q (st\<lparr>js_searchQ := qs\<rparr>))"
| run_refresh: "js_refreshQ st = req # reqs \<Longrightarrow>
    jobs_step env st (runTitleRefresh env' outc req (st\<lparr>js_refreshQ := reqs\<rparr>))"
| run_metadata: "js_metaQ st = t # ts \<Longrightarrow>
    jobs_step env st (runMetadataRequest env' err t (st\<lparr>js_metaQ := ts\<rparr>))"

lemma jobs_step_inv: "jobs_step env st st' \<Longrightarrow> jobs_inv env st \<Longrightarrow> jobs_inv env st'"
  by (induction rule: jobs_step.induct)
    (auto intro: SyncCatalog_inv QueueTrackerSearch_inv QueueTitleRefresh_inv ensureMetadata_inv
      RetryJob_inv retryDueJobs_inv runCatalogSync_inv runTrackerSearch_inv runTitleRefresh_inv
      runMetadataRequest_inv)


definition sample_jobs_env :: jobs_env where
  "sample_jobs_env = \<lparr>jv_now = 7 * second, jv_digest = (\<lambda>q. q), jv_title = (\<lambda>_. None),
     jv_fresh = (\<lambda>_. False), jv_allowed = (\<lambda>_. True), jv_syncAge = (\<lambda>_. None), jv_gib = (\<lambda>_. []),
     jv_retention = sample_env sample_settings []\<rparr>"

definition sample_jobs :: jobs_state where
  "sample_jobs = \<lparr>js_jobs = [], js_refreshQ = [], js_searchQ = [], js_metaQ = [], js_pending = [],
     js_syncs = [], js_world = sample_world True True\<rparr>"

lemma sample_jobs_inv: "jobs_inv sample_jobs_env sample_jobs"
  by (simp add: jobs_inv_def sample_jobs_def wf_jobs_def sqlite.state_of_def GetJob_def)


subsection \<open>After a restart\<close>

text \<open>
  The channels of a new process are empty. What a restart finds in the table is fit for
  recovery when it has at most 256 rows and an interrupted title refresh still carries
  its query in the label.
\<close>

definition restart_state :: "jobs_state \<Rightarrow> bool" where
  "restart_state st \<longleftrightarrow> wf_jobs (js_jobs st) \<and> length (js_jobs st) \<le> queue_capacity
     \<and> js_refreshQ st = [] \<and> js_searchQ st = [] \<and> js_metaQ st = [] \<and> js_syncs st = []
     \<and> (\<forall>r\<in>set (js_jobs st). active_state (j_State r) \<and> j_Kind r = ''catalog-title-refresh'' \<longrightarrow>
          (\<exists>t q. j_ID r = refresh_key t \<and> j_Label r = ''Refresh all versions of '' @ q \<and> 3 \<le> rune_count (trim_space q)))"

lemma trim_prefix_append [simp]: "trim_prefix (p @ q) p = q"
  by (simp add: trim_prefix_def has_prefix_def)

lemma append_not_self: "p \<noteq> [] \<Longrightarrow> q \<noteq> p @ q"
  by simp

text \<open>Recovery row by row: the rows before are settled, the rows after are as they were.\<close>

lemma recover_one_step:
  assumes "wf_jobs (js_jobs st)" "GetJob (j_ID r) (js_jobs st) = Some r" "own_key r"
    and "length (js_refreshQ st) < queue_capacity"
    and "active_state (j_State r) \<and> j_Kind r = ''catalog-title-refresh'' \<longrightarrow>
      (\<exists>t q. j_ID r = refresh_key t \<and> j_Label r = ''Refresh all versions of '' @ q \<and> 3 \<le> rune_count (trim_space q))"
  shows "wf_jobs (js_jobs (recover_one env r st))
    \<and> (\<forall>k. k \<noteq> j_ID r \<longrightarrow> GetJob k (js_jobs (recover_one env r st)) = GetJob k (js_jobs st))
    \<and> (\<forall>r'. GetJob (j_ID r) (js_jobs (recover_one env r st)) = Some r' \<longrightarrow>
         j_State r' \<noteq> ''running'' \<and> (j_State r' = ''queued'' \<longrightarrow>
           j_ID r \<in> (refresh_key \<circ> fst) ` set (js_refreshQ (recover_one env r st))))
    \<and> length (js_refreshQ (recover_one env r st)) \<le> Suc (length (js_refreshQ st))
    \<and> set (js_refreshQ st) \<subseteq> set (js_refreshQ (recover_one env r st))"
proof (cases "active_state (j_State r)")
  case False
  then show ?thesis using assms by (auto simp: recover_one_def active_state_def)
next
  case active: True
  show ?thesis
  proof (cases "j_Kind r = ''catalog-title-refresh''")
    case False
    let ?f = "r\<lparr>j_State := ''failed'', j_Error := ''interrupted by server restart; safe to retry'',
        j_Retryable := True, j_NextAttemptAt := Some (jv_now env + hour), j_UpdatedAt := jv_now env\<rparr>"
    have own: "own_key ?f" using assms(3) by (simp add: own_key_def)
    have "recover_one env r st = save env ?f st" using active False by (simp add: recover_one_def)
    then show ?thesis using assms(1,2) own
      by (auto simp: sqlite.save_inv sqlite.lookup_save saved_over_def)
  next
    case True
    then obtain t q where tq: "j_ID r = refresh_key t" "j_Label r = ''Refresh all versions of '' @ q"
      "3 \<le> rune_count (trim_space q)" using assms(5) active by blast
    have key: "trim_prefix (j_DedupeKey r) ''catalog-title-refresh:'' = t"
      using assms(3) tq(1) by (simp only: own_key_def refresh_key_def trim_prefix_append)
    have lab: "trim_prefix (j_Label r) ''Refresh all versions of '' = q"
      unfolding tq(2) by (rule trim_prefix_append)
    have ne: "q \<noteq> j_Label r" unfolding tq(2) by simp
    let ?f = "r\<lparr>j_State := ''failed'', j_Error := ''category is excluded from discovery'', j_UpdatedAt := jv_now env\<rparr>"
    let ?q = "r\<lparr>j_State := ''queued'', j_Progress := 0, j_Error := [], j_UpdatedAt := jv_now env\<rparr>"
    have own: "own_key ?f" "own_key ?q" using assms(3) by (simp_all add: own_key_def)
    have "recover_one env r st = (if jv_title env t \<noteq> None \<and> \<not> jv_allowed env t then save env ?f st
        else (save env ?q st)\<lparr>js_refreshQ := js_refreshQ st @ [(t, q)]\<rparr>)"
      using active True key lab ne tq(3) assms(4) by (simp add: recover_one_def Let_def)
    then show ?thesis using assms(1,2) own tq(1)
      by (auto simp: sqlite.save_inv sqlite.lookup_save saved_over_def)
  qed
qed

definition settled :: "jobs_state \<Rightarrow> string \<Rightarrow> bool" where
  "settled st k \<longleftrightarrow> (\<forall>r. GetJob k (js_jobs st) = Some r \<longrightarrow> j_State r \<noteq> ''running''
     \<and> (j_State r = ''queued'' \<longrightarrow> k \<in> (refresh_key \<circ> fst) ` set (js_refreshQ st)))"

lemma recover_fold:
  assumes "wf_jobs (js_jobs st)" "distinct (map j_ID rs)"
    and "length (js_refreshQ st) + length rs \<le> queue_capacity"
    and "\<forall>r\<in>set rs. GetJob (j_ID r) (js_jobs st) = Some r \<and> own_key r
      \<and> (active_state (j_State r) \<and> j_Kind r = ''catalog-title-refresh'' \<longrightarrow>
          (\<exists>t q. j_ID r = refresh_key t \<and> j_Label r = ''Refresh all versions of '' @ q \<and> 3 \<le> rune_count (trim_space q)))"
  shows "let st' = fold (recover_one env) rs st in wf_jobs (js_jobs st')
    \<and> (\<forall>k. k \<notin> j_ID ` set rs \<longrightarrow> GetJob k (js_jobs st') = GetJob k (js_jobs st))
    \<and> (\<forall>k\<in>j_ID ` set rs. settled st' k)
    \<and> set (js_refreshQ st) \<subseteq> set (js_refreshQ st')
    \<and> length (js_refreshQ st') \<le> length (js_refreshQ st) + length rs"
  using assms
proof (induction rs arbitrary: st)
  case (Cons r rs)
  let ?s = "recover_one env r st" and ?st' = "fold (recover_one env) rs (recover_one env r st)"
  have "length (js_refreshQ st) < queue_capacity" using Cons.prems(3) by simp
  from recover_one_step[OF Cons.prems(1) _ _ this, of r env] Cons.prems(4)
  have step: "wf_jobs (js_jobs ?s)"
    "\<And>k. k \<noteq> j_ID r \<Longrightarrow> GetJob k (js_jobs ?s) = GetJob k (js_jobs st)"
    "settled ?s (j_ID r)" "length (js_refreshQ ?s) \<le> Suc (length (js_refreshQ st))"
    "set (js_refreshQ st) \<subseteq> set (js_refreshQ ?s)"
    by (auto simp: settled_def)
  have fresh: "j_ID r \<notin> j_ID ` set rs" using Cons.prems(2) by auto
  have ih: "wf_jobs (js_jobs ?st')"
    "\<And>k. k \<notin> j_ID ` set rs \<Longrightarrow> GetJob k (js_jobs ?st') = GetJob k (js_jobs ?s)"
    "\<And>k. k \<in> j_ID ` set rs \<Longrightarrow> settled ?st' k"
    "set (js_refreshQ ?s) \<subseteq> set (js_refreshQ ?st')"
    "length (js_refreshQ ?st') \<le> length (js_refreshQ ?s) + length rs"
  proof -
    have "\<forall>x\<in>set rs. GetJob (j_ID x) (js_jobs ?s) = Some x"
      using Cons.prems(4) step(2) fresh by (auto simp: image_iff)
    then have "let st' = fold (recover_one env) rs ?s in wf_jobs (js_jobs st')
      \<and> (\<forall>k. k \<notin> j_ID ` set rs \<longrightarrow> GetJob k (js_jobs st') = GetJob k (js_jobs ?s))
      \<and> (\<forall>k\<in>j_ID ` set rs. settled st' k)
      \<and> set (js_refreshQ ?s) \<subseteq> set (js_refreshQ st')
      \<and> length (js_refreshQ st') \<le> length (js_refreshQ ?s) + length rs"
      by (intro Cons.IH) (use Cons.prems step in auto)
    then show "wf_jobs (js_jobs ?st')"
      "\<And>k. k \<notin> j_ID ` set rs \<Longrightarrow> GetJob k (js_jobs ?st') = GetJob k (js_jobs ?s)"
      "\<And>k. k \<in> j_ID ` set rs \<Longrightarrow> settled ?st' k"
      "set (js_refreshQ ?s) \<subseteq> set (js_refreshQ ?st')"
      "length (js_refreshQ ?st') \<le> length (js_refreshQ ?s) + length rs"
      unfolding Let_def by blast+
  qed
  have "settled ?st' (j_ID r)"
    using step(3) image_mono[OF ih(4), of "refresh_key \<circ> fst"]
    unfolding settled_def ih(2)[OF fresh] by blast
  then show ?case using ih step by (auto simp: Let_def)
qed simp

lemma recover_one_queues [simp]:
  "js_searchQ (recover_one env r st) = js_searchQ st" "js_metaQ (recover_one env r st) = js_metaQ st"
  "js_syncs (recover_one env r st) = js_syncs st"
  by (simp_all add: recover_one_def Let_def)

lemma recover_fold_queues [simp]:
  "js_searchQ (fold (recover_one env) rs st) = js_searchQ st"
  "js_metaQ (fold (recover_one env) rs st) = js_metaQ st"
  "js_syncs (fold (recover_one env) rs st) = js_syncs st"
  by (induction rs arbitrary: st) simp_all

text \<open>
  Recovery after a restart leaves no job hanging: from a table fit for recovery
  it ends in a state where no job is running any more, every queued one has its request in
  a channel, and the invariant of the running service holds.
\<close>

theorem recovery_settles:
  assumes "restart_state st"
  shows "jobs_inv env (recoverInterruptedJobs env st)
    \<and> (\<forall>r\<in>set (js_jobs (recoverInterruptedJobs env st)). j_State r \<noteq> ''running'')"
proof -
  let ?tab = "js_jobs st" and ?rs = "ListJobs 500 (js_jobs st)"
  let ?st' = "recoverInterruptedJobs env st"
  have r: "wf_jobs ?tab" "length ?tab \<le> 256" "js_refreshQ st = []"
    using assms by (auto simp: restart_state_def queue_capacity_def)
  then have rs: "?rs = sort_key (\<lambda>r. (state_rank (j_State r), - j_UpdatedAt r)) ?tab"
    by (simp add: ListJobs_def)
  then have set: "set ?rs = set ?tab" and len: "length ?rs = length ?tab" by simp_all
  have dist: "distinct (map j_ID ?rs)"
    using r(1) unfolding rs by (simp add: wf_jobs_def distinct_map)
  have get: "GetJob (j_ID x) ?tab = Some x" if "x \<in> set ?tab" for x
  proof -
    have "GetJob (j_ID x) ?tab \<noteq> None" using that GetJob_none by metis
    then obtain y where y: "GetJob (j_ID x) ?tab = Some y" by blast
    from GetJob_some[OF this] have "y = x" using that r(1) by (auto simp: wf_jobs_def distinct_map inj_on_def)
    then show ?thesis using y by simp
  qed
  have all: "let st' = fold (recover_one env) ?rs st in wf_jobs (js_jobs st')
    \<and> (\<forall>k. k \<notin> j_ID ` set ?rs \<longrightarrow> GetJob k (js_jobs st') = GetJob k ?tab)
    \<and> (\<forall>k\<in>j_ID ` set ?rs. settled st' k)
    \<and> set (js_refreshQ st) \<subseteq> set (js_refreshQ st')
    \<and> length (js_refreshQ st') \<le> length (js_refreshQ st) + length ?rs"
  proof (rule recover_fold[OF r(1) dist])
    show "length (js_refreshQ st) + length ?rs \<le> queue_capacity"
      using r(2,3) len by (simp add: queue_capacity_def)
    show "\<forall>r\<in>set ?rs. GetJob (j_ID r) ?tab = Some r \<and> own_key r
      \<and> (active_state (j_State r) \<and> j_Kind r = ''catalog-title-refresh'' \<longrightarrow>
          (\<exists>t q. j_ID r = refresh_key t \<and> j_Label r = ''Refresh all versions of '' @ q \<and> 3 \<le> rune_count (trim_space q)))"
      using assms get set by (auto simp: restart_state_def wf_jobs_def own_key_def)
  qed
  have st': "?st' = fold (recover_one env) ?rs st" by (simp add: recoverInterruptedJobs_def)
  from all have wf': "wf_jobs (js_jobs ?st')" and qlen: "length (js_refreshQ ?st') \<le> 256"
    using r(2,3) len unfolding st' Let_def by simp_all
  have settled: "settled ?st' k" for k
  proof (cases "k \<in> j_ID ` set ?rs")
    case True
    then show ?thesis using all unfolding st' Let_def by blast
  next
    case False
    then have "GetJob k ?tab = None" using set by (auto simp: GetJob_none)
    then show ?thesis using all False unfolding st' Let_def by (simp add: settled_def)
  qed
  have "jobs_inv env ?st'"
    using wf' settled qlen assms
    by (auto simp: jobs_inv_def restart_state_def recoverInterruptedJobs_def waiting_def settled_def
        sqlite.state_of_def queue_capacity_def split: option.splits)
  moreover have "j_State x \<noteq> ''running''" if "x \<in> set (js_jobs ?st')" for x
  proof -
    have "GetJob (j_ID x) (js_jobs ?st') \<noteq> None" using that GetJob_none by metis
    then obtain y where y: "GetJob (j_ID x) (js_jobs ?st') = Some y" by blast
    from GetJob_some[OF this] have "y = x" using that wf' by (auto simp: wf_jobs_def distinct_map inj_on_def)
    then show ?thesis using y settled[of "j_ID x"] by (auto simp: settled_def)
  qed
  ultimately show ?thesis by blast
qed

theorem recovery_settles_witness:
  "let j = (new_job ''tracker-search:dune'' ''tracker-search'' ''Search FileList for dune'' 1 5)\<lparr>j_State := ''running''\<rparr>;
       st = recoverInterruptedJobs sample_jobs_env (sample_jobs\<lparr>js_jobs := [j]\<rparr>) in
     jobs_inv sample_jobs_env st \<and> map j_State (js_jobs st) = [''failed'']"
proof -
  let ?j = "(new_job ''tracker-search:dune'' ''tracker-search'' ''Search FileList for dune'' 1 5)\<lparr>j_State := ''running''\<rparr>"
  have "restart_state (sample_jobs\<lparr>js_jobs := [?j]\<rparr>)"
    by (simp add: restart_state_def sample_jobs_def wf_jobs_def new_job_def queue_capacity_def)
  moreover have "map j_State (js_jobs (recoverInterruptedJobs sample_jobs_env
      (sample_jobs\<lparr>js_jobs := [?j]\<rparr>))) = [''failed'']" by code_simp
  ultimately show ?thesis using recovery_settles by (simp add: Let_def)
qed

end
