(* ===== verification/Portal.thy ===== *)
theory Portal
  imports Domain
begin

text \<open>
  The portal integration, \<open>internal/application/portal/hub.go\<close> and \<open>types.go\<close>: the
  refresh cycle, the gates that discard superseded responses, the commit with its
  change detection, donor expiry, the account operations and the event loop of \<open>Run\<close>.

  The upstream client is outside the repository's control: its answers are inputs. A
  refresh takes its copy of the state when it begins and commits the whole candidate when
  it ends, so a cycle in flight is a value of its own and other operations may come in
  between.
\<close>

section \<open>Data\<close>

record link =
  ln_ID :: int64
  ln_Title :: string
  ln_URL :: string
  ln_Description :: string

record snapshot =
  sn_AccountsEnabled :: bool
  sn_AdsEnabled :: bool
  sn_Donor :: bool
  sn_Links :: "link list"

record promotion =
  pr_ID :: string
  pr_Provider :: string
  pr_Title :: string
  pr_Text :: string
  pr_Image :: string
  pr_ScreenTime :: int

record binary =
  bi_Platform :: string
  bi_DownloadURL :: string

record notice =
  no_Version :: string
  no_Notes :: string
  no_ReleasedAt :: gotime
  no_DownloadURL :: string
  no_Binaries :: "binary list"

record account_status =
  as_Donor :: bool
  as_DonorUntil :: "gotime option"

record public_settings =
  ps_AccountsEnabled :: bool
  ps_AdsEnabled :: bool

datatype portal_error = ErrCredentials | ErrUnavailable | ErrNoticeAbsent
  | ErrAccountsUnavailable | ErrPromotionsUnavailable | ErrSuperseded | ErrContext | OtherError string

record hub_state =
  hs_accountsEnabled :: bool
  hs_adsEnabled :: bool
  hs_promotionLive :: bool
  hs_donor :: bool
  hs_donorUntil :: gotime
  hs_links :: "link list"
  hs_promotions :: "promotion list"

text \<open>\<open>hub_cycles\<close> are the refresh cycles in flight, each with the generation and the
  state it began with; \<open>hub_events\<close> are the snapshots published to the sink.\<close>

record hub =
  hub_state :: hub_state
  hub_generation :: nat
  hub_lastKey :: string
  hub_notice :: notice
  hub_hasNotice :: bool
  hub_events :: "snapshot list"
  hub_cycles :: "(nat \<times> hub_state) list"

section \<open>Reading the state\<close>

definition Snapshot :: "hub \<Rightarrow> snapshot" where
  "Snapshot h = (let s = hub_state h in
     \<lparr>sn_AccountsEnabled = hs_accountsEnabled s, sn_AdsEnabled = (hs_adsEnabled s \<and> hs_promotionLive s),
      sn_Donor = hs_donor s, sn_Links = hs_links s\<rparr>)"

definition Promotions :: "hub \<Rightarrow> promotion list" where
  "Promotions h = hs_promotions (hub_state h)"

definition Notice :: "hub \<Rightarrow> notice \<times> bool" where
  "Notice h = (hub_notice h, hub_hasNotice h)"

definition zero_notice :: notice where
  "zero_notice = \<lparr>no_Version = [], no_Notes = [], no_ReleasedAt = 0, no_DownloadURL = [], no_Binaries = []\<rparr>"

definition RefreshNotice ::
  "portal_error + notice \<Rightarrow> hub \<Rightarrow> (portal_error + (notice \<times> bool)) \<times> hub" where
  "RefreshNotice answer h =
     (let h0 = h\<lparr>hub_notice := zero_notice, hub_hasNotice := False\<rparr> in
      case answer of
        Inl e \<Rightarrow> (if e = ErrNoticeAbsent then Inr (zero_notice, False) else Inl e, h0)
      | Inr n \<Rightarrow> (Inr (n, True), h0\<lparr>hub_notice := n, hub_hasNotice := True\<rparr>))"

section \<open>Commit\<close>

definition snapshotChanged :: "hub_state \<Rightarrow> hub_state \<Rightarrow> bool" where
  "snapshotChanged before after \<longleftrightarrow>
     hs_accountsEnabled before \<noteq> hs_accountsEnabled after \<or> hs_adsEnabled before \<noteq> hs_adsEnabled after
     \<or> hs_promotionLive before \<noteq> hs_promotionLive after \<or> hs_donor before \<noteq> hs_donor after
     \<or> hs_donorUntil before \<noteq> hs_donorUntil after \<or> hs_links before \<noteq> hs_links after"

definition emit :: "hub \<Rightarrow> hub" where
  "emit h = h\<lparr>hub_events := hub_events h @ [Snapshot h]\<rparr>"

definition commit :: "hub_state \<Rightarrow> hub \<Rightarrow> hub" where
  "commit nxt h =
     (let h1 = h\<lparr>hub_state := nxt\<rparr> in
      if snapshotChanged (hub_state h) nxt then emit h1 else h1)"

definition noteSettings :: "string \<Rightarrow> hub \<Rightarrow> bool \<times> hub" where
  "noteSettings key h =
     (if key = hub_lastKey h then (False, h)
      else (True, h\<lparr>hub_lastKey := key, hub_generation := hub_generation h + 1\<rparr>))"

definition gate :: "bool \<Rightarrow> nat \<Rightarrow> hub \<Rightarrow> portal_error option" where
  "gate ctxDone g h =
     (if ctxDone then Some ErrContext
      else if hub_generation h \<noteq> g then Some ErrSuperseded else None)"

section \<open>The refresh cycle\<close>

text \<open>
  The answers of one cycle. \<open>an_gate n\<close> is what the gate after the \<open>n\<close>-th call found
  (settings, links, account status, availability or delivery, delivery).
\<close>

record answers =
  an_settings :: "portal_error + public_settings"
  an_links :: "portal_error + link list"
  an_status :: "portal_error + account_status"
  an_available :: "portal_error + bool"
  an_promotions :: "portal_error + promotion list"
  an_gate :: "nat \<Rightarrow> portal_error option"
  an_now :: gotime

text \<open>The outcome of a cycle: discarded at a gate, or a candidate with the errors joined.\<close>

datatype cycle = Discarded portal_error | Candidate hub_state "portal_error list"

definition no_donor :: "hub_state \<Rightarrow> hub_state" where
  "no_donor s = s\<lparr>hs_donor := False, hs_donorUntil := 0\<rparr>"

definition settings_failed :: "hub_state \<Rightarrow> hub_state" where
  "settings_failed s = (no_donor s)\<lparr>hs_accountsEnabled := False, hs_adsEnabled := False,
     hs_promotionLive := False, hs_promotions := []\<rparr>"

definition apply_links :: "portal_error + link list \<Rightarrow> hub_state \<Rightarrow> hub_state \<times> portal_error list" where
  "apply_links r s = (case r of
       Inl e \<Rightarrow> (s\<lparr>hs_links := []\<rparr>, [e])
     | Inr ls \<Rightarrow> (s\<lparr>hs_links := ls\<rparr>, []))"

definition apply_status ::
  "gotime \<Rightarrow> portal_error + account_status \<Rightarrow> hub_state \<Rightarrow> hub_state \<times> portal_error list" where
  "apply_status now r s = (case r of
       Inr st \<Rightarrow>
         (if as_Donor st then
            (case as_DonorUntil st of
               Some u \<Rightarrow> (if now < u then s\<lparr>hs_donor := True, hs_donorUntil := u\<rparr> else no_donor s)
             | None \<Rightarrow> (no_donor s)\<lparr>hs_donor := True\<rparr>)
          else no_donor s, [])
     | Inl e \<Rightarrow>
         if e = ErrCredentials then (no_donor s, [])
         else ((no_donor s)\<lparr>hs_accountsEnabled := False\<rparr>, [e]))"

definition deliver :: "portal_error + promotion list \<Rightarrow> hub_state \<Rightarrow> hub_state \<times> portal_error list" where
  "deliver r s = (case r of
       Inl e \<Rightarrow> (s\<lparr>hs_promotions := [], hs_promotionLive := False\<rparr>, [e])
     | Inr ps \<Rightarrow> (s\<lparr>hs_promotions := ps, hs_promotionLive := True\<rparr>, []))"

text \<open>The last part of \<open>refresh\<close>: the promotion slot.\<close>

definition refresh_promotions :: "answers \<Rightarrow> bool \<Rightarrow> hub_state \<Rightarrow> portal_error list \<Rightarrow> cycle" where
  "refresh_promotions a adsEnabled s errs =
     (if adsEnabled \<and> \<not> hs_donor s \<and> hs_promotionLive s then
        (case an_gate a 4 of
           Some e \<Rightarrow> Discarded e
         | None \<Rightarrow> (let (s', es) = deliver (an_promotions a) s in Candidate s' (errs @ es)))
      else if adsEnabled \<and> \<not> hs_donor s then
        (case an_gate a 4 of
           Some e \<Rightarrow> Discarded e
         | None \<Rightarrow>
             (case an_available a of
                Inl e \<Rightarrow> Candidate (s\<lparr>hs_promotions := []\<rparr>) (errs @ [e])
              | Inr False \<Rightarrow> Candidate (s\<lparr>hs_promotions := []\<rparr>) errs
              | Inr True \<Rightarrow>
                  (case an_gate a 5 of
                     Some e \<Rightarrow> Discarded e
                   | None \<Rightarrow> (let (s', es) = deliver (an_promotions a) s in Candidate s' (errs @ es)))))
      else Candidate (s\<lparr>hs_promotions := [], hs_promotionLive := False\<rparr>) errs)"

definition refresh_from :: "answers \<Rightarrow> hub_state \<Rightarrow> cycle" where
  "refresh_from a s0 =
     (case an_gate a 1 of
        Some e \<Rightarrow> Discarded e
      | None \<Rightarrow>
          (case an_settings a of
             Inl e \<Rightarrow> Candidate (settings_failed s0) [e]
           | Inr st \<Rightarrow>
               (let s1 = s0\<lparr>hs_accountsEnabled := ps_AccountsEnabled st, hs_adsEnabled := ps_AdsEnabled st\<rparr> in
                case an_gate a 2 of
                  Some e \<Rightarrow> Discarded e
                | None \<Rightarrow>
                    (let (s2, e2) = apply_links (an_links a) s1 in
                     if ps_AccountsEnabled st then
                       (case an_gate a 3 of
                          Some e \<Rightarrow> Discarded e
                        | None \<Rightarrow>
                            (let (s3, e3) = apply_status (an_now a) (an_status a) s2 in
                             refresh_promotions a (ps_AdsEnabled st) s3 (e2 @ e3)))
                     else refresh_promotions a (ps_AdsEnabled st) (no_donor s2) e2))))"

definition begin_refresh :: "string \<Rightarrow> hub \<Rightarrow> hub" where
  "begin_refresh key h =
     (let h1 = snd (noteSettings key h) in
      h1\<lparr>hub_cycles := hub_cycles h1 @ [(hub_generation h1, hub_state h1)]\<rparr>)"

definition end_refresh :: "cycle \<Rightarrow> hub \<Rightarrow> hub \<times> portal_error list" where
  "end_refresh c h = (case c of Discarded e \<Rightarrow> (h, [e]) | Candidate s errs \<Rightarrow> (commit s h, errs))"

section \<open>Donor expiry\<close>

definition donorDelay :: "gotime \<Rightarrow> hub \<Rightarrow> int option" where
  "donorDelay now h =
     (let s = hub_state h in
      if \<not> hs_donor s \<or> hs_donorUntil s = 0 then None
      else let delay = hs_donorUntil s - now in if delay \<le> 0 then None else Some delay)"

definition expireDonor :: "gotime \<Rightarrow> hub \<Rightarrow> hub" where
  "expireDonor now h =
     (let s = hub_state h in
      if hs_donor s \<and> hs_donorUntil s \<noteq> 0 \<and> \<not> now < hs_donorUntil s
      then emit (h\<lparr>hub_state := no_donor s\<rparr>) else h)"

section \<open>Account operations and clicks\<close>

definition accountGateOpen :: "hub \<Rightarrow> bool" where
  "accountGateOpen h = hs_accountsEnabled (hub_state h)"

definition promotionsLive :: "hub \<Rightarrow> bool" where
  "promotionsLive h = (hs_adsEnabled (hub_state h) \<and> hs_promotionLive (hub_state h))"

definition observeAccountOutcome :: "portal_error option \<Rightarrow> hub \<Rightarrow> hub" where
  "observeAccountOutcome err h =
     (if err \<noteq> Some ErrUnavailable then h
      else
        let s = hub_state h; changed = (hs_accountsEnabled s \<or> hs_donor s);
            h1 = h\<lparr>hub_state := (no_donor s)\<lparr>hs_accountsEnabled := False\<rparr>\<rparr> in
        if changed then emit h1 else h1)"

definition error_of :: "portal_error + 'a \<Rightarrow> portal_error option" where
  "error_of r = (case r of Inl e \<Rightarrow> Some e | Inr _ \<Rightarrow> None)"

text \<open>
  The gated operations \<open>AccountStatus\<close>, \<open>Login\<close>, \<open>Register\<close> and \<open>Me\<close> have one shape:
  the gate, the upstream call, the fold of its outcome into the gate. The result counts
  whether upstream was called.
\<close>

definition account_call :: "portal_error + 'a \<Rightarrow> hub \<Rightarrow> (portal_error + 'a) \<times> bool \<times> hub" where
  "account_call answer h =
     (if \<not> accountGateOpen h then (Inl ErrAccountsUnavailable, False, h)
      else (answer, True, observeAccountOutcome (error_of answer) h))"

definition Click :: "portal_error + string \<Rightarrow> hub \<Rightarrow> (portal_error + string) \<times> bool" where
  "Click answer h =
     (if \<not> promotionsLive h then (Inl ErrPromotionsUnavailable, False) else (answer, True))"

section \<open>The hub as a step relation\<close>

text \<open>
  The gates of a cycle are evaluated against the hub while the cycle runs, so a cycle that
  ends undiscarded may still commit after the generation moved behind its last gate; the
  relation leaves the gates' answers free.
\<close>

inductive hub_step :: "hub \<Rightarrow> hub \<Rightarrow> bool" where
  start: "hub_step h (begin_refresh key h)"
| finish: "hub_cycles h = before @ (g, s0) # after \<Longrightarrow>
    hub_step h (fst (end_refresh (refresh_from a s0) (h\<lparr>hub_cycles := before @ after\<rparr>)))"
| note_settings: "hub_step h (snd (noteSettings key h))"
| expire: "hub_step h (expireDonor now h)"
| fetch_notice: "hub_step h (snd (RefreshNotice r h))"
| account: "hub_step h (observeAccountOutcome err h)"

inductive_cases hub_stepE: "hub_step h h'"

definition hub_inv :: "hub_state \<Rightarrow> bool" where
  "hub_inv s \<longleftrightarrow> (hs_donor s \<longrightarrow> \<not> hs_promotionLive s \<and> hs_accountsEnabled s)
     \<and> (\<not> hs_promotionLive s \<longrightarrow> hs_promotions s = [])
     \<and> (\<not> hs_adsEnabled s \<longrightarrow> \<not> hs_promotionLive s)
     \<and> (hs_donorUntil s \<noteq> 0 \<longrightarrow> hs_donor s)"

definition hub_ok :: "hub \<Rightarrow> bool" where
  "hub_ok h \<longleftrightarrow> hub_inv (hub_state h) \<and> (\<forall>c\<in>set (hub_cycles h). hub_inv (snd c))"

definition cycle_ok :: "cycle \<Rightarrow> bool" where
  "cycle_ok c \<longleftrightarrow> (case c of Discarded _ \<Rightarrow> True | Candidate s _ \<Rightarrow> hub_inv s)"

lemma refresh_promotions_inv:
  assumes "hs_adsEnabled s = ads" "hs_donor s \<longrightarrow> hs_accountsEnabled s"
    "hs_donorUntil s \<noteq> 0 \<longrightarrow> hs_donor s"
  shows "cycle_ok (refresh_promotions a ads s errs)"
  using assms
  by (auto simp: refresh_promotions_def cycle_ok_def hub_inv_def deliver_def Let_def
      split: option.splits sum.splits bool.splits)

lemma refresh_from_inv: "cycle_ok (refresh_from a s0)"
proof -
  have links: "hs_adsEnabled (fst (apply_links r s)) = hs_adsEnabled s
      \<and> hs_accountsEnabled (fst (apply_links r s)) = hs_accountsEnabled s
      \<and> hs_donor (fst (apply_links r s)) = hs_donor s
      \<and> hs_donorUntil (fst (apply_links r s)) = hs_donorUntil s" for r s
    by (simp add: apply_links_def split: sum.splits)
  have status: "hs_adsEnabled (fst (apply_status now r s)) = hs_adsEnabled s
      \<and> (hs_accountsEnabled s \<longrightarrow> hs_donor (fst (apply_status now r s)) \<longrightarrow> hs_accountsEnabled (fst (apply_status now r s)))
      \<and> (hs_donorUntil (fst (apply_status now r s)) \<noteq> 0 \<longrightarrow> hs_donor (fst (apply_status now r s)))" for now r s
    by (auto simp: apply_status_def no_donor_def split: sum.splits option.splits)
  have failed: "hub_inv (settings_failed s)" for s
    by (simp add: hub_inv_def settings_failed_def no_donor_def)
  show ?thesis
  proof (cases "an_gate a 1 \<noteq> None \<or> (\<exists>e. an_settings a = Inl e) \<or> an_gate a 2 \<noteq> None")
    case True
    then show ?thesis using failed
      by (auto simp: refresh_from_def cycle_ok_def Let_def split: option.splits sum.splits)
  next
    case False
    then obtain st where st: "an_settings a = Inr st" and g: "an_gate a 1 = None" "an_gate a 2 = None"
      by (cases "an_settings a") auto
    let ?s1 = "s0\<lparr>hs_accountsEnabled := ps_AccountsEnabled st, hs_adsEnabled := ps_AdsEnabled st\<rparr>"
    let ?s2 = "fst (apply_links (an_links a) ?s1)"
    show ?thesis
    proof (cases "ps_AccountsEnabled st")
      case True
      let ?s3 = "fst (apply_status (an_now a) (an_status a) ?s2)"
      have "cycle_ok (refresh_promotions a (ps_AdsEnabled st) ?s3 errs)" for errs
        by (rule refresh_promotions_inv)
          (use status[of "an_now a" "an_status a" ?s2] links[of "an_links a" ?s1] True in auto)
      then show ?thesis using st g True
        by (auto simp: refresh_from_def cycle_ok_def Let_def split_beta split: option.splits)
    next
      case False
      have "cycle_ok (refresh_promotions a (ps_AdsEnabled st) (no_donor ?s2) errs)" for errs
        by (rule refresh_promotions_inv) (use links[of "an_links a" ?s1] in \<open>auto simp: no_donor_def\<close>)
      then show ?thesis using st g False by (simp add: refresh_from_def Let_def split_beta)
    qed
  qed
qed

lemma emit_simps [simp]:
  "hub_state (emit h) = hub_state h" "hub_cycles (emit h) = hub_cycles h"
  "hub_generation (emit h) = hub_generation h" "hub_lastKey (emit h) = hub_lastKey h"
  by (simp_all add: emit_def)

lemma commit_simps [simp]: "hub_state (commit s h) = s" "hub_cycles (commit s h) = hub_cycles h"
  by (simp_all add: commit_def Let_def)

lemma noteSettings_simps [simp]:
  "hub_state (snd (noteSettings key h)) = hub_state h" "hub_cycles (snd (noteSettings key h)) = hub_cycles h"
  by (simp_all add: noteSettings_def)

lemma hub_inv_no_donor: "hub_inv s \<Longrightarrow> hub_inv (no_donor s)"
  by (simp add: hub_inv_def no_donor_def)

lemma hub_step_ok: "hub_step h h' \<Longrightarrow> hub_ok h \<Longrightarrow> hub_ok h'"
proof (induction rule: hub_step.induct)
  case (finish h before g s0 after a)
  then show ?case using refresh_from_inv[of a s0]
    by (auto simp: hub_ok_def end_refresh_def cycle_ok_def split: cycle.splits)
next
  case (account h err)
  then show ?case
    by (auto simp: hub_ok_def observeAccountOutcome_def Let_def hub_inv_def no_donor_def)
next
  case (expire h now)
  then show ?case by (auto simp: hub_ok_def expireDonor_def Let_def hub_inv_no_donor)
next
  case (fetch_notice h r)
  then show ?case by (auto simp: hub_ok_def RefreshNotice_def Let_def split: sum.splits)
qed (auto simp: hub_ok_def begin_refresh_def Let_def)

text \<open>
  Property C9. A donor household never sees a promotion. In every state the hub reaches,
  whatever operations run between the start and the commit of a refresh: while the
  snapshot shows a donor, it shows no slot, no creative is cached and a click is refused;
  and an absent slot never has cached creatives, so nothing is delivered from it.
\<close>

theorem donor_sees_no_promotion:
  assumes "hub_step\<^sup>*\<^sup>* h h'" and "hub_ok h"
  shows "(sn_Donor (Snapshot h') \<longrightarrow> \<not> sn_AdsEnabled (Snapshot h') \<and> Promotions h' = []
            \<and> Click r h' = (Inl ErrPromotionsUnavailable, False) \<and> sn_AccountsEnabled (Snapshot h'))
    \<and> (\<not> sn_AdsEnabled (Snapshot h') \<longrightarrow> Promotions h' = [])"
proof -
  have "hub_ok h'" using assms by (induction rule: rtranclp_induct) (auto intro: hub_step_ok)
  then show ?thesis
    by (auto simp: hub_ok_def hub_inv_def Snapshot_def Promotions_def Click_def promotionsLive_def Let_def)
qed

definition new_hub :: "string \<Rightarrow> hub" where
  "new_hub key = \<lparr>hub_state = \<lparr>hs_accountsEnabled = False, hs_adsEnabled = False, hs_promotionLive = False,
       hs_donor = False, hs_donorUntil = 0, hs_links = [], hs_promotions = []\<rparr>,
     hub_generation = 0, hub_lastKey = key, hub_notice = zero_notice, hub_hasNotice = False,
     hub_events = [], hub_cycles = []\<rparr>"

lemma new_hub_ok: "hub_ok (new_hub key)"
  by (simp add: hub_ok_def hub_inv_def new_hub_def)

definition sample_answers :: "gotime option \<Rightarrow> answers" where
  "sample_answers until = \<lparr>an_settings = Inr \<lparr>ps_AccountsEnabled = True, ps_AdsEnabled = True\<rparr>,
     an_links = Inl ErrUnavailable, an_status = Inr \<lparr>as_Donor = True, as_DonorUntil = until\<rparr>,
     an_available = Inr True, an_promotions = Inr [], an_gate = (\<lambda>_. None), an_now = 100\<rparr>"

theorem donor_sees_no_promotion_witness:
  "let h = fst (end_refresh (refresh_from (sample_answers (Some 200)) (hub_state (new_hub ''k''))) (new_hub ''k'')) in
     sn_Donor (Snapshot h) \<and> \<not> sn_AdsEnabled (Snapshot h) \<and> Promotions h = []"
proof -
  let ?h0 = "new_hub ''k''"
  let ?h1 = "begin_refresh ''k'' ?h0"
  let ?h2 = "fst (end_refresh (refresh_from (sample_answers (Some 200)) (hub_state ?h0)) ?h0)"
  have c: "hub_cycles ?h1 = [] @ (0, hub_state ?h0) # []" "?h1\<lparr>hub_cycles := [] @ []\<rparr> = ?h0"
    by (simp_all add: begin_refresh_def noteSettings_def new_hub_def Let_def)
  have "hub_step ?h0 ?h1" by (rule hub_step.start)
  moreover have "hub_step ?h1 ?h2" using hub_step.finish[OF c(1), of "sample_answers (Some 200)"] unfolding c(2) .
  ultimately have "hub_step\<^sup>*\<^sup>* ?h0 ?h2" by (meson r_into_rtranclp rtranclp_trans)
  from donor_sees_no_promotion[OF this new_hub_ok] have
    "sn_Donor (Snapshot ?h2) \<longrightarrow> \<not> sn_AdsEnabled (Snapshot ?h2) \<and> Promotions ?h2 = []" by blast
  moreover have "sn_Donor (Snapshot ?h2)" by code_simp
  ultimately show ?thesis by (simp add: Let_def)
qed

section \<open>Surfaces fail independently\<close>

text \<open>\<open>with_links ls errs c\<close>: the cycle \<open>c\<close> over other links, with earlier errors in front.\<close>

definition with_links :: "link list \<Rightarrow> portal_error list \<Rightarrow> cycle \<Rightarrow> cycle" where
  "with_links ls errs c = (case c of Discarded e \<Rightarrow> Discarded e
     | Candidate s es \<Rightarrow> Candidate (s\<lparr>hs_links := ls\<rparr>) (errs @ es))"

lemma refresh_promotions_links:
  "refresh_promotions (a\<lparr>an_links := r\<rparr>) ads (s\<lparr>hs_links := ls\<rparr>) (errs @ es) =
     with_links ls errs (refresh_promotions a ads s es)"
  by (auto simp: refresh_promotions_def deliver_def with_links_def Let_def
      split: option.splits sum.splits bool.splits)

lemma apply_status_links:
  "apply_status now r (s\<lparr>hs_links := ls\<rparr>) =
     (fst (apply_status now r s)\<lparr>hs_links := ls\<rparr>, snd (apply_status now r s))"
  by (auto simp: apply_status_def no_donor_def split: sum.splits option.splits)

lemma apply_links_eq:
  "apply_links r s = (s\<lparr>hs_links := (case r of Inl _ \<Rightarrow> [] | Inr ls \<Rightarrow> ls)\<rparr>,
     (case r of Inl e \<Rightarrow> [e] | Inr _ \<Rightarrow> []))"
  by (simp add: apply_links_def split: sum.splits)

text \<open>The cycle behind a successful settings call, with no links at all.\<close>

definition rest_cycle :: "answers \<Rightarrow> public_settings \<Rightarrow> hub_state \<Rightarrow> cycle" where
  "rest_cycle a st s =
     (if ps_AccountsEnabled st then
        (case an_gate a 3 of
           Some e \<Rightarrow> Discarded e
         | None \<Rightarrow> refresh_promotions a (ps_AdsEnabled st) (fst (apply_status (an_now a) (an_status a) s))
             (snd (apply_status (an_now a) (an_status a) s)))
      else refresh_promotions a (ps_AdsEnabled st) (no_donor s) [])"

lemma refresh_from_rest:
  assumes "an_gate a 1 = None" "an_settings a = Inr st" "an_gate a 2 = None"
  shows "refresh_from (a\<lparr>an_links := r\<rparr>) s0 =
    with_links (case r of Inl _ \<Rightarrow> [] | Inr ls \<Rightarrow> ls) (case r of Inl e \<Rightarrow> [e] | Inr _ \<Rightarrow> [])
      (rest_cycle a st (s0\<lparr>hs_accountsEnabled := ps_AccountsEnabled st, hs_adsEnabled := ps_AdsEnabled st\<rparr>))"
proof -
  let ?ls = "case r of Inl _ \<Rightarrow> [] | Inr ls \<Rightarrow> ls" and ?e = "case r of Inl e \<Rightarrow> [e] | Inr _ \<Rightarrow> []"
  have nd: "no_donor (s\<lparr>hs_links := ls\<rparr>) = (no_donor s)\<lparr>hs_links := ls\<rparr>" for s ls
    by (simp add: no_donor_def)
  show ?thesis
    using assms refresh_promotions_links[where a = a and r = r and ls = ?ls and errs = ?e]
      refresh_promotions_links[where a = a and r = r and ls = ?ls and errs = ?e and es = "[]"]
    by (simp add: refresh_from_def Let_def split_beta apply_links_eq apply_status_links rest_cycle_def nd
        with_links_def split: option.splits)
qed

text \<open>
  The surfaces of a refresh are independent: two cycles whose answers differ
  only in the links end alike, in everything but the links; in particular a failed links
  fetch empties the links and changes neither accounts, donor nor promotions.
\<close>

theorem links_independent:
  assumes "refresh_from a s0 = Candidate s errs"
  shows "\<exists>s' errs'. refresh_from (a\<lparr>an_links := r\<rparr>) s0 = Candidate s' errs'
    \<and> s'\<lparr>hs_links := []\<rparr> = s\<lparr>hs_links := []\<rparr>
    \<and> (\<forall>st. an_settings a = Inr st \<longrightarrow> hs_links s' = (case r of Inl _ \<Rightarrow> [] | Inr ls \<Rightarrow> ls))"
proof (cases "an_settings a")
  case (Inl e)
  with assms show ?thesis by (auto simp: refresh_from_def split: option.splits)
next
  case (Inr st)
  let ?s1 = "s0\<lparr>hs_accountsEnabled := ps_AccountsEnabled st, hs_adsEnabled := ps_AdsEnabled st\<rparr>"
  from assms Inr have g: "an_gate a 1 = None" "an_gate a 2 = None"
    by (auto simp: refresh_from_def Let_def split: option.splits)
  have same: "a\<lparr>an_links := an_links a\<rparr> = a" by simp
  obtain t es where rest: "rest_cycle a st ?s1 = Candidate t es" "s\<lparr>hs_links := []\<rparr> = t\<lparr>hs_links := []\<rparr>"
    using assms refresh_from_rest[OF g(1) Inr g(2), of "an_links a" s0] unfolding same
    by (auto simp: with_links_def split: cycle.splits)
  then show ?thesis using refresh_from_rest[OF g(1) Inr g(2), of r s0] Inr by (simp add: with_links_def)
qed

theorem links_independent_witness:
  "\<exists>s errs. refresh_from ((sample_answers None)\<lparr>an_links := Inr [\<lparr>ln_ID = 1, ln_Title = ''t'', ln_URL = ''u'',
      ln_Description = []\<rparr>]\<rparr>) (hub_state (new_hub ''k'')) = Candidate s errs
    \<and> hs_donor s \<and> length (hs_links s) = 1"
proof -
  let ?a = "sample_answers None" and ?s0 = "hub_state (new_hub ''k'')"
  let ?r = "Inr [\<lparr>ln_ID = 1, ln_Title = ''t'', ln_URL = ''u'', ln_Description = []\<rparr>] :: portal_error + link list"
  obtain s errs where c: "refresh_from ?a ?s0 = Candidate s errs" and d: "hs_donor s"
  proof -
    have "case refresh_from ?a ?s0 of Discarded _ \<Rightarrow> False | Candidate s _ \<Rightarrow> hs_donor s" by code_simp
    then show ?thesis using that by (auto split: cycle.splits)
  qed
  from links_independent[OF c, of ?r] obtain s' errs' where
    s': "refresh_from (?a\<lparr>an_links := ?r\<rparr>) ?s0 = Candidate s' errs'"
    "s'\<lparr>hs_links := []\<rparr> = s\<lparr>hs_links := []\<rparr>" "length (hs_links s') = 1"
    by (auto simp: sample_answers_def)
  from arg_cong[OF s'(2), of hs_donor] have "hs_donor s' = hs_donor s" by simp
  with s' d show ?thesis by blast
qed

section \<open>Expiry and the event loop\<close>

text \<open>
  The schedule of \<open>Run\<close>: when the donor timer is to fire, if it is armed. \<open>arm\<close> is the
  head of every iteration, the rest are the branches of its select.
\<close>

record hub_run =
  hr_hub :: hub
  hr_timer :: "gotime option"

definition arm :: "gotime \<Rightarrow> hub_run \<Rightarrow> hub_run" where
  "arm now r = r\<lparr>hr_timer := (case donorDelay now (hr_hub r) of
       None \<Rightarrow> None
     | Some delay \<Rightarrow> Some (now + delay))\<rparr>"

definition on_refresh :: "answers \<Rightarrow> string \<Rightarrow> portal_error + notice \<Rightarrow> hub_run \<Rightarrow> hub_run" where
  "on_refresh a key n r =
     (let h1 = snd (noteSettings key (hr_hub r));
          h2 = fst (end_refresh (refresh_from a (hub_state h1)) h1) in
      r\<lparr>hr_hub := snd (RefreshNotice n h2)\<rparr>)"

definition on_poll :: "answers \<Rightarrow> string \<Rightarrow> hub_run \<Rightarrow> hub_run" where
  "on_poll a key r =
     (let (changed, h1) = noteSettings key (hr_hub r) in
      if changed then r\<lparr>hr_hub := fst (end_refresh (refresh_from a (hub_state h1)) h1)\<rparr>
      else r\<lparr>hr_hub := h1\<rparr>)"

definition on_expiry :: "gotime \<Rightarrow> hub_run \<Rightarrow> hub_run" where
  "on_expiry now r = r\<lparr>hr_hub := expireDonor now (hr_hub r), hr_timer := None\<rparr>"

text \<open>
  Donor expiry is scheduled at its time and only before it: at the head of an
  iteration a donor with a later expiry gets the timer armed for exactly that instant, and
  when the timer fires then or later the donor is gone; but a donor whose expiry has
  already passed gets no timer, so nothing before the next refresh removes it.
\<close>

theorem donor_expiry_schedule:
  assumes "hs_donor (hub_state (hr_hub r))" and "hs_donorUntil (hub_state (hr_hub r)) = u" and "u \<noteq> 0"
  shows "(now < u \<longrightarrow> hr_timer (arm now r) = Some u
            \<and> (\<forall>t\<ge>u. \<not> sn_Donor (Snapshot (hr_hub (on_expiry t (arm now r))))))
    \<and> (u \<le> now \<longrightarrow> hr_timer (arm now r) = None \<and> sn_Donor (Snapshot (hr_hub (arm now r))))"
  using assms
  by (auto simp: arm_def donorDelay_def on_expiry_def expireDonor_def Snapshot_def no_donor_def Let_def)

theorem donor_expiry_schedule_witness:
  "let h = (new_hub ''k'')\<lparr>hub_state := (hub_state (new_hub ''k''))\<lparr>hs_donor := True, hs_donorUntil := 50\<rparr>\<rparr>;
       r = \<lparr>hr_hub = h, hr_timer = None\<rparr> in
     hr_timer (arm 40 r) = Some 50 \<and> hr_timer (arm 60 r) = None \<and> sn_Donor (Snapshot (hr_hub (arm 60 r)))"
proof -
  let ?h = "(new_hub ''k'')\<lparr>hub_state := (hub_state (new_hub ''k''))\<lparr>hs_donor := True, hs_donorUntil := 50\<rparr>\<rparr>"
  have "hs_donor (hub_state (hr_hub \<lparr>hr_hub = ?h, hr_timer = None\<rparr>))"
    "hs_donorUntil (hub_state (hr_hub \<lparr>hr_hub = ?h, hr_timer = None\<rparr>)) = 50" by simp_all
  from donor_expiry_schedule[OF this, of 40] donor_expiry_schedule[OF this, of 60] show ?thesis
    by (simp add: Let_def)
qed

end
