(* ===== verification/Releases.thy ===== *)
theory Releases
  imports Domain Strconv
begin

text \<open>
  Release resolution, \<open>internal/application/updates\<close>: \<open>version.go\<close>, \<open>release.go\<close>,
  \<open>flavor.go\<close>. An announced version is only a hint; the tag, the asset and the checksum
  come from the metadata of one fixed repository.

  Parameters stand for code outside the repository: the semver library
  (\<open>golang.org/x/mod/semver\<close>) as the record \<open>semver\<close>, and \<open>url.Parse\<close> as a function from
  a text to its parts.
\<close>

section \<open>Versions\<close>

record semver =
  sv_IsValid :: "string \<Rightarrow> bool"
  sv_Compare :: "string \<Rightarrow> string \<Rightarrow> int"
  sv_Prerelease :: "string \<Rightarrow> string"

definition normalizeVersion :: "string \<Rightarrow> string" where
  "normalizeVersion version = trim_prefix (trim_space version) ''v''"

definition fullReleaseCore :: "string \<Rightarrow> bool" where
  "fullReleaseCore canonical =
     (let core = takeWhile (\<lambda>c. c \<noteq> CHR ''-'' \<and> c \<noteq> CHR ''+'') (drop 1 canonical);
          parts = split_on (CHR ''.'') core in
      length parts = 3 \<and> list_all (\<lambda>p. p \<noteq> [] \<and> list_all is_digit p) parts)"

definition canonicalVersion :: "semver \<Rightarrow> string \<Rightarrow> string option" where
  "canonicalVersion sv version =
     (if version = [] then None
      else let canonical = ''v'' @ version in
        if sv_IsValid sv canonical \<and> fullReleaseCore canonical then Some canonical else None)"

record identity =
  id_Version :: string
  id_GOOS :: string
  id_GOARCH :: string
  id_Flavor :: string

definition SelfUpdateCapable :: "semver \<Rightarrow> identity \<Rightarrow> bool" where
  "SelfUpdateCapable sv i \<longleftrightarrow> canonicalVersion sv (normalizeVersion (id_Version i)) \<noteq> None"

definition IsNewer :: "semver \<Rightarrow> string \<Rightarrow> string \<Rightarrow> string + bool" where
  "IsNewer sv current candidate =
     (case canonicalVersion sv (normalizeVersion current) of
        None \<Rightarrow> Inl ''current''
      | Some c \<Rightarrow>
          (case canonicalVersion sv (normalizeVersion candidate) of
             None \<Rightarrow> Inl ''candidate''
           | Some d \<Rightarrow> Inr (sv_Compare sv d c > 0)))"

section \<open>Installation flavors and assets\<close>

definition FlavorGUI :: string where "FlavorGUI = ''gui''"
definition FlavorHeadless :: string where "FlavorHeadless = ''headless''"
definition FlavorBundle :: string where "FlavorBundle = ''bundle''"

lemmas flavor_defs = FlavorGUI_def FlavorHeadless_def FlavorBundle_def

definition DetectFlavor :: "string \<Rightarrow> string \<Rightarrow> string \<Rightarrow> bool \<Rightarrow> string" where
  "DetectFlavor buildFlavor goos goarch bundleInstall =
     (if bundleInstall then FlavorBundle
      else if goos = ''linux'' \<and> goarch = ''arm'' then FlavorHeadless
      else buildFlavor)"

definition assetName :: "string \<Rightarrow> string \<Rightarrow> string \<Rightarrow> string \<Rightarrow> string option" where
  "assetName flavor goos goarch version =
     (let base = ''filelist-streaming-'' @ version @ ''-'';
          pc = (goarch = ''amd64'' \<or> goarch = ''arm64'') in
      if goos = ''linux'' then
        (if flavor = FlavorGUI then
           (if pc then Some (base @ ''linux-'' @ goarch @ ''.tar.gz'') else None)
         else if flavor = FlavorHeadless then
           (if pc then Some (base @ ''linux-'' @ goarch @ ''-headless.tar.gz'')
            else if goarch = ''arm'' then Some (base @ ''linux-armv7.tar.gz'') else None)
         else None)
      else if goos = ''windows'' then
        (if flavor = FlavorGUI \<and> pc then Some (base @ ''windows-'' @ goarch @ ''.zip'') else None)
      else if goos = ''darwin'' then
        (if flavor = FlavorGUI then
           (if pc then Some (base @ ''darwin-'' @ goarch @ ''.tar.gz'') else None)
         else if flavor = FlavorBundle then Some (base @ ''darwin-universal.zip'') else None)
      else None)"

section \<open>Repository metadata\<close>

datatype release_error = ManualOnly | NoMatchingRelease | UntrustedAsset | ChecksumManifest | Upstream string

record asset =
  at_Name :: string
  at_URL :: string

record release =
  rl_Tag :: string
  rl_URL :: string
  rl_Notes :: string
  rl_Draft :: bool
  rl_Prerelease :: bool
  rl_PublishedAt :: gotime
  rl_Assets :: "asset list"

record selection =
  se_Version :: string
  se_Tag :: string
  se_Notes :: string
  se_ReleasedAt :: gotime
  se_ReleasesURL :: string
  se_AssetName :: string
  se_AssetURL :: string
  se_SHA256 :: string

definition releaseBase :: string where
  "releaseBase = ''/mihaiflorentin88/filelist-streaming-service/releases/''"

definition manifestName :: string where "manifestName = ''SHA256SUMS''"

text \<open>Published names are unique: no match is absent, several fail closed.\<close>

definition exactAsset :: "asset list \<Rightarrow> string \<Rightarrow> unit + asset option" where
  "exactAsset assets name =
     (case filter (\<lambda>a. at_Name a = name) assets of
        [] \<Rightarrow> Inr None
      | [a] \<Rightarrow> Inr (Some a)
      | _ \<Rightarrow> Inl ())"

text \<open>The parts of a parsed URL that the check reads; the path is the decoded one.\<close>

record url =
  ur_Scheme :: string
  ur_User :: bool
  ur_Host :: string
  ur_Path :: string

definition checkRepositoryURL :: "(string \<Rightarrow> url option) \<Rightarrow> string \<Rightarrow> string \<Rightarrow> bool" where
  "checkRepositoryURL parse rawurl wantPath =
     (case parse rawurl of
        None \<Rightarrow> False
      | Some u \<Rightarrow> ur_Scheme u = ''https'' \<and> \<not> ur_User u \<and> ur_Host u = ''github.com''
          \<and> ur_Path u = wantPath)"

section \<open>The checksum manifest\<close>

definition is_hex :: "char \<Rightarrow> bool" where
  "is_hex c = (let n = (of_char c :: int) in
     (48 \<le> n \<and> n \<le> 57) \<or> (97 \<le> n \<and> n \<le> 102) \<or> (65 \<le> n \<and> n \<le> 70))"

definition hexDigest :: "string \<Rightarrow> bool" where
  "hexDigest text \<longleftrightarrow> length text = 64 \<and> list_all is_hex text"

definition trim_right :: "char \<Rightarrow> string \<Rightarrow> string" where
  "trim_right c s = rev (dropWhile (\<lambda>x. x = c) (rev s))"

definition line_end :: char where "line_end = CHR 0x0A"
definition carriage_return :: char where "carriage_return = CHR 0x0D"

text \<open>One line: blank, malformed, or a checksum in lower case with its file name.\<close>

datatype manifest_line = Blank | Malformed | Entry string string

definition manifest_line :: "string \<Rightarrow> manifest_line" where
  "manifest_line raw =
     (let line = trim_right carriage_return raw in
      if trim_space line = [] then Blank
      else (case str_fields line of
        [field, file] \<Rightarrow>
          (let checksum = to_lower field in
           if hexDigest checksum then Entry checksum (trim_prefix file ''*'') else Malformed)
      | _ \<Rightarrow> Malformed))"

text \<open>The loop over the lines, with the names seen and the digest found so far.\<close>

fun digest_lines :: "string \<Rightarrow> string list \<Rightarrow> string \<Rightarrow> string list \<Rightarrow> release_error + string" where
  "digest_lines name seen digest [] = (if digest = [] then Inl ChecksumManifest else Inr digest)"
| "digest_lines name seen digest (l # ls) =
     (case manifest_line l of
        Blank \<Rightarrow> digest_lines name seen digest ls
      | Malformed \<Rightarrow> Inl ChecksumManifest
      | Entry checksum file \<Rightarrow>
          if file \<in> set seen then Inl ChecksumManifest
          else digest_lines name (file # seen) (if file = name then checksum else digest) ls)"

definition manifestDigest :: "string \<Rightarrow> string \<Rightarrow> release_error + string" where
  "manifestDigest text name = digest_lines name [] [] (split_on line_end text)"

section \<open>Resolution\<close>

text \<open>\<open>latest\<close> and \<open>manifest\<close> are the answers of the metadata source.\<close>

definition Resolve ::
  "semver \<Rightarrow> (string \<Rightarrow> url option) \<Rightarrow> identity \<Rightarrow> string + release \<Rightarrow> (string \<Rightarrow> string + string) \<Rightarrow> string
     \<Rightarrow> release_error + selection" where
  "Resolve sv parse i latest manifest hint =
     (if \<not> SelfUpdateCapable sv i then Inl ManualOnly
      else
        let announced = normalizeVersion hint; tag = ''v'' @ announced in
        case canonicalVersion sv announced of
          None \<Rightarrow> Inl NoMatchingRelease
        | Some canonical \<Rightarrow>
            (case latest of
               Inl e \<Rightarrow> Inl (Upstream e)
             | Inr r \<Rightarrow>
                 if rl_Draft r \<or> rl_Prerelease r then Inl NoMatchingRelease
                 else if rl_Tag r \<noteq> tag then Inl NoMatchingRelease
                 else if sv_Prerelease sv canonical \<noteq> [] then Inl NoMatchingRelease
                 else if \<not> checkRepositoryURL parse (rl_URL r) (releaseBase @ ''tag/'' @ tag)
                   then Inl UntrustedAsset
                 else
                   let version = trim_prefix (rl_Tag r) ''v'' in
                   case assetName (id_Flavor i) (id_GOOS i) (id_GOARCH i) version of
                     None \<Rightarrow> Inl ManualOnly
                   | Some name \<Rightarrow>
                       (case exactAsset (rl_Assets r) name of
                          Inl _ \<Rightarrow> Inl UntrustedAsset
                        | Inr None \<Rightarrow> Inl NoMatchingRelease
                        | Inr (Some a) \<Rightarrow>
                            if \<not> checkRepositoryURL parse (at_URL a) (releaseBase @ ''download/'' @ tag @ ''/'' @ name)
                            then Inl UntrustedAsset
                            else (case exactAsset (rl_Assets r) manifestName of
                              Inl _ \<Rightarrow> Inl ChecksumManifest
                            | Inr None \<Rightarrow> Inl ChecksumManifest
                            | Inr (Some m) \<Rightarrow>
                                if \<not> checkRepositoryURL parse (at_URL m)
                                       (releaseBase @ ''download/'' @ tag @ ''/'' @ manifestName)
                                then Inl UntrustedAsset
                                else (case manifest (at_URL m) of
                                  Inl e \<Rightarrow> Inl (Upstream e)
                                | Inr text \<Rightarrow>
                                    (case manifestDigest text name of
                                       Inl e \<Rightarrow> Inl e
                                     | Inr digest \<Rightarrow>
                                         Inr \<lparr>se_Version = version, se_Tag = rl_Tag r, se_Notes = rl_Notes r,
                                              se_ReleasedAt = rl_PublishedAt r, se_ReleasesURL = rl_URL r,
                                              se_AssetName = name, se_AssetURL = at_URL a,
                                              se_SHA256 = digest\<rparr>))))))"

subsection \<open>The manifest is unambiguous\<close>

definition entries :: "string list \<Rightarrow> (string \<times> string) list" where
  "entries ls = List.map_filter (\<lambda>l. case manifest_line l of Entry c f \<Rightarrow> Some (f, c) | _ \<Rightarrow> None) ls"

lemma entries_Cons:
  "entries (l # ls) = (case manifest_line l of Entry c f \<Rightarrow> (f, c) # entries ls | _ \<Rightarrow> entries ls)"
  by (simp add: entries_def List.map_filter_def split: manifest_line.splits)

lemma digest_lines_ok:
  "digest_lines name seen d ls = Inr x \<longleftrightarrow>
     Malformed \<notin> manifest_line ` set ls \<and> distinct (map fst (entries ls))
     \<and> set (map fst (entries ls)) \<inter> set seen = {}
     \<and> (case map_of (entries ls) name of None \<Rightarrow> d \<noteq> [] \<and> x = d | Some c \<Rightarrow> x = c)"
proof (induction name seen d ls rule: digest_lines.induct)
  case (2 name seen d l ls)
  show ?case
  proof (cases "manifest_line l")
    case (Entry c f)
    have c: "c \<noteq> []" using Entry
      by (auto simp: manifest_line_def Let_def hexDigest_def to_lower_def split: if_splits list.splits)
    show ?thesis
    proof (cases "f \<in> set seen")
      case True
      then show ?thesis using Entry by (simp add: entries_Cons)
    next
      case False
      have eq: "digest_lines name seen d (l # ls) =
          digest_lines name (f # seen) (if f = name then c else d) ls"
        using Entry False by simp
      have ent: "entries (l # ls) = (f, c) # entries ls" using Entry by (simp add: entries_Cons)
      have mal: "Malformed \<notin> manifest_line ` set (l # ls) \<longleftrightarrow> Malformed \<notin> manifest_line ` set ls"
        using Entry by simp
      show ?thesis
      proof (cases "f = name")
        case True
        show ?thesis unfolding eq 2(2)[OF Entry False] ent mal using True False c
          by (auto simp: map_of_eq_None_iff split: option.splits dest!: map_of_SomeD intro: rev_image_eqI)
      next
        case False
        then show ?thesis unfolding eq 2(2)[OF Entry \<open>f \<notin> set seen\<close>] ent mal using \<open>f \<notin> set seen\<close>
          by auto
      qed
    qed
  qed (use 2 in \<open>simp_all add: entries_Cons\<close>)
qed (simp add: entries_def List.map_filter_def; auto)

lemma digest_lines_error: "digest_lines name seen d ls = Inl e \<Longrightarrow> e = ChecksumManifest"
  by (induction name seen d ls rule: digest_lines.induct) (auto split: manifest_line.splits if_splits)

lemma entry_shape: "manifest_line l = Entry c f \<Longrightarrow> hexDigest c \<and> to_lower c = c"
  by (auto simp: manifest_line_def Let_def to_lower_idem split: if_splits list.splits)

lemma entries_set: "(f, c) \<in> set (entries ls) \<longleftrightarrow> (\<exists>l\<in>set ls. manifest_line l = Entry c f)"
  by (induction ls) (auto simp: entries_def List.map_filter_def split: manifest_line.splits option.splits)

text \<open>
  A checksum manifest is accepted only when it is unambiguous: a digest is
  returned exactly when every line is blank or well-formed, no file name occurs twice and
  the requested name is listed, and it is then that line's checksum, 64 hexadecimal
  digits in lower case.
\<close>

theorem manifestDigest_iff:
  "(manifestDigest text name = Inr d \<longleftrightarrow>
      (\<forall>l\<in>set (split_on line_end text). manifest_line l \<noteq> Malformed)
      \<and> distinct (map fst (entries (split_on line_end text)))
      \<and> map_of (entries (split_on line_end text)) name = Some d)
   \<and> (manifestDigest text name = Inr d \<longrightarrow> hexDigest d \<and> to_lower d = d)
   \<and> (\<forall>e. manifestDigest text name = Inl e \<longrightarrow> e = ChecksumManifest)"
proof -
  let ?ls = "split_on line_end text"
  have iff: "manifestDigest text name = Inr d \<longleftrightarrow>
      (\<forall>l\<in>set ?ls. manifest_line l \<noteq> Malformed) \<and> distinct (map fst (entries ?ls))
      \<and> map_of (entries ?ls) name = Some d"
    unfolding manifestDigest_def digest_lines_ok by (force split: option.splits)
  moreover have "hexDigest d \<and> to_lower d = d" if "map_of (entries ?ls) name = Some d"
    using map_of_SomeD[OF that] entry_shape by (auto simp: entries_set)
  moreover have "e = ChecksumManifest" if "manifestDigest text name = Inl e" for e
    using digest_lines_error that by (simp add: manifestDigest_def)
  ultimately show ?thesis by blast
qed

theorem manifestDigest_iff_witness:
  "manifestDigest (replicate 64 (CHR ''A'') @ ''  *x.zip'' @ [carriage_return, line_end]) ''x.zip''
     = Inr (replicate 64 (CHR ''a''))
   \<and> hexDigest (replicate 64 (CHR ''a''))"
proof -
  let ?t = "replicate 64 (CHR ''A'') @ ''  *x.zip'' @ [carriage_return, line_end]"
  have "manifestDigest ?t ''x.zip'' = Inr (replicate 64 (CHR ''a''))" by code_simp
  then show ?thesis using manifestDigest_iff[of ?t "''x.zip''" "replicate 64 (CHR ''a'')"] by blast
qed

subsection \<open>The asset matrix\<close>

text \<open>
  No installation can be given another one's asset: two supported
  installations with the same asset name, of the same version, have the same system and
  flavor, and the same architecture unless it is the universal macOS bundle.
\<close>

theorem assetName_injective:
  assumes "assetName f os arch v = Some n" and "assetName f' os' arch' v = Some n"
  shows "f' = f \<and> os' = os \<and> (arch' = arch \<or> (f = FlavorBundle \<and> os = ''darwin''))"
  using assms by (auto simp: assetName_def Let_def flavor_defs split: if_splits)

theorem assetName_injective_witness:
  "assetName FlavorBundle ''darwin'' ''amd64'' ''1.2.3'' = Some ''filelist-streaming-1.2.3-darwin-universal.zip''
   \<and> assetName FlavorBundle ''darwin'' ''arm64'' ''1.2.3'' = Some ''filelist-streaming-1.2.3-darwin-universal.zip''
   \<and> FlavorBundle = FlavorBundle \<and> (''arm64'' = ''amd64'' \<or> (FlavorBundle = FlavorBundle \<and> ''darwin'' = ''darwin''))"
proof -
  have a: "assetName FlavorBundle ''darwin'' ''amd64'' ''1.2.3'' = Some ''filelist-streaming-1.2.3-darwin-universal.zip''"
    and b: "assetName FlavorBundle ''darwin'' ''arm64'' ''1.2.3'' = Some ''filelist-streaming-1.2.3-darwin-universal.zip''"
    by code_simp+
  show ?thesis using assetName_injective[OF a b] a b by blast
qed

subsection \<open>What a resolution guarantees\<close>

lemma exactAsset_Some:
  "exactAsset assets name = Inr (Some a) \<longleftrightarrow> filter (\<lambda>x. at_Name x = name) assets = [a]"
  by (auto simp: exactAsset_def split: list.splits)


definition sample_semver :: semver where
  "sample_semver = \<lparr>sv_IsValid = (\<lambda>_. True), sv_Compare = (\<lambda>a b. if a = b then 0 else 1), sv_Prerelease = (\<lambda>_. [])\<rparr>"

definition sample_url :: "string \<Rightarrow> url option" where
  "sample_url u = map_option (\<lambda>p. \<lparr>ur_Scheme = ''https'', ur_User = False, ur_Host = ''github.com'', ur_Path = p\<rparr>)
     (cut_prefix u ''https://github.com'')"

definition sample_release :: release where
  "sample_release =
     (let d = ''https://github.com'' @ releaseBase @ ''download/v1.2.3/'' in
      \<lparr>rl_Tag = ''v1.2.3'', rl_URL = ''https://github.com'' @ releaseBase @ ''tag/v1.2.3'', rl_Notes = ''fix'',
       rl_Draft = False, rl_Prerelease = False, rl_PublishedAt = 9,
       rl_Assets = [\<lparr>at_Name = ''SHA256SUMS'', at_URL = d @ ''SHA256SUMS''\<rparr>,
         \<lparr>at_Name = ''filelist-streaming-1.2.3-linux-armv7.tar.gz'',
          at_URL = d @ ''filelist-streaming-1.2.3-linux-armv7.tar.gz''\<rparr>]\<rparr>)"


end
