(* ===== verification/Effects.thy ===== *)
theory Effects
  imports Main
begin

text \<open>
  Operations that change a state and may fail, the shape of a Go method that returns an
  error: \<open>seq\<close> runs the rest only behind a success, and the state of a failed step stays.
  \<open>yields I m Q\<close> says that an operation preserves \<open>I\<close> whether it succeeds or fails and that
  a success returns a value with \<open>Q\<close>; the rules in \<open>yields\<close> follow the structure of an operation.
\<close>

named_theorems yields "the outcome of operations, by their structure"

type_synonym ('s, 'e, 'a) op = "'s \<Rightarrow> ('e + 'a) \<times> 's"

definition ret :: "'a \<Rightarrow> ('s, 'e, 'a) op" where "ret a s = (Inr a, s)"
definition fail :: "'e \<Rightarrow> ('s, 'e, 'a) op" where "fail e s = (Inl e, s)"
definition read_state :: "('s \<Rightarrow> 'a) \<Rightarrow> ('s, 'e, 'a) op" where "read_state f s = (Inr (f s), s)"
definition write_state :: "('s \<Rightarrow> 's) \<Rightarrow> ('s, 'e, unit) op" where "write_state f s = (Inr (), f s)"
definition of_result :: "('s \<Rightarrow> 'e + 'a) \<Rightarrow> ('s, 'e, 'a) op" where "of_result f s = (f s, s)"
definition require :: "bool \<Rightarrow> 'e \<Rightarrow> ('s, 'e, unit) op" where
  "require b e s = (if b then Inr () else Inl e, s)"

definition seq :: "('s, 'e, 'a) op \<Rightarrow> ('a \<Rightarrow> ('s, 'e, 'b) op) \<Rightarrow> ('s, 'e, 'b) op" where
  "seq m f s = (case m s of (Inl e, s') \<Rightarrow> (Inl e, s') | (Inr a, s') \<Rightarrow> f a s')"

text \<open>A call whose error the caller inspects.\<close>

definition attempt :: "('s, 'e, 'a) op \<Rightarrow> ('e + 'a \<Rightarrow> ('s, 'f, 'b) op) \<Rightarrow> ('s, 'f, 'b) op" where
  "attempt m f s = (case m s of (r, s') \<Rightarrow> f r s')"

lemmas effect_defs = ret_def fail_def read_state_def write_state_def of_result_def require_def

lemma seq_Inr:
  "seq m f s = (Inr b, s') \<longleftrightarrow> (\<exists>a t. m s = (Inr a, t) \<and> f a t = (Inr b, s'))"
  by (auto simp: seq_def split: prod.splits sum.splits)

lemma ret_Inr [simp]: "ret a s = (r, s') \<longleftrightarrow> r = Inr a \<and> s' = s"
  by (auto simp: ret_def)

lemma or_fail_Inr:
  "(case x of None \<Rightarrow> fail e | Some y \<Rightarrow> f y) s = (Inr b, s') \<longleftrightarrow> (\<exists>y. x = Some y \<and> f y s = (Inr b, s'))"
  "(if c then fail e else m) s = (Inr b, s') \<longleftrightarrow> \<not> c \<and> m s = (Inr b, s')"
  by (auto simp: fail_def split: option.splits)

lemma seq_run [simp]:
  "m s = (Inr a, t) \<Longrightarrow> seq m f s = f a t"
  "m s = (Inl e, t) \<Longrightarrow> seq m f s = (Inl e, t)"
  by (simp_all add: seq_def)

fun each :: "('a \<Rightarrow> ('s, 'e, 'b) op) \<Rightarrow> 'a list \<Rightarrow> ('s, 'e, 'b list) op" where
  "each f [] = ret []"
| "each f (x # xs) = seq (f x) (\<lambda>y. seq (each f xs) (\<lambda>ys. ret (y # ys)))"

text \<open>\<open>yields I m Q\<close>: whatever the outcome \<open>I\<close> is preserved, and a success returns a \<open>Q\<close>.\<close>

definition yields :: "('s \<Rightarrow> bool) \<Rightarrow> ('s, 'e, 'a) op \<Rightarrow> ('a \<Rightarrow> bool) \<Rightarrow> bool" where
  "yields I m Q \<longleftrightarrow> (\<forall>s r t. I s \<longrightarrow> m s = (r, t) \<longrightarrow> I t \<and> (\<forall>a. r = Inr a \<longrightarrow> Q a))"

abbreviation keeps :: "('s \<Rightarrow> bool) \<Rightarrow> ('s, 'e, 'a) op \<Rightarrow> bool" where
  "keeps I m \<equiv> yields I m (\<lambda>_. True)"

lemma yieldsI:
  "(\<And>s r t. I s \<Longrightarrow> m s = (r, t) \<Longrightarrow> I t \<and> (\<forall>a. r = Inr a \<longrightarrow> Q a)) \<Longrightarrow> yields I m Q"
  by (simp add: yields_def)

lemma yieldsD:
  "yields I m Q \<Longrightarrow> I s \<Longrightarrow> m s = (r, t) \<Longrightarrow> I t"
  "yields I m Q \<Longrightarrow> I s \<Longrightarrow> m s = (Inr a, t) \<Longrightarrow> Q a"
  unfolding yields_def by blast+

lemma yields_weaken: "yields I m P \<Longrightarrow> (\<And>a. P a \<Longrightarrow> Q a) \<Longrightarrow> yields I m Q"
  unfolding yields_def by blast

lemma yields_pure [yields]:
  "Q a \<Longrightarrow> yields I (ret a) Q" "yields I (fail e) Q"
  "(\<And>s. I s \<Longrightarrow> Q (f s)) \<Longrightarrow> yields I (read_state f) Q"
  "(\<And>s x. I s \<Longrightarrow> g s = Inr x \<Longrightarrow> Q x) \<Longrightarrow> yields I (of_result g) Q"
  by (auto simp: yields_def effect_defs)

lemma yields_require [yields]: "(b \<Longrightarrow> Q ()) \<Longrightarrow> yields I (require b e) Q"
  by (auto simp: yields_def require_def)

lemma yields_write [yields]: "(\<And>s. I s \<Longrightarrow> I (f s)) \<Longrightarrow> Q () \<Longrightarrow> yields I (write_state f) Q"
  by (simp add: yields_def write_state_def)

lemma yields_seq:
  assumes m: "yields I m P" and f: "\<And>a. P a \<Longrightarrow> yields I (f a) Q"
  shows "yields I (seq m f) Q"
proof (rule yieldsI)
  fix s r t assume I: "I s" and run: "seq m f s = (r, t)"
  obtain x u where x: "m s = (x, u)" by fastforce
  show "I t \<and> (\<forall>a. r = Inr a \<longrightarrow> Q a)"
  proof (cases x)
    case (Inl e)
    then show ?thesis using run x yieldsD(1)[OF m I x] by (auto simp: seq_def)
  next
    case (Inr a)
    with run x have "f a u = (r, t)" by (simp add: seq_def)
    moreover have "I u" "P a" using yieldsD[OF m I] x Inr by auto
    ultimately show ?thesis using yieldsD[OF f] by blast
  qed
qed

lemma yields_attempt:
  assumes m: "yields I m P" and f: "\<And>a. P a \<Longrightarrow> yields I (f (Inr a)) Q" "\<And>e. yields I (f (Inl e)) Q"
  shows "yields I (attempt m f) Q"
proof (rule yieldsI)
  fix s r t assume I: "I s" and run: "attempt m f s = (r, t)"
  obtain x u where x: "m s = (x, u)" by fastforce
  with run have fx: "f x u = (r, t)" by (simp add: attempt_def)
  have "yields I (f x) Q" using f yieldsD(2)[OF m I] x by (cases x) auto
  from yieldsD[OF this yieldsD(1)[OF m I x]] fx show "I t \<and> (\<forall>a. r = Inr a \<longrightarrow> Q a)" by blast
qed

lemma yields_attempt_sum:
  "yields I m P \<Longrightarrow> (\<And>e. yields I (f e) Q) \<Longrightarrow> (\<And>a. P a \<Longrightarrow> yields I (g a) Q) \<Longrightarrow>
     yields I (attempt m (case_sum f g)) Q"
  by (rule yields_attempt[of I m P]) simp_all

lemma yields_attempt_any: "keeps I m \<Longrightarrow> (\<And>r. yields I (f r) Q) \<Longrightarrow> yields I (attempt m f) Q"
  by (rule yields_attempt)

lemma yields_each:
  "(\<And>x. x \<in> set xs \<Longrightarrow> yields I (f x) Q) \<Longrightarrow> yields I (each f xs) (\<lambda>ys. \<forall>y\<in>set ys. Q y)"
proof (induction xs)
  case Nil
  show ?case unfolding each.simps by (rule yields_pure) simp
next
  case (Cons x xs)
  have "yields I (f x) Q" and "yields I (each f xs) (\<lambda>ys. \<forall>y\<in>set ys. Q y)" using Cons by auto
  then show ?case unfolding each.simps
    by (rule yields_seq[OF _ yields_seq]) (auto intro!: yields_pure)
qed

lemma yields_if [yields]:
  "(b \<Longrightarrow> yields I m Q) \<Longrightarrow> (\<not> b \<Longrightarrow> yields I m' Q) \<Longrightarrow> yields I (if b then m else m') Q"
  by simp

lemma yields_option [yields]:
  "(x = None \<Longrightarrow> yields I m Q) \<Longrightarrow> (\<And>y. x = Some y \<Longrightarrow> yields I (f y) Q) \<Longrightarrow>
     yields I (case x of None \<Rightarrow> m | Some y \<Rightarrow> f y) Q"
  by (cases x) auto

lemma yields_sum [yields]:
  "(\<And>e. x = Inl e \<Longrightarrow> yields I (f e) Q) \<Longrightarrow> (\<And>y. x = Inr y \<Longrightarrow> yields I (g y) Q) \<Longrightarrow>
     yields I (case x of Inl e \<Rightarrow> f e | Inr y \<Rightarrow> g y) Q"
  by (cases x) auto

lemma yields_prod [yields]: "(\<And>a b. x = (a, b) \<Longrightarrow> yields I (f a b) Q) \<Longrightarrow> yields I (case x of (a, b) \<Rightarrow> f a b) Q"
  by (cases x) auto

end
