(* ===== verification/Staging.thy ===== *)
theory Staging
  imports Releases Effects Paths
begin

text \<open>
  Staging and extraction of a release archive, \<open>internal/application/updates/stage.go\<close>: the
  bounded download, the member rules, both archive formats and the verification of the
  payload.

  The file system has directories, files and symbolic links; \<open>walk\<close> resolves a path the way
  the kernel does, so that a written file lands where its links lead. Every call may fail
  (\<open>xe_ok\<close>). What the standard library reads from an archive, an executable or a property
  list is an input.
\<close>

section \<open>The file system\<close>

datatype node = NDir | NFile string | NLink string

type_synonym fs = "(string list \<times> node) list"

text \<open>A path resolves through at most \<open>k\<close> links; \<open>None\<close> for a missing component, a file in the
  middle or too many links.\<close>

fun walk :: "nat \<Rightarrow> fs \<Rightarrow> string list \<Rightarrow> string list \<Rightarrow> string list option" where
  "walk k fs cur [] = Some cur"
| "walk k fs cur (e # es) =
     (if e = [] \<or> e = ''.'' then walk k fs cur es
      else if e = ''..'' then walk k fs (butlast cur) es
      else (case map_of fs (cur @ [e]) of
        None \<Rightarrow> None
      | Some NDir \<Rightarrow> walk k fs (cur @ [e]) es
      | Some (NFile _) \<Rightarrow> if es = [] then Some (cur @ [e]) else None
      | Some (NLink t) \<Rightarrow>
          (case k of
             0 \<Rightarrow> None
           | Suc k' \<Rightarrow> if is_abs t then walk k' fs [] (split_on (CHR ''/'') t @ es)
               else walk k' fs cur (split_on (CHR ''/'') t @ es))))"

definition max_links :: nat where "max_links = 40"

definition is_dir :: "fs \<Rightarrow> string list \<Rightarrow> bool" where
  "is_dir fs p \<longleftrightarrow> p = [] \<or> map_of fs p = Some NDir"

text \<open>A new entry below the directory the parent path resolves to; an entry that is there,
  even a dangling link, refuses it.\<close>

definition create :: "string list \<Rightarrow> node \<Rightarrow> fs \<Rightarrow> fs option" where
  "create p n fs =
     (if p = [] then None
      else case walk max_links fs [] (butlast p) of
        None \<Rightarrow> None
      | Some d \<Rightarrow>
          if is_dir fs d \<and> map_of fs (d @ [last p]) = None \<and> d @ [last p] \<noteq> []
          then Some ((d @ [last p], n) # fs) else None)"

text \<open>\<open>os.MkdirAll\<close> on the reversed path.\<close>

fun mkdir_up :: "string list \<Rightarrow> fs \<Rightarrow> bool \<times> fs" where
  "mkdir_up [] fs = (True, fs)"
| "mkdir_up (e # rp) fs =
     (case walk max_links fs [] (rev (e # rp)) of
        Some q \<Rightarrow> (is_dir fs q, fs)
      | None \<Rightarrow>
          (case mkdir_up rp fs of
             (False, fs1) \<Rightarrow> (False, fs1)
           | (True, fs1) \<Rightarrow>
               (case create (rev (e # rp)) NDir fs1 of None \<Rightarrow> (False, fs1) | Some fs2 \<Rightarrow> (True, fs2))))"

definition remove_tree :: "string list \<Rightarrow> fs \<Rightarrow> fs" where
  "remove_tree d fs = filter (\<lambda>(p, _). \<not> prefix d p) fs"

section \<open>The download\<close>

datatype stage_error = StagingLimit | ChecksumMismatch | ArchiveInvalid string | BinaryIdentity string
  | UnsupportedArchive | InvalidLimits | BadSelection | StageFailed string

record stage_limits =
  li_Compressed :: int64
  li_Expanded :: int64
  li_Entries :: int

definition DefaultLimits :: stage_limits where
  "DefaultLimits = \<lparr>li_Compressed = 512 * 2 ^ 20, li_Expanded = 2 ^ 30, li_Entries = 4096\<rparr>"

definition bad_limits :: "stage_limits \<Rightarrow> bool" where
  "bad_limits l \<longleftrightarrow> li_Compressed l \<le> 0 \<or> li_Expanded l \<le> 0 \<or> li_Entries l \<le> 0"

text \<open>
  \<open>io.Copy\<close> through the \<open>boundedReader\<close>: the chunks are what the body returns into a buffer of
  32 KiB, cut to one byte more than what remains; the second result says whether the bound
  was crossed.
\<close>

fun copy_bounded :: "int64 \<Rightarrow> string list \<Rightarrow> string \<Rightarrow> string \<times> bool" where
  "copy_bounded remaining [] out = (out, False)"
| "copy_bounded remaining (c # cs) out =
     (let m = (if int (length c) > remaining then take (nat (remaining + 1)) c else c);
          rest = remaining - int (length m) in
      if rest < 0 then (out @ m, True) else copy_bounded rest cs (out @ m))"

record stage_events =
  se_mkdir :: bool
  se_create :: bool
  se_stream :: bool
  se_sync :: bool
  se_close :: bool

text \<open>The part file is removed on every failure; a success returns its content.\<close>

definition sameDigest :: "string \<Rightarrow> string \<Rightarrow> bool" where
  "sameDigest digest expected \<longleftrightarrow> length digest = 64 \<and> digest = to_lower expected"

definition StageArchive ::
  "(string \<Rightarrow> string) \<Rightarrow> stage_events \<Rightarrow> selection \<Rightarrow> string list \<Rightarrow> stage_limits \<Rightarrow> stage_error + string" where
  "StageArchive sha256hex ev sel body l =
     (if \<not> hexDigest (se_SHA256 sel) then Inl BadSelection
      else if bad_limits l then Inl InvalidLimits
      else if \<not> se_mkdir ev then Inl (StageFailed ''prepare destination'')
      else if \<not> se_create ev then Inl (StageFailed ''create staging file'')
      else (case copy_bounded (li_Compressed l) body [] of
        (_, True) \<Rightarrow> Inl StagingLimit
      | (content, False) \<Rightarrow>
          if \<not> se_stream ev then Inl (StageFailed ''stream download'')
          else if \<not> se_sync ev then Inl (StageFailed ''flush staging file'')
          else if \<not> se_close ev then Inl (StageFailed ''close staging file'')
          else if \<not> sameDigest (sha256hex content) (se_SHA256 sel) then Inl ChecksumMismatch
          else Inr content))"

section \<open>Archive rules\<close>

record target =
  tg_GOOS :: string
  tg_GOARCH :: string
  tg_GOARM :: int
  tg_Flavor :: string

definition Target :: "identity \<Rightarrow> target" where
  "Target i = \<lparr>tg_GOOS = id_GOOS i, tg_GOARCH = id_GOARCH i,
     tg_GOARM = (if id_GOOS i = ''linux'' \<and> id_GOARCH i = ''arm'' then 7 else 0), tg_Flavor = id_Flavor i\<rparr>"

record rules =
  ar_seen :: "string list"
  ar_expanded :: int64
  ar_bundleName :: string
  ar_entries :: int

definition new_rules :: rules where
  "new_rules = \<lparr>ar_seen = [], ar_expanded = 0, ar_bundleName = [], ar_entries = 0\<rparr>"

definition bundleSuffix :: string where "bundleSuffix = ''.app''"

definition firstPathElement :: "string \<Rightarrow> string" where
  "firstPathElement name = takeWhile (\<lambda>c. c \<noteq> CHR ''/'') name"

definition cleanArchiveName :: "string \<Rightarrow> string" where
  "cleanArchiveName name = trim_prefix (path_clean (trim_suffix name ''/'')) ''./''"

definition markBundle :: "target \<Rightarrow> string \<Rightarrow> rules \<Rightarrow> stage_error + rules" where
  "markBundle tg clean r =
     (let first = firstPathElement clean in
      if \<not> has_suffix first bundleSuffix then
        (if tg_Flavor tg = FlavorBundle then Inl (ArchiveInvalid ''outside the bundle'') else Inr r)
      else if tg_Flavor tg \<noteq> FlavorBundle then Inl (ArchiveInvalid ''bundle content'')
      else
        let r1 = (if ar_bundleName r = [] then r\<lparr>ar_bundleName := first\<rparr> else r) in
        if ar_bundleName r1 \<noteq> first then Inl (ArchiveInvalid ''multiple bundles'') else Inr r1)"

text \<open>The destination is empty for the entry of the archive root.\<close>

definition memberPath ::
  "string \<Rightarrow> target \<Rightarrow> stage_limits \<Rightarrow> string \<Rightarrow> rules \<Rightarrow> stage_error + string \<times> rules" where
  "memberPath rootdir tg l name r0 =
     (let r = r0\<lparr>ar_entries := ar_entries r0 + 1\<rparr> in
      if ar_entries r > li_Entries l then Inl (ArchiveInvalid ''entries'')
      else if name = [] then Inl (ArchiveInvalid ''empty name'')
      else if list_ex (\<lambda>c. c = CHR 0x5C \<or> c = CHR 0x00) name then Inl (ArchiveInvalid ''separator'')
      else if has_prefix name ''/'' then Inl (ArchiveInvalid ''absolute name'')
      else
        let clean = cleanArchiveName name in
        if clean = ''.'' then Inr ([], r)
        else if list_ex (\<lambda>part. part = ''..'') (split_on (CHR ''/'') clean) then Inl (ArchiveInvalid ''traversal'')
        else if clean \<in> set (ar_seen r) then Inl (ArchiveInvalid ''duplicate'')
        else (case markBundle tg clean (r\<lparr>ar_seen := clean # ar_seen r\<rparr>) of
          Inl e \<Rightarrow> Inl e
        | Inr r1 \<Rightarrow> Inr (path_join [rootdir, clean], r1)))"

definition accountSize :: "stage_limits \<Rightarrow> int64 \<Rightarrow> rules \<Rightarrow> stage_error + rules" where
  "accountSize l declared r =
     (if declared < 0 then Inl (ArchiveInvalid ''negative size'')
      else if i64 (ar_expanded r + declared) > li_Expanded l then Inl StagingLimit
      else Inr (r\<lparr>ar_expanded := i64 (ar_expanded r + declared)\<rparr>))"

definition checkLinkTarget :: "target \<Rightarrow> string \<Rightarrow> string \<Rightarrow> stage_error + unit" where
  "checkLinkTarget tg memberClean linkName =
     (let first = firstPathElement memberClean in
      if tg_Flavor tg \<noteq> FlavorBundle \<or> \<not> has_suffix first bundleSuffix
        then Inl (ArchiveInvalid ''symlink outside a bundle'')
      else if is_abs linkName then Inl (ArchiveInvalid ''absolute link'')
      else
        let resolved = path_clean (path_join [path_dir memberClean, linkName]) in
        if resolved = ''.'' \<or> firstPathElement resolved \<noteq> first
          then Inl (ArchiveInvalid ''link resolves outside the bundle'')
        else Inr ())"

section \<open>Writing members\<close>

datatype fs_call = CallTemp | CallOpen string | CallMkdir string | CallWrite string | CallLink string | CallChmod string

datatype fat_header = Fat "nat list" | NotFat | BrokenFat

datatype plist_token = KeyElem string | StringElem string | OtherElem | BrokenElem

text \<open>
  What the standard library answers: the build information and the format headers of an
  executable's content, the tokens of a property list, and the code signature check (\<open>None\<close>
  on platforms that do not bind one).
\<close>

record extract_env =
  xe_token :: string
  xe_ok :: "fs_call \<Rightarrow> bool"
  xe_build :: "string \<Rightarrow> (string \<times> string) list option"
  xe_elf :: "string \<Rightarrow> nat option"
  xe_pe :: "string \<Rightarrow> nat option"
  xe_macho :: "string \<Rightarrow> nat option"
  xe_fat :: "string \<Rightarrow> fat_header"
  xe_plist :: "string \<Rightarrow> plist_token list"
  xe_signed :: "(string \<Rightarrow> bool) option"

text \<open>\<open>xs_streamed\<close> counts the bytes written to members, those of removed members included.\<close>

record xstate =
  xs_rules :: rules
  xs_fs :: fs
  xs_streamed :: nat

type_synonym 'a x_op = "(xstate, stage_error, 'a) op"

definition on_rules :: "(rules \<Rightarrow> stage_error + 'a \<times> rules) \<Rightarrow> 'a x_op" where
  "on_rules f x = (case f (xs_rules x) of
     Inl e \<Rightarrow> (Inl e, x) | Inr (a, r) \<Rightarrow> (Inr a, x\<lparr>xs_rules := r\<rparr>))"

definition x_mkdir :: "extract_env \<Rightarrow> string \<Rightarrow> unit x_op" where
  "x_mkdir env p x =
     (if p = [] \<or> \<not> xe_ok env (CallMkdir p) then (Inl (StageFailed ''create directory''), x)
      else (case mkdir_up (rev (path_elems p)) (xs_fs x) of (done_, fs) \<Rightarrow>
        (if done_ then Inr () else Inl (StageFailed ''create directory''), x\<lparr>xs_fs := fs\<rparr>)))"

definition x_symlink :: "extract_env \<Rightarrow> string \<Rightarrow> string \<Rightarrow> unit x_op" where
  "x_symlink env t p x =
     (case (if xe_ok env (CallLink p) then create (path_elems p) (NLink t) (xs_fs x) else None) of
        None \<Rightarrow> (Inl (StageFailed ''create symlink''), x)
      | Some fs \<Rightarrow> (Inr (), x\<lparr>xs_fs := fs\<rparr>))"

text \<open>The member is created exclusively, filled through the \<open>countingLimitReader\<close>, and removed
  again when the stream fails or is shorter than declared.\<close>

definition writeFileVerified :: "extract_env \<Rightarrow> string \<Rightarrow> string \<Rightarrow> int64 \<Rightarrow> unit x_op" where
  "writeFileVerified env dest body declared x =
     (case create (path_elems dest) (NFile (take (nat declared) body)) (xs_fs x) of
        None \<Rightarrow> (Inl (StageFailed ''create member''), x)
      | Some fs \<Rightarrow>
          let x1 = x\<lparr>xs_streamed := xs_streamed x + min (nat declared) (length body)\<rparr> in
          if \<not> xe_ok env (CallWrite dest) then (Inl (StageFailed ''stream member''), x1)
          else if int (min (nat declared) (length body)) \<noteq> declared
            then (Inl (ArchiveInvalid ''short member''), x1)
          else (Inr (), x1\<lparr>xs_fs := fs\<rparr>))"

section \<open>The two formats\<close>

datatype member_kind = MDir | MReg | MLink string | MOther

record member =
  am_Name :: string
  am_Kind :: member_kind
  am_Size :: int64
  am_Body :: string

definition tar_member :: "extract_env \<Rightarrow> string \<Rightarrow> target \<Rightarrow> stage_limits \<Rightarrow> member \<Rightarrow> unit x_op" where
  "tar_member env rootdir tg l m =
     seq (on_rules (memberPath rootdir tg l (am_Name m))) (\<lambda>dest.
     if dest = [] then ret ()
     else (case am_Kind m of
       MDir \<Rightarrow> x_mkdir env dest
     | MReg \<Rightarrow>
         seq (on_rules (\<lambda>r. map_sum id (Pair ()) (accountSize l (am_Size m) r))) (\<lambda>_.
         seq (x_mkdir env (path_dir dest)) (\<lambda>_.
         writeFileVerified env dest (am_Body m) (am_Size m)))
     | MLink t \<Rightarrow>
         seq (of_result (\<lambda>_. checkLinkTarget tg (cleanArchiveName (am_Name m)) t)) (\<lambda>_.
         seq (x_mkdir env (path_dir dest)) (\<lambda>_.
         x_symlink env t dest))
     | MOther \<Rightarrow> fail (ArchiveInvalid ''not a regular file'')))"

datatype tar_end = CleanEnd | BrokenTar | BrokenGzip

record tar_archive =
  ta_opened :: bool
  ta_members :: "member list"
  ta_end :: tar_end

definition extractTarGz ::
  "extract_env \<Rightarrow> tar_archive \<Rightarrow> string \<Rightarrow> target \<Rightarrow> stage_limits \<Rightarrow> unit x_op" where
  "extractTarGz env a rootdir tg l =
     seq (require (ta_opened a) (StageFailed ''open staged archive'')) (\<lambda>_.
     seq (each (tar_member env rootdir tg l) (ta_members a)) (\<lambda>_.
     require (ta_end a = CleanEnd) (ArchiveInvalid ''broken archive'')))"

text \<open>A zip entry stores the link target as content and its size as an unsigned number.\<close>

definition zip_member :: "extract_env \<Rightarrow> string \<Rightarrow> target \<Rightarrow> stage_limits \<Rightarrow> member \<Rightarrow> unit x_op" where
  "zip_member env rootdir tg l m =
     (let name = trim_suffix (am_Name m) ''/'' in
      seq (on_rules (memberPath rootdir tg l name)) (\<lambda>dest.
      case am_Kind m of
        MLink t \<Rightarrow>
          seq (require (xe_ok env (CallOpen (am_Name m))) (ArchiveInvalid ''read symlink'')) (\<lambda>_.
          seq (of_result (\<lambda>_. checkLinkTarget tg (cleanArchiveName name) (take 4096 t))) (\<lambda>_.
          seq (x_mkdir env (path_dir dest)) (\<lambda>_.
          x_symlink env (take 4096 t) dest)))
      | MOther \<Rightarrow> fail (ArchiveInvalid ''not a regular file'')
      | MDir \<Rightarrow> x_mkdir env dest
      | MReg \<Rightarrow>
          seq (on_rules (\<lambda>r. map_sum id (Pair ()) (accountSize l (i64 (am_Size m)) r))) (\<lambda>_.
          seq (x_mkdir env (path_dir dest)) (\<lambda>_.
          seq (require (xe_ok env (CallOpen (am_Name m))) (ArchiveInvalid ''open member'')) (\<lambda>_.
          writeFileVerified env dest (am_Body m) (i64 (am_Size m)))))))"

definition extractZip ::
  "extract_env \<Rightarrow> member list option \<Rightarrow> string \<Rightarrow> target \<Rightarrow> stage_limits \<Rightarrow> unit x_op" where
  "extractZip env zs rootdir tg l =
     (case zs of
        None \<Rightarrow> fail (ArchiveInvalid ''read zip archive'')
      | Some ms \<Rightarrow> seq (each (zip_member env rootdir tg l) ms) (\<lambda>_. ret ()))"

section \<open>The payload\<close>

definition path_of :: "fs \<Rightarrow> string \<Rightarrow> string list option" where
  "path_of fs p = walk max_links fs [] (path_elems p)"

text \<open>\<open>os.ReadFile\<close> follows a last link, \<open>os.Lstat\<close> does not.\<close>

definition read_file :: "fs \<Rightarrow> string \<Rightarrow> string option" where
  "read_file fs p = (case path_of fs p of
     None \<Rightarrow> None | Some q \<Rightarrow> (case map_of fs q of Some (NFile c) \<Rightarrow> Some c | _ \<Rightarrow> None))"

definition lstat :: "fs \<Rightarrow> string \<Rightarrow> node option" where
  "lstat fs p = (let es = path_elems p in
     if es = [] then Some NDir
     else case walk max_links fs [] (butlast es) of
       None \<Rightarrow> None | Some d \<Rightarrow> map_of fs (d @ [last es]))"

definition regular :: "node option \<Rightarrow> bool" where
  "regular n \<longleftrightarrow> (case n of Some (NFile _) \<Rightarrow> True | _ \<Rightarrow> False)"

definition compositionPath :: string where
  "compositionPath = ''github.com/mihaiflorentin88/filelist-streaming-service/internal/composition''"

definition cut_at :: "char \<Rightarrow> string \<Rightarrow> (string \<times> string) option" where
  "cut_at c s = (if c \<in> set s then Some (takeWhile (\<lambda>x. x \<noteq> c) s, tl (dropWhile (\<lambda>x. x \<noteq> c) s)) else None)"

definition spec_version :: "string \<Rightarrow> string option" where
  "spec_version spec =
     (if has_prefix spec (compositionPath @ ''.'')
      then map_option snd (cut_at (CHR ''='') (drop (length compositionPath + 1) spec)) else None)"

fun injected_in :: "string list \<Rightarrow> string option" where
  "injected_in [] = None"
| "injected_in (f # fs) =
     (let spec = (if f = ''-X'' then (case fs of [] \<Rightarrow> None | n # _ \<Rightarrow> Some n)
          else if has_prefix f ''-X='' then Some (drop 3 f) else None) in
      case (case spec of None \<Rightarrow> None | Some sp \<Rightarrow> spec_version sp) of
        Some v \<Rightarrow> Some v
      | None \<Rightarrow> injected_in fs)"

definition injectedVersion :: "string \<Rightarrow> string option" where
  "injectedVersion ldflags = injected_in (str_fields ldflags)"

definition machoCPU :: "string \<Rightarrow> nat" where
  "machoCPU goarch = (if goarch = ''amd64'' then 16777223 else if goarch = ''arm64'' then 16777228 else 0)"

definition checkMachOArch :: "extract_env \<Rightarrow> string \<Rightarrow> target \<Rightarrow> bool" where
  "checkMachOArch env content tg =
     (case xe_fat env content of
        Fat cpus \<Rightarrow> tg_Flavor tg = FlavorBundle \<and> machoCPU (tg_GOARCH tg) \<in> set cpus
      | BrokenFat \<Rightarrow> False
      | NotFat \<Rightarrow> xe_macho env content = Some (machoCPU (tg_GOARCH tg)))"

definition checkHeaderMachine :: "extract_env \<Rightarrow> string \<Rightarrow> target \<Rightarrow> bool" where
  "checkHeaderMachine env content tg =
     (if tg_GOOS tg = ''linux'' then
        (case (if tg_GOARCH tg = ''amd64'' then Some 62 else if tg_GOARCH tg = ''arm64'' then Some 183
               else if tg_GOARCH tg = ''arm'' then Some (40 :: nat) else None) of
           None \<Rightarrow> False | Some want \<Rightarrow> xe_elf env content = Some want)
      else if tg_GOOS tg = ''windows'' then
        (case (if tg_GOARCH tg = ''amd64'' then Some 34404 else if tg_GOARCH tg = ''arm64'' then Some (43620 :: nat)
               else None) of
           None \<Rightarrow> False | Some want \<Rightarrow> xe_pe env content = Some want)
      else if tg_GOOS tg = ''darwin'' then checkMachOArch env content tg
      else False)"

definition universalBundle :: "extract_env \<Rightarrow> string \<Rightarrow> target \<Rightarrow> bool" where
  "universalBundle env content tg \<longleftrightarrow> tg_GOOS tg = ''darwin'' \<and> tg_Flavor tg = FlavorBundle
     \<and> (case xe_fat env content of Fat _ \<Rightarrow> True | _ \<Rightarrow> False)"

definition VerifyExecutable :: "extract_env \<Rightarrow> string option \<Rightarrow> selection \<Rightarrow> target \<Rightarrow> stage_error + unit" where
  "VerifyExecutable env file sel tg =
     (case file of None \<Rightarrow> Inl (BinaryIdentity ''build info'') | Some content \<Rightarrow>
      (case xe_build env content of None \<Rightarrow> Inl (BinaryIdentity ''build info'') | Some bi \<Rightarrow>
       (let get = (\<lambda>k. case map_of (rev bi) k of None \<Rightarrow> [] | Some v \<Rightarrow> v) in
        if get ''GOOS'' \<noteq> tg_GOOS tg then Inl (BinaryIdentity ''GOOS'')
        else if \<not> checkHeaderMachine env content tg then Inl (BinaryIdentity ''machine'')
        else if get ''GOARCH'' \<noteq> tg_GOARCH tg \<and> \<not> universalBundle env content tg
          then Inl (BinaryIdentity ''GOARCH'')
        else if tg_GOOS tg = ''linux'' \<and> tg_GOARCH tg = ''arm'' \<and> get ''GOARM'' \<noteq> ''7''
          then Inl (BinaryIdentity ''GOARM'')
        else if contains_str (get ''-tags'') ''headless'' \<and> tg_Flavor tg \<noteq> FlavorHeadless
          then Inl (BinaryIdentity ''flavor'')
        else (case injectedVersion (get ''-ldflags'') of
            Some v \<Rightarrow> if v \<noteq> normalizeVersion (se_Version sel) then Inl (BinaryIdentity ''version'') else Inr ()
          | None \<Rightarrow> Inr ()))))"

subsection \<open>The bundle\<close>

record bundle_info =
  bi_Identifier :: string
  bi_Executable :: string
  bi_Version :: string
  bi_ShortVersion :: string

definition plist_value :: "string \<Rightarrow> string \<Rightarrow> bundle_info \<Rightarrow> bundle_info" where
  "plist_value key v info =
     (if key = ''CFBundleIdentifier'' then info\<lparr>bi_Identifier := v\<rparr>
      else if key = ''CFBundleExecutable'' then info\<lparr>bi_Executable := v\<rparr>
      else if key = ''CFBundleVersion'' then info\<lparr>bi_Version := v\<rparr>
      else if key = ''CFBundleShortVersionString'' then info\<lparr>bi_ShortVersion := v\<rparr>
      else info)"

fun plist_loop :: "plist_token list \<Rightarrow> string \<Rightarrow> bundle_info \<Rightarrow> bundle_info option" where
  "plist_loop [] key info = Some info"
| "plist_loop (t # ts) key info =
     (case t of
        BrokenElem \<Rightarrow> None
      | OtherElem \<Rightarrow> plist_loop ts key info
      | KeyElem k \<Rightarrow> plist_loop ts k info
      | StringElem v \<Rightarrow> plist_loop ts [] (plist_value key v info))"

definition readBundleInfo :: "extract_env \<Rightarrow> fs \<Rightarrow> string \<Rightarrow> stage_error + bundle_info" where
  "readBundleInfo env fs p =
     (case read_file fs p of
        None \<Rightarrow> Inl (BinaryIdentity ''read bundle Info.plist'')
      | Some content \<Rightarrow>
          (case plist_loop (xe_plist env content) []
              \<lparr>bi_Identifier = [], bi_Executable = [], bi_Version = [], bi_ShortVersion = []\<rparr> of
             None \<Rightarrow> Inl (BinaryIdentity ''parse bundle Info.plist'')
           | Some info \<Rightarrow>
               if bi_Identifier info = [] \<or> bi_Executable info = [] \<or> bi_Version info = [] \<or> bi_ShortVersion info = []
               then Inl (BinaryIdentity ''missing identity fields'') else Inr info))"

definition bundleIdentifier :: string where "bundleIdentifier = ''com.filelist-streaming.app''"

definition verifyBundle :: "extract_env \<Rightarrow> fs \<Rightarrow> string \<Rightarrow> selection \<Rightarrow> target \<Rightarrow> stage_error + unit" where
  "verifyBundle env fs bundle sel tg =
     (if tg_GOOS tg \<noteq> ''darwin'' then Inl (BinaryIdentity ''bundle platform'')
      else (case readBundleInfo env fs (path_join [bundle, ''Contents'', ''Info.plist'']) of
        Inl e \<Rightarrow> Inl e
      | Inr info \<Rightarrow>
          if bi_Identifier info \<noteq> bundleIdentifier then Inl (BinaryIdentity ''bundle identifier'')
          else if bi_ShortVersion info \<noteq> se_Version sel \<or> bi_Version info \<noteq> se_Version sel
            then Inl (BinaryIdentity ''bundle version'')
          else
            let executable = path_join [bundle, ''Contents'', ''MacOS'', bi_Executable info] in
            if \<not> regular (lstat fs executable) then Inl (BinaryIdentity ''bundle executable'')
            else (case VerifyExecutable env (read_file fs executable) sel tg of
              Inl e \<Rightarrow> Inl e
            | Inr _ \<Rightarrow>
                (case xe_signed env of
                   None \<Rightarrow> Inl (BinaryIdentity ''signature unavailable'')
                 | Some signed \<Rightarrow> if signed bundle then Inr () else Inl (BinaryIdentity ''signature'')))))"

text \<open>\<open>os.ReadDir\<close> lists the entries whose parent is the directory.\<close>

definition findBundleDir :: "fs \<Rightarrow> string \<Rightarrow> stage_error + string" where
  "findBundleDir fs dir =
     (case path_of fs dir of
        None \<Rightarrow> Inl (StageFailed ''read staging directory'')
      | Some d \<Rightarrow>
          (case filter (\<lambda>(p, n). p \<noteq> [] \<and> butlast p = d \<and> n = NDir \<and> has_suffix (last p) bundleSuffix) fs of
             [(p, _)] \<Rightarrow> Inr (path_join [dir, last p])
           | _ \<Rightarrow> Inl (ArchiveInvalid ''bundle directories'')))"

record staged_payload =
  sp_Dir :: string
  sp_Executable :: string
  sp_Bundle :: string

definition payload_name :: "target \<Rightarrow> string" where
  "payload_name tg = ''filelist-streaming'' @ (if tg_GOOS tg = ''windows'' then ''.exe'' else [])"

definition verifyPayload :: "extract_env \<Rightarrow> string \<Rightarrow> selection \<Rightarrow> target \<Rightarrow> fs \<Rightarrow> stage_error + staged_payload" where
  "verifyPayload env dir sel tg fs =
     (if tg_Flavor tg = FlavorBundle then
        (case findBundleDir fs dir of
           Inl e \<Rightarrow> Inl e
         | Inr bundle \<Rightarrow>
             (case verifyBundle env fs bundle sel tg of
                Inl e \<Rightarrow> Inl e
              | Inr _ \<Rightarrow> Inr \<lparr>sp_Dir = dir, sp_Executable = [], sp_Bundle = bundle\<rparr>))
      else
        let executable = path_join [dir, payload_name tg] in
        if lstat fs executable = None then Inl (ArchiveInvalid ''payload executable absent'')
        else if \<not> regular (lstat fs executable) then Inl (ArchiveInvalid ''payload executable not regular'')
        else if \<not> xe_ok env (CallChmod executable) then Inl (StageFailed ''make payload executable'')
        else (case VerifyExecutable env (read_file fs executable) sel tg of
          Inl e \<Rightarrow> Inl e
        | Inr _ \<Rightarrow> Inr \<lparr>sp_Dir = dir, sp_Executable = executable, sp_Bundle = []\<rparr>))"

section \<open>Extract\<close>

record archive =
  ac_tar :: tar_archive
  ac_zip :: "member list option"

definition extractInto ::
  "extract_env \<Rightarrow> archive \<Rightarrow> string \<Rightarrow> selection \<Rightarrow> target \<Rightarrow> stage_limits \<Rightarrow> staged_payload x_op" where
  "extractInto env a dir sel tg l =
     seq (if has_suffix (se_AssetName sel) ''.tar.gz'' then extractTarGz env (ac_tar a) dir tg l
          else if has_suffix (se_AssetName sel) ''.zip'' then extractZip env (ac_zip a) dir tg l
          else fail UnsupportedArchive) (\<lambda>_.
     of_result (\<lambda>x. verifyPayload env dir sel tg (xs_fs x)))"

text \<open>\<open>os.RemoveAll\<close> of the staging directory on every failure.\<close>

definition remove_all_at :: "string \<Rightarrow> fs \<Rightarrow> fs" where
  "remove_all_at p fs = (let es = path_elems p in
     case walk max_links fs [] (butlast es) of None \<Rightarrow> fs | Some d \<Rightarrow> remove_tree (d @ [last es]) fs)"

definition staging_name :: "extract_env \<Rightarrow> string" where
  "staging_name env = ''.filelist-extract-'' @ xe_token env"

definition Extract ::
  "extract_env \<Rightarrow> archive \<Rightarrow> string \<Rightarrow> selection \<Rightarrow> target \<Rightarrow> stage_limits \<Rightarrow> fs \<Rightarrow> (stage_error + staged_payload) \<times> xstate" where
  "Extract env a destDir sel tg l fs =
     (let x0 = \<lparr>xs_rules = new_rules, xs_fs = fs, xs_streamed = 0\<rparr>;
          dir = path_join [destDir, staging_name env] in
      if bad_limits l then (Inl InvalidLimits, x0)
      else (case (if xe_ok env CallTemp then create (path_elems dir) NDir fs else None) of
        None \<Rightarrow> (Inl (StageFailed ''create staging directory''), x0)
      | Some fs1 \<Rightarrow>
          (case extractInto env a dir sel tg l (x0\<lparr>xs_fs := fs1\<rparr>) of
             (Inr p, x) \<Rightarrow> (Inr p, x)
           | (Inl e, x) \<Rightarrow> (Inl e, x\<lparr>xs_fs := remove_all_at dir (xs_fs x)\<rparr>))))"


section \<open>The file system under a staging directory\<close>

lemma walk_real:
  assumes "wf_elems es" "\<And>q t. q \<noteq> [] \<Longrightarrow> prefix q es \<Longrightarrow> map_of fs (cur @ q) \<noteq> Some (NLink t)"
    "walk k fs cur es = Some d"
  shows "d = cur @ es"
  using assms
proof (induction es arbitrary: cur)
  case (Cons e es)
  have e: "e \<noteq> []" "e \<noteq> ''.''" "e \<noteq> ''..''" "wf_elems es" using Cons.prems(1) by (auto simp: good_elem_def)
  have nl: "map_of fs (cur @ [e]) \<noteq> Some (NLink t)" for t using Cons.prems(2)[of "[e]"] by simp
  have nls: "map_of fs ((cur @ [e]) @ q) \<noteq> Some (NLink t)" if "q \<noteq> []" "prefix q es" for q t
    using Cons.prems(2)[of "e # q"] that by simp
  from Cons.prems(3) e nl show ?case
    using Cons.IH[OF e(4) nls]
    by (auto split: option.splits node.splits if_splits)
qed simp

lemma walk_dirs:
  assumes "wf_elems es" "\<And>q. q \<noteq> [] \<Longrightarrow> prefix q es \<Longrightarrow> map_of fs (cur @ q) = Some NDir"
  shows "walk k fs cur es = Some (cur @ es)"
  using assms
proof (induction es arbitrary: cur)
  case (Cons e es)
  have e: "e \<noteq> []" "e \<noteq> ''.''" "e \<noteq> ''..''" "wf_elems es" using Cons.prems(1) by (auto simp: good_elem_def)
  have "walk k fs (cur @ [e]) es = Some ((cur @ [e]) @ es)"
  proof (rule Cons.IH[OF e(4)])
    fix q assume "q \<noteq> []" "prefix q es"
    then show "map_of fs ((cur @ [e]) @ q) = Some NDir" using Cons.prems(2)[of "e # q"] by simp
  qed
  then show ?case using e Cons.prems(2)[of "[e]"] by simp
qed simp

lemma map_of_remove_tree [simp]:
  "map_of (remove_tree d fs) p = (if prefix d p then None else map_of fs p)"
  by (induction fs) (auto simp: remove_tree_def)

text \<open>What extraction preserves: outside of \<open>R\<close> nothing changes, \<open>R\<close> is a directory, and no link
  lies in it.\<close>

definition staged_only :: "fs \<Rightarrow> string list \<Rightarrow> fs \<Rightarrow> bool" where
  "staged_only fs0 R fs \<longleftrightarrow> (\<forall>p. \<not> prefix R p \<longrightarrow> map_of fs p = map_of fs0 p) \<and> map_of fs R = Some NDir
     \<and> (\<forall>p t. prefix R p \<longrightarrow> map_of fs p \<noteq> Some (NLink t))"

text \<open>The directory extraction stages in: all its ancestors are real directories.\<close>

definition real_root :: "fs \<Rightarrow> string list \<Rightarrow> bool" where
  "real_root fs R \<longleftrightarrow> wf_elems R \<and> R \<noteq> [] \<and> (\<forall>q. q \<noteq> [] \<longrightarrow> strict_prefix q R \<longrightarrow> map_of fs q = Some NDir)"

lemma below_root:
  assumes "real_root fs0 R" "staged_only fs0 R fs" "prefix q (R @ es)" "q \<noteq> []"
  shows "map_of fs q \<noteq> Some (NLink t)" "prefix q R \<Longrightarrow> map_of fs q = Some NDir"
proof -
  have up: "map_of fs q = Some NDir" if "prefix q R"
  proof (cases "q = R")
    case True
    with assms(2) show ?thesis by (simp add: staged_only_def)
  next
    case False
    with that have "strict_prefix q R" by (simp add: strict_prefix_def)
    then have "\<not> prefix R q" using prefix_order.less_le_not_le by blast
    with assms(2) have "map_of fs q = map_of fs0 q" by (simp add: staged_only_def)
    with \<open>strict_prefix q R\<close> assms(1,4) show ?thesis by (simp add: real_root_def)
  qed
  then show "prefix q R \<Longrightarrow> map_of fs q = Some NDir" .
  have "prefix q R \<or> prefix R q" using assms(3) by (metis prefix_append prefixI)
  then show "map_of fs q \<noteq> Some (NLink t)"
  proof
    assume "prefix R q"
    then show ?thesis using assms(2) by (simp add: staged_only_def)
  qed (simp add: up)
qed

lemma walk_staged:
  assumes "real_root fs0 R" "staged_only fs0 R fs" "wf_elems es"
  shows "walk k fs [] (R @ es) = Some d \<Longrightarrow> d = R @ es" "walk k fs [] R = Some R"
proof -
  have w: "wf_elems (R @ es)" using assms(1,3) by (simp add: real_root_def)
  show "d = R @ es" if "walk k fs [] (R @ es) = Some d"
    using walk_real[OF w _ that] below_root(1)[OF assms(1,2)] by simp
  have "wf_elems R" using w by simp
  then show "walk k fs [] R = Some R"
    using walk_dirs[of R fs "[]"] below_root(2)[OF assms(1,2), of _ "[]"] by simp
qed

lemma staged_only_insert:
  "staged_only fs0 R fs \<Longrightarrow> prefix R p \<Longrightarrow> p \<noteq> R \<Longrightarrow> (\<And>t. n \<noteq> NLink t) \<Longrightarrow> staged_only fs0 R ((p, n) # fs)"
  by (auto simp: staged_only_def)

lemma create_staged:
  assumes "real_root fs0 R" "staged_only fs0 R fs" "wf_elems es" "create (R @ es) n fs = Some fs'" "\<And>t. n \<noteq> NLink t"
  shows "fs' = (R @ es, n) # fs" "staged_only fs0 R fs'"
proof -
  have R: "R \<noteq> []" using assms(1) by (simp add: real_root_def)
  show f: "fs' = (R @ es, n) # fs"
  proof (cases es rule: rev_cases)
    case Nil
    have "walk max_links fs [] (butlast R) = Some (butlast R)"
    proof (rule walk_dirs[of _ _ "[]", simplified])
      show "wf_elems (butlast R)" using assms(1)
        by (metis R append_butlast_last_id real_root_def wf_elems_simps(3))
      fix q assume "q \<noteq> []" "prefix q (butlast R)"
      then show "map_of fs q = Some NDir"
        using below_root(2)[OF assms(1,2), of q "[]"] prefixeq_butlast prefix_order.trans by fastforce
    qed
    then show ?thesis using assms(2,4) R Nil by (simp add: create_def staged_only_def split: if_splits)
  next
    case (snoc es' e)
    then have "wf_elems es'" using assms(3) by simp
    from walk_staged(1)[OF assms(1,2) this] snoc assms(4) show ?thesis
      by (auto simp: create_def butlast_append split: option.splits if_splits)
  qed
  have "es \<noteq> []" using assms(2,4) f by (auto simp: create_def staged_only_def split: option.splits if_splits)
  then show "staged_only fs0 R fs'" unfolding f using staged_only_insert[OF assms(2)] assms(5) by simp
qed

lemma mkdir_up_staged:
  assumes "real_root fs0 R" "wf_elems es" "staged_only fs0 R fs" "mkdir_up (rev (R @ es)) fs = (ok, fs')"
  shows "staged_only fs0 R fs'"
  using assms(2-)
proof (induction es arbitrary: ok fs' rule: rev_induct)
  case Nil
  obtain e rp where R: "rev R = e # rp" using assms(1) by (cases "rev R") (auto simp: real_root_def)
  then have R': "rev (e # rp) = R" using rev_rev_ident[of R] by simp
  have "mkdir_up (e # rp) fs = (ok, fs')" using Nil.prems(3) R by simp
  then show ?case
    using walk_staged(2)[OF assms(1) Nil.prems(2) Nil.prems(1)] Nil.prems(2)
    unfolding mkdir_up.simps R' by simp
next
  case (snoc e es)
  have w: "wf_elems es" using snoc.prems(1) by simp
  have p: "rev (R @ es @ [e]) = e # rev (R @ es)" "rev (e # rev (R @ es)) = R @ es @ [e]" by simp_all
  obtain ok1 fs1 where m: "mkdir_up (rev (R @ es)) fs = (ok1, fs1)" by fastforce
  then have s1: "staged_only fs0 R fs1" using snoc.IH[OF w snoc.prems(2)] by blast
  have "fs' \<in> {fs, fs1} \<or> create (R @ es @ [e]) NDir fs1 = Some fs'"
    using snoc.prems(3) unfolding p(1) mkdir_up.simps p(2) m
    by (auto split: option.splits bool.splits)
  then show ?case
    using create_staged(2)[OF assms(1) s1 snoc.prems(1)] s1 snoc.prems(2) by auto
qed

section \<open>Where a member lands\<close>

lemma path_elems_slash_end: "path_elems (u @ ''/'') = path_elems u"
proof -
  have "split_on c (s @ [c]) = split_on c s @ [[]]" for c s
    by (induction s) (auto split: list.splits)
  then show ?thesis by (simp add: path_elems_def)
qed

lemma path_dir_abs_path:
  assumes "wf_elems (xs @ [x])"
  shows "path_dir (abs_path (xs @ [x])) = abs_path xs"
proof -
  have x: "CHR ''/'' \<notin> set x" "wf_elems xs" using assms by (auto simp: good_elem_def)
  have "\<exists>u. abs_path (xs @ [x]) = u @ ''/'' @ x \<and> u = (if xs = [] then [] else abs_path xs)"
    by (induction xs rule: induct_list012) (auto simp: abs_path_def)
  then obtain u where u: "abs_path (xs @ [x]) = u @ ''/'' @ x" "u = (if xs = [] then [] else abs_path xs)" by blast
  have "dropWhile (\<lambda>c. c \<noteq> CHR ''/'') (rev (u @ ''/'' @ x)) = CHR ''/'' # rev u"
    using x(1) by (simp add: dropWhile_append)
  then have d: "path_dir (abs_path (xs @ [x])) = path_clean (u @ ''/'')"
    by (simp add: path_dir_def u(1))
  show ?thesis
  proof (cases "xs = []")
    case True
    then show ?thesis using d u(2) path_clean_abs_path[of "[]"] by (simp add: abs_path_def)
  next
    case False
    then have "path_elems (u @ ''/'') = xs" "is_abs (u @ ''/'')"
      using u(2) x(2) path_elems_slash_end[of u] is_abs_append[of u] by simp_all
    then show ?thesis using d x(2) by (simp add: path_clean_def clean_stack_good)
  qed
qed

lemma clean_stack_elems: "set (clean_stack r st es) \<subseteq> set st \<union> set es"
proof (induction es arbitrary: st)
  case (Cons e es)
  from Cons[of "e # st"] Cons[of "tl st"] Cons[of "[]"] Cons[of "[e]"] show ?case
    by (cases st) auto
qed simp

lemma cleanArchiveName_elems:
  assumes "name \<noteq> []" "\<not> has_prefix name ''/''" "cleanArchiveName name \<noteq> ''.''"
    "\<not> list_ex (\<lambda>part. part = ''..'') (split_on (CHR ''/'') (cleanArchiveName name))"
  obtains es where "wf_elems es" "es \<noteq> []" "cleanArchiveName name = join_with ''/'' es"
proof
  let ?t = "trim_suffix name ''/''"
  let ?es = "clean_stack False [] (path_elems ?t)"
  have "\<not> is_abs ?t" using assms(2)
    by (auto simp: is_abs_def has_prefix_def trim_suffix_def dest: prefix_order.trans[OF _ take_is_prefix])
  then have c: "path_clean ?t = (if ?es = [] then ''.'' else join_with ''/'' ?es)"
    by (simp add: path_clean_def path_elems_def Let_def)
  have el: "\<forall>e\<in>set ?es. e \<noteq> [] \<and> e \<noteq> ''.'' \<and> CHR ''/'' \<notin> set e"
  proof
    fix e assume "e \<in> set ?es"
    then have "e \<in> set (path_elems ?t)" using clean_stack_elems[of False "[]" "path_elems ?t"] by auto
    then show "e \<noteq> [] \<and> e \<noteq> ''.'' \<and> CHR ''/'' \<notin> set e"
      using path_elems_no_slash path_elems_nontrivial by blast
  qed
  show ne: "?es \<noteq> []"
  proof
    assume "?es = []"
    then have "cleanArchiveName name = ''.''"
      using c by (simp add: cleanArchiveName_def trim_prefix_def has_prefix_def)
    with assms(3) show False by simp
  qed
  have sp: "split_on (CHR ''/'') (join_with ''/'' ?es) = ?es"
    by (rule split_join[OF ne]) (use el in blast)
  have "\<not> prefix ''./'' (join_with ''/'' ?es)"
  proof
    assume "prefix ''./'' (join_with ''/'' ?es)"
    then obtain y where "join_with ''/'' ?es = ''./'' @ y" by (auto simp: prefix_def)
    then have "split_on (CHR ''/'') (join_with ''/'' ?es) = ''.'' # split_on (CHR ''/'') y" by simp
    with sp el show False by (metis list.set_intros(1))
  qed
  then show j: "cleanArchiveName name = join_with ''/'' ?es"
    using c ne by (simp add: cleanArchiveName_def trim_prefix_def has_prefix_def)
  show "wf_elems ?es" using el assms(4) unfolding j sp
    by (auto simp: wf_elems_def good_elem_def list_ex_iff)
qed

definition lands_in :: "string list \<Rightarrow> string \<Rightarrow> bool" where
  "lands_in R dest \<longleftrightarrow> (\<exists>es. wf_elems es \<and> es \<noteq> [] \<and> dest = abs_path (R @ es))"

lemma memberPath_lands:
  assumes "wf_elems R" "memberPath (abs_path R) tg l name r = Inr (dest, r')"
  shows "dest = [] \<or> lands_in R dest"
proof (cases "cleanArchiveName name = ''.''")
  case True
  then show ?thesis using assms(2) by (simp add: memberPath_def Let_def split: if_splits)
next
  case False
  with assms(2) have n: "name \<noteq> []" "\<not> has_prefix name ''/''"
    "\<not> list_ex (\<lambda>part. part = ''..'') (split_on (CHR ''/'') (cleanArchiveName name))"
    and d: "dest = path_join [abs_path R, cleanArchiveName name]"
    by (auto simp: memberPath_def Let_def split: if_splits sum.splits)
  obtain es where "wf_elems es" "es \<noteq> []" "cleanArchiveName name = join_with ''/'' es"
    using cleanArchiveName_elems[OF n(1,2) False n(3)] .
  then show ?thesis using d path_join_good[OF assms(1)] unfolding lands_in_def by metis
qed
section \<open>Extraction stays in its directory\<close>

definition inside :: "fs \<Rightarrow> string list \<Rightarrow> xstate \<Rightarrow> bool" where
  "inside fs0 R x \<longleftrightarrow> staged_only fs0 R (xs_fs x)"

lemma lands_in_elems:
  assumes "wf_elems R" "lands_in R dest"
  obtains es e where "wf_elems (es @ [e])" "dest = abs_path (R @ es @ [e])"
    "path_elems dest = R @ es @ [e]" "path_elems (path_dir dest) = R @ es"
proof -
  from assms(2) obtain es e where e: "wf_elems (es @ [e])" "dest = abs_path (R @ es @ [e])"
    unfolding lands_in_def by (metis append_butlast_last_id)
  have "path_dir (abs_path ((R @ es) @ [e])) = abs_path (R @ es)"
    by (rule path_dir_abs_path) (use e(1) assms(1) in simp)
  with e assms(1) that[OF e] show ?thesis by simp
qed

lemma on_rules_inside:
  "(\<And>r a r'. f r = Inr (a, r') \<Longrightarrow> Q a) \<Longrightarrow> yields (inside fs0 R) (on_rules f) Q"
  by (rule yieldsI) (auto simp: on_rules_def inside_def split: sum.splits)

lemma x_mkdir_inside:
  assumes "real_root fs0 R" "wf_elems es" "path_elems p = R @ es"
  shows "keeps (inside fs0 R) (x_mkdir env p)"
proof (rule yieldsI)
  fix x r t assume x: "inside fs0 R x" "x_mkdir env p x = (r, t)"
  obtain ok fs where m: "mkdir_up (rev (R @ es)) (xs_fs x) = (ok, fs)" by fastforce
  then have "staged_only fs0 R fs" using mkdir_up_staged[OF assms(1,2)] x(1) by (simp add: inside_def)
  then show "inside fs0 R t \<and> (\<forall>a. r = Inr a \<longrightarrow> True)"
    using x m by (auto simp: x_mkdir_def inside_def assms(3) split: if_splits)
qed

lemma x_mkdir_empty: "keeps I (x_mkdir env [])"
  by (rule yieldsI) (simp add: x_mkdir_def)

lemma x_mkdir_dot: "keeps (inside fs0 R) (x_mkdir env ''.'')"
  by (rule yieldsI) (auto simp: x_mkdir_def path_elems_def inside_def split: if_splits)

lemma writeFileVerified_inside:
  assumes R: "real_root fs0 R" and p: "wf_elems es" "path_elems dest = R @ es"
  shows "keeps (inside fs0 R) (writeFileVerified env dest body n)"
proof (rule yieldsI)
  fix x r t assume x: "inside fs0 R x" "writeFileVerified env dest body n x = (r, t)"
  have "staged_only fs0 R fs" if "create (R @ es) (NFile c) (xs_fs x) = Some fs" for c fs
    by (rule create_staged(2)[OF R _ p(1) that]) (use x(1) in \<open>simp_all add: inside_def\<close>)
  then show "inside fs0 R t \<and> (\<forall>a. r = Inr a \<longrightarrow> True)"
    using x by (auto simp: writeFileVerified_def inside_def p(2) Let_def split: option.splits if_splits)
qed

lemma writeFileVerified_empty: "keeps I (writeFileVerified env [] body n)"
  by (rule yieldsI) (simp add: writeFileVerified_def create_def path_elems_def)

text \<open>Both formats write a regular member the same way.\<close>

lemma write_member_inside:
  assumes R: "real_root fs0 R" and d: "dest = [] \<or> lands_in R dest"
  shows "keeps (inside fs0 R) (x_mkdir env dest)" "keeps (inside fs0 R) (x_mkdir env (path_dir dest))"
    "keeps (inside fs0 R) (writeFileVerified env dest body n)"
proof -
  have w: "wf_elems R" using R by (simp add: real_root_def)
  have dot: "path_dir [] = ''.''" by (simp add: path_dir_def path_clean_def)
  show "keeps (inside fs0 R) (x_mkdir env dest)" "keeps (inside fs0 R) (x_mkdir env (path_dir dest))"
    "keeps (inside fs0 R) (writeFileVerified env dest body n)"
    using d by (auto simp: x_mkdir_empty dot x_mkdir_dot writeFileVerified_empty elim!: lands_in_elems[OF w]
      intro: x_mkdir_inside[OF R] writeFileVerified_inside[OF R])
qed

lemma no_links:
  assumes "tg_Flavor tg \<noteq> FlavorBundle"
  shows "seq (of_result (\<lambda>_. checkLinkTarget tg c t)) f = fail (ArchiveInvalid ''symlink outside a bundle'')"
  by (rule ext) (simp add: assms checkLinkTarget_def seq_def of_result_def fail_def)

lemma tar_member_inside:
  assumes R: "real_root fs0 R" and tg: "tg_Flavor tg \<noteq> FlavorBundle"
  shows "keeps (inside fs0 R) (tar_member env (abs_path R) tg l m)"
  unfolding tar_member_def
proof (rule yields_seq[OF on_rules_inside])
  fix r dest r' assume "memberPath (abs_path R) tg l (am_Name m) r = Inr (dest, r')"
  then show "dest = [] \<or> lands_in R dest" by (rule memberPath_lands[rotated]) (use R in \<open>simp add: real_root_def\<close>)
next
  fix dest assume d: "dest = [] \<or> lands_in R dest"
  note w = write_member_inside[OF R d]
  show "keeps (inside fs0 R)
    (if dest = [] then ret ()
     else case am_Kind m of
       MDir \<Rightarrow> x_mkdir env dest
     | MReg \<Rightarrow>
         seq (on_rules (\<lambda>r. map_sum id (Pair ()) (accountSize l (am_Size m) r))) (\<lambda>_.
         seq (x_mkdir env (path_dir dest)) (\<lambda>_.
         writeFileVerified env dest (am_Body m) (am_Size m)))
     | MLink t \<Rightarrow>
         seq (of_result (\<lambda>_. checkLinkTarget tg (cleanArchiveName (am_Name m)) t)) (\<lambda>_.
         seq (x_mkdir env (path_dir dest)) (\<lambda>_.
         x_symlink env t dest))
     | MOther \<Rightarrow> fail (ArchiveInvalid ''not a regular file''))"
    by (auto simp: no_links[OF tg] w split: member_kind.splits
      intro!: yields_pure yields_seq[OF on_rules_inside[where Q = "\<lambda>_. True"]] yields_seq[OF w(2)])
qed

lemma zip_member_inside:
  assumes R: "real_root fs0 R" and tg: "tg_Flavor tg \<noteq> FlavorBundle"
  shows "keeps (inside fs0 R) (zip_member env (abs_path R) tg l m)"
  unfolding zip_member_def Let_def
proof (rule yields_seq[OF on_rules_inside])
  fix r dest r' assume "memberPath (abs_path R) tg l (trim_suffix (am_Name m) ''/'') r = Inr (dest, r')"
  then show "dest = [] \<or> lands_in R dest" by (rule memberPath_lands[rotated]) (use R in \<open>simp add: real_root_def\<close>)
next
  fix dest assume d: "dest = [] \<or> lands_in R dest"
  note w = write_member_inside[OF R d]
  show "keeps (inside fs0 R)
    (case am_Kind m of
        MLink t \<Rightarrow>
          seq (require (xe_ok env (CallOpen (am_Name m))) (ArchiveInvalid ''read symlink'')) (\<lambda>_.
          seq (of_result (\<lambda>_. checkLinkTarget tg (cleanArchiveName (trim_suffix (am_Name m) ''/'')) (take 4096 t))) (\<lambda>_.
          seq (x_mkdir env (path_dir dest)) (\<lambda>_.
          x_symlink env (take 4096 t) dest)))
      | MOther \<Rightarrow> fail (ArchiveInvalid ''not a regular file'')
      | MDir \<Rightarrow> x_mkdir env dest
      | MReg \<Rightarrow>
          seq (on_rules (\<lambda>r. map_sum id (Pair ()) (accountSize l (i64 (am_Size m)) r))) (\<lambda>_.
          seq (x_mkdir env (path_dir dest)) (\<lambda>_.
          seq (require (xe_ok env (CallOpen (am_Name m))) (ArchiveInvalid ''open member'')) (\<lambda>_.
          writeFileVerified env dest (am_Body m) (i64 (am_Size m))))))"
    by (auto simp: no_links[OF tg] w split: member_kind.splits
      intro!: yields_pure yields_seq[OF on_rules_inside[where Q = "\<lambda>_. True"]] yields_seq[OF w(2)]
        yields_seq[OF yields_require[where Q = "\<lambda>_. True"]])
qed

lemma extractInto_inside:
  assumes "real_root fs0 R" "tg_Flavor tg \<noteq> FlavorBundle"
  shows "keeps (inside fs0 R) (extractInto env a (abs_path R) sel tg l)"
proof -
  have "keeps (inside fs0 R) (each (tar_member env (abs_path R) tg l) ms)"
    "keeps (inside fs0 R) (each (zip_member env (abs_path R) tg l) ms)" for ms
    using yields_each[OF tar_member_inside[OF assms]] yields_each[OF zip_member_inside[OF assms]]
    by (auto elim: yields_weaken)
  then show ?thesis
    unfolding extractInto_def extractTarGz_def extractZip_def
    by (auto intro!: yields_seq[where P = "\<lambda>_. True"] yields_pure yields_require split: option.splits)
qed

lemma payload_name_good: "good_elem (payload_name tg)"
  by (simp add: payload_name_def good_elem_def)

lemma executable_staged:
  assumes "real_root fs0 R" "staged_only fs0 R fs" "tg_Flavor tg \<noteq> FlavorBundle"
    "verifyPayload env (abs_path R) sel tg fs = Inr p"
  shows "\<exists>c. sp_Executable p = abs_path (R @ [payload_name tg]) \<and> map_of fs (R @ [payload_name tg]) = Some (NFile c)"
proof -
  let ?e = "abs_path (R @ [payload_name tg])"
  have w: "wf_elems R" using assms(1) by (simp add: real_root_def)
  have j: "path_join [abs_path R, payload_name tg] = ?e"
    using path_join_good[OF w, of "[payload_name tg]"] payload_name_good by simp
  have "lstat fs ?e = map_of fs (R @ [payload_name tg])"
    using walk_staged(2)[OF assms(1,2), of "[]"] w payload_name_good by (simp add: lstat_def Let_def)
  then show ?thesis using assms(3,4)
    by (auto simp: verifyPayload_def Let_def j regular_def split: if_splits sum.splits option.splits node.splits)
qed

text \<open>
  Property C13. (\<open>Staged.Extract\<close>) Whatever the archive holds and whatever call fails, a file
  or headless update changes nothing outside of its fresh staging directory, a failure leaves
  the file system as it was, and a success returns a regular file of the staging directory.
\<close>

theorem extraction_contained:
  assumes "tg_Flavor tg \<noteq> FlavorBundle" "wf_elems D" "CHR ''/'' \<notin> set (xe_token env)"
    "\<forall>q. prefix q D \<longrightarrow> is_dir fs q"
    "\<forall>p. prefix (D @ [staging_name env]) p \<longrightarrow> map_of fs p = None"
    "Extract env a (abs_path D) sel tg l fs = (r, x)"
  shows "(\<forall>p. \<not> prefix (D @ [staging_name env]) p \<longrightarrow> map_of (xs_fs x) p = map_of fs p)
    \<and> (\<forall>e. r = Inl e \<longrightarrow> map_of (xs_fs x) = map_of fs)
    \<and> (\<forall>p. r = Inr p \<longrightarrow> (\<exists>c. sp_Executable p = abs_path (D @ [staging_name env, payload_name tg])
         \<and> map_of (xs_fs x) (D @ [staging_name env, payload_name tg]) = Some (NFile c)))"
proof -
  let ?R = "D @ [staging_name env]"
  let ?x0 = "\<lparr>xs_rules = new_rules, xs_fs = fs, xs_streamed = 0\<rparr>"
  have n: "good_elem (staging_name env)" using assms(3) by (simp add: good_elem_def staging_name_def)
  have wR: "wf_elems ?R" using assms(2) n by simp
  have dir: "path_join [abs_path D, staging_name env] = abs_path ?R"
    using path_join_good[OF assms(2), of "[staging_name env]"] n by simp
  have root: "real_root ((?R, NDir) # fs) ?R"
    using wR assms(4) by (auto simp: real_root_def is_dir_def strict_prefix_def)
  have walkD: "walk k gs [] D = Some D" if "\<forall>p. \<not> prefix ?R p \<longrightarrow> map_of gs p = map_of fs p" for k gs
  proof (rule walk_dirs[of _ _ "[]", simplified, OF assms(2)])
    fix q assume q: "q \<noteq> []" "prefix q D"
    then have "\<not> prefix ?R q" by (auto dest: prefix_order.trans prefix_length_le)
    moreover have "map_of fs q = Some NDir" using q assms(4) by (auto simp: is_dir_def)
    ultimately show "map_of gs q = Some NDir" using that by simp
  qed
  have undo: "map_of (remove_all_at (abs_path ?R) gs) = map_of fs"
    if "\<forall>p. \<not> prefix ?R p \<longrightarrow> map_of gs p = map_of fs p" for gs
    using walkD[OF that] assms(5) that wR by (auto simp: remove_all_at_def)
  show ?thesis
  proof (cases "bad_limits l \<or> \<not> xe_ok env CallTemp")
    case True
    then have "xs_fs x = fs" "\<exists>e. r = Inl e" using assms(6) by (auto simp: Extract_def Let_def split: if_splits)
    then show ?thesis by auto
  next
    case False
    have "create ?R NDir fs = Some ((?R, NDir) # fs)"
      using walkD[of fs] assms(4,5) by (simp add: create_def is_dir_def)
    then have c: "create (path_elems (abs_path ?R)) NDir fs = Some ((?R, NDir) # fs)"
      using wR by simp
    obtain r1 x1 where e: "extractInto env a (abs_path ?R) sel tg l (?x0\<lparr>xs_fs := (?R, NDir) # fs\<rparr>) = (r1, x1)"
      by fastforce
    have "inside ((?R, NDir) # fs) ?R (?x0\<lparr>xs_fs := (?R, NDir) # fs\<rparr>)"
      using assms(5) by (auto simp: inside_def staged_only_def)
    from yieldsD(1)[OF extractInto_inside[OF root assms(1)] this e]
    have out: "\<forall>p. \<not> prefix ?R p \<longrightarrow> map_of (xs_fs x1) p = map_of fs p"
      and st: "staged_only ((?R, NDir) # fs) ?R (xs_fs x1)"
      by (auto simp: inside_def staged_only_def)
    have rx: "(r, x) = (case r1 of Inr p \<Rightarrow> (Inr p, x1)
        | Inl e \<Rightarrow> (Inl e, x1\<lparr>xs_fs := remove_all_at (abs_path ?R) (xs_fs x1)\<rparr>))"
      using assms(6) False unfolding Extract_def Let_def dir using e by (cases r1) (auto simp: c)
    show ?thesis
    proof (cases r1)
      case (Inl e)
      then show ?thesis using rx undo[OF out] by simp
    next
      case (Inr p)
      from e[unfolded Inr] have "verifyPayload env (abs_path ?R) sel tg (xs_fs x1) = Inr p"
        by (auto simp: extractInto_def seq_Inr of_result_def)
      then show ?thesis using rx Inr out executable_staged[OF root st assms(1)] by simp
    qed
  qed
qed

section \<open>The expanded cap\<close>

definition capped :: "stage_limits \<Rightarrow> xstate \<Rightarrow> bool" where
  "capped l x \<longleftrightarrow> int (xs_streamed x) \<le> ar_expanded (xs_rules x) \<and> ar_expanded (xs_rules x) \<le> li_Expanded l"

lemma memberPath_capped: "keeps (capped l) (on_rules (memberPath p tg l' name))"
  by (rule yieldsI) (auto simp: on_rules_def memberPath_def markBundle_def Let_def capped_def split: sum.splits if_splits)

lemma x_mkdir_frame: "x_mkdir env p x = (r, t) \<Longrightarrow> xs_rules t = xs_rules x \<and> xs_streamed t = xs_streamed x"
  by (auto simp: x_mkdir_def split: if_splits prod.splits)

lemma x_mkdir_capped: "keeps (capped l) (x_mkdir env p)"
  by (rule yieldsI) (auto simp: capped_def dest: x_mkdir_frame)

lemma x_symlink_capped: "keeps (capped l) (x_symlink env t p)"
  by (rule yieldsI) (auto simp: x_symlink_def capped_def split: option.splits)

text \<open>A reservation leaves room for the whole member.\<close>

definition reserved :: "stage_limits \<Rightarrow> int64 \<Rightarrow> xstate \<Rightarrow> bool" where
  "reserved l n x \<longleftrightarrow> 0 \<le> n \<and> int (xs_streamed x) + n \<le> ar_expanded (xs_rules x) \<and> ar_expanded (xs_rules x) \<le> li_Expanded l"

lemma account_reserved:
  assumes "capped l x" "n < 2 ^ 62" "li_Expanded l < 2 ^ 62"
    "on_rules (\<lambda>r. map_sum id (Pair ()) (accountSize l n r)) x = (r, t)"
  shows "capped l t \<and> (\<forall>u. r = Inr u \<longrightarrow> reserved l n t)"
proof -
  have "0 \<le> n \<Longrightarrow> i64 (ar_expanded (xs_rules x) + n) = ar_expanded (xs_rules x) + n"
    by (rule i64_small) (use assms(1-3) in \<open>simp_all add: capped_def\<close>)
  with assms(1,4) show ?thesis
    by (auto simp: on_rules_def accountSize_def reserved_def capped_def split: if_splits)
qed

lemma reserved_capped: "reserved l n x \<Longrightarrow> capped l x"
  by (simp add: reserved_def capped_def)

definition leads :: "('s \<Rightarrow> bool) \<Rightarrow> ('s, 'e, 'a) op \<Rightarrow> ('s \<Rightarrow> bool) \<Rightarrow> bool" where
  "leads P m Q \<longleftrightarrow> (\<forall>s r t. P s \<longrightarrow> m s = (r, t) \<longrightarrow> Q t)"

lemma leads_seq:
  "keeps P m \<Longrightarrow> (\<And>s. P s \<Longrightarrow> Q s) \<Longrightarrow> (\<And>a. leads P (f a) Q) \<Longrightarrow> leads P (seq m f) Q"
  unfolding leads_def seq_def by (fastforce dest: yieldsD(1) split: prod.splits sum.splits)

lemma writeFileVerified_capped: "leads (reserved l n) (writeFileVerified env p body n) (capped l)"
  by (auto simp: leads_def writeFileVerified_def reserved_def capped_def Let_def split: option.splits if_splits)

lemma x_mkdir_reserved: "keeps (reserved l n) (x_mkdir env p)"
  by (rule yieldsI) (auto simp: reserved_def dest: x_mkdir_frame)

lemma regular_capped:
  assumes "n < 2 ^ 62" "li_Expanded l < 2 ^ 62" "\<And>u. leads (reserved l n) (f u) (capped l)"
  shows "keeps (capped l) (seq (on_rules (\<lambda>r. map_sum id (Pair ()) (accountSize l n r))) (\<lambda>_. seq (x_mkdir env p) f))"
proof (rule yieldsI)
  fix x r t
  assume x: "capped l x" and run: "seq (on_rules (\<lambda>r. map_sum id (Pair ()) (accountSize l n r))) (\<lambda>_. seq (x_mkdir env p) f) x = (r, t)"
  obtain r1 t1 where a: "on_rules (\<lambda>r. map_sum id (Pair ()) (accountSize l n r)) x = (r1, t1)" by fastforce
  note ac = account_reserved[OF x assms(1,2) a]
  have "leads (reserved l n) (seq (x_mkdir env p) f) (capped l)"
    by (rule leads_seq[OF x_mkdir_reserved reserved_capped assms(3)])
  with ac a run have "capped l t" by (cases r1) (auto simp: seq_def leads_def)
  then show "capped l t \<and> (\<forall>a. r = Inr a \<longrightarrow> True)" by simp
qed

lemmas capped_seq = yields_seq[OF x_mkdir_capped] yields_seq[OF yields_pure(4)[where Q = "\<lambda>_. True"]]
  yields_seq[OF yields_require[where Q = "\<lambda>_. True"]]

lemma tar_member_capped:
  assumes "am_Size m < 2 ^ 62" "li_Expanded l < 2 ^ 62"
  shows "keeps (capped l) (tar_member env p tg l m)"
  unfolding tar_member_def
  by (rule yields_seq[OF memberPath_capped])
    (auto intro!: yields_pure regular_capped assms writeFileVerified_capped x_mkdir_capped x_symlink_capped
      capped_seq split: member_kind.splits)

lemma zip_member_capped:
  assumes "0 \<le> am_Size m" "am_Size m < 2 ^ 62" "li_Expanded l < 2 ^ 62"
  shows "keeps (capped l) (zip_member env p tg l m)"
proof -
  have s: "i64 (am_Size m) < 2 ^ 62" using assms i64_small[of "am_Size m"] by simp
  have w: "leads (reserved l n) (seq (require b e) (\<lambda>_. writeFileVerified env q body n)) (capped l)" for n b e q body
    by (rule leads_seq[OF yields_require reserved_capped writeFileVerified_capped]) simp
  show ?thesis unfolding zip_member_def Let_def
    by (rule yields_seq[OF memberPath_capped])
      (auto intro!: yields_pure regular_capped s assms w x_mkdir_capped x_symlink_capped
        capped_seq split: member_kind.splits)
qed

lemma extractInto_capped:
  assumes "\<forall>m\<in>set (ta_members (ac_tar a)). am_Size m < 2 ^ 62"
    "\<forall>ms. ac_zip a = Some ms \<longrightarrow> (\<forall>m\<in>set ms. 0 \<le> am_Size m \<and> am_Size m < 2 ^ 62)" "li_Expanded l < 2 ^ 62"
  shows "keeps (capped l) (extractInto env a p sel tg l)"
proof -
  have "keeps (capped l) (each (tar_member env p tg l) (ta_members (ac_tar a)))"
    by (rule yields_weaken[OF yields_each, where Q1 = "\<lambda>_. True"]) (use assms(1,3) tar_member_capped in auto)
  moreover have "keeps (capped l) (each (zip_member env p tg l) ms)" if "ac_zip a = Some ms" for ms
    by (rule yields_weaken[OF yields_each, where Q1 = "\<lambda>_. True"]) (use assms(2,3) zip_member_capped that in auto)
  ultimately show ?thesis
    unfolding extractInto_def extractTarGz_def extractZip_def
    by (auto intro!: yields_seq[where P = "\<lambda>_. True"] yields_pure yields_require split: option.splits)
qed

text \<open>
  Property C15. (\<open>accountSize\<close>) With declared sizes below 2^62, no archive makes extraction write
  more than the expanded cap, removed members included.
\<close>

theorem expansion_capped:
  assumes "0 \<le> li_Expanded l" "li_Expanded l < 2 ^ 62"
    "\<forall>m\<in>set (ta_members (ac_tar a)). am_Size m < 2 ^ 62"
    "\<forall>ms. ac_zip a = Some ms \<longrightarrow> (\<forall>m\<in>set ms. 0 \<le> am_Size m \<and> am_Size m < 2 ^ 62)"
    "Extract env a destDir sel tg l fs = (r, x)"
  shows "int (xs_streamed x) \<le> li_Expanded l"
proof -
  have i: "capped l \<lparr>xs_rules = new_rules, xs_fs = fs1, xs_streamed = 0\<rparr>" for fs1
    using assms(1) by (simp add: capped_def new_rules_def)
  have "capped l x"
    using assms(5) i yieldsD(1)[OF extractInto_capped[OF assms(3,4,2)] i]
    by (auto simp: Extract_def Let_def capped_def split: if_splits option.splits prod.splits sum.splits)
  then show ?thesis by (simp add: capped_def)
qed

section \<open>The download is exactly the verified asset\<close>

lemma copy_bounded_content:
  assumes "0 \<le> n"
  shows "int (length (concat cs)) \<le> n \<Longrightarrow> copy_bounded n cs out = (out @ concat cs, False)"
    and "n < int (length (concat cs)) \<Longrightarrow> snd (copy_bounded n cs out)"
  using assms
proof (induction cs arbitrary: n out)
  case (Cons c cs)
  have step: "copy_bounded n (c # cs) out = copy_bounded (n - int (length c)) cs (out @ c)" if "int (length c) \<le> n"
    using that by (simp add: Let_def)
  { case 1
    then show ?case using Cons.IH(1)[of "n - int (length c)" "out @ c"] step by simp }
  { case 2
    show ?case
    proof (cases "int (length c) \<le> n")
      case True
      then show ?thesis using Cons.IH(2)[of "n - int (length c)" "out @ c"] step 2 by simp
    next
      case False
      then have "int (length (take (nat (n + 1)) c)) = n + 1" using 2 by simp
      with False show ?thesis by (simp add: Let_def)
    qed }
qed simp_all

text \<open>
  (\<open>StageArchive\<close>) A staged archive is the whole body, no longer than the compressed
  bound, with the selected checksum; a body over the bound is refused however it is cut.
\<close>

theorem staged_exactly:
  "StageArchive sha ev sel body l = Inr content \<longleftrightarrow>
     hexDigest (se_SHA256 sel) \<and> \<not> bad_limits l \<and> se_mkdir ev \<and> se_create ev \<and> se_stream ev \<and> se_sync ev \<and> se_close ev
     \<and> content = concat body \<and> int (length content) \<le> li_Compressed l \<and> sameDigest (sha content) (se_SHA256 sel)"
proof (cases "bad_limits l")
  case False
  then have "0 \<le> li_Compressed l" by (simp add: bad_limits_def)
  note c = copy_bounded_content[OF this, of body "[]"]
  show ?thesis
  proof (cases "int (length (concat body)) \<le> li_Compressed l")
    case True
    with False c(1) show ?thesis by (auto simp: StageArchive_def)
  next
    case over: False
    then have "snd (copy_bounded (li_Compressed l) body [])" using c(2) by simp
    then obtain out where "copy_bounded (li_Compressed l) body [] = (out, True)" by (metis prod.collapse)
    with False over show ?thesis by (auto simp: StageArchive_def)
  qed
qed (simp add: StageArchive_def)

text \<open>A sound headless release; its files exist below the service directory afterwards.\<close>

definition sample_fs :: fs where
  "sample_fs = [([''srv''], NDir), ([''srv'', ''app''], NDir), ([''srv'', ''app'', ''exe''], NFile ''old'')]"

definition sample_extract_env :: extract_env where
  "sample_extract_env = \<lparr>xe_token = ''1'', xe_ok = (\<lambda>_. True),
     xe_build = (\<lambda>_. Some [(''GOOS'', ''linux''), (''GOARCH'', ''amd64'')]), xe_elf = (\<lambda>_. Some 62),
     xe_pe = (\<lambda>_. None), xe_macho = (\<lambda>_. None), xe_fat = (\<lambda>_. NotFat), xe_plist = (\<lambda>_. []), xe_signed = None\<rparr>"

definition sample_target :: "string \<Rightarrow> target" where
  "sample_target flavor = \<lparr>tg_GOOS = (if flavor = FlavorBundle then ''darwin'' else ''linux''),
     tg_GOARCH = ''amd64'', tg_GOARM = 0, tg_Flavor = flavor\<rparr>"

definition sample_asset :: selection where
  "sample_asset = \<lparr>se_Version = ''1.0.0'', se_Tag = ''v1.0.0'', se_Notes = [], se_ReleasedAt = 0,
     se_ReleasesURL = [], se_AssetName = ''a.tar.gz'', se_AssetURL = [], se_SHA256 = []\<rparr>"

definition reg_member :: "string \<Rightarrow> string \<Rightarrow> member" where
  "reg_member name body = \<lparr>am_Name = name, am_Kind = MReg, am_Size = int (length body), am_Body = body\<rparr>"

definition link_member :: "string \<Rightarrow> string \<Rightarrow> member" where
  "link_member name t = \<lparr>am_Name = name, am_Kind = MLink t, am_Size = 0, am_Body = []\<rparr>"

definition tar_of :: "member list \<Rightarrow> archive" where
  "tar_of ms = \<lparr>ac_tar = \<lparr>ta_opened = True, ta_members = ms, ta_end = CleanEnd\<rparr>, ac_zip = None\<rparr>"

lemma expansion_capped_witness:
  "int (xs_streamed (snd (Extract sample_extract_env (tar_of [reg_member ''./lib/x'' ''ab''])
     ''/srv/app'' sample_asset (sample_target FlavorHeadless) DefaultLimits sample_fs))) \<le> 2 ^ 30"
  using expansion_capped[OF _ _ _ _ prod.collapse[symmetric], of DefaultLimits "tar_of [reg_member ''./lib/x'' ''ab'']"
      sample_extract_env "''/srv/app''" sample_asset "sample_target FlavorHeadless" sample_fs]
  by (simp add: DefaultLimits_def tar_of_def reg_member_def)

lemma extraction_contained_witness:
  "let r = Extract sample_extract_env (tar_of [reg_member ''./lib/x'' ''ab'', reg_member ''./filelist-streaming'' ''elf''])
       (abs_path [''srv'', ''app'']) sample_asset (sample_target FlavorHeadless) DefaultLimits sample_fs in
   map_of (xs_fs (snd r)) [''srv'', ''app'', ''exe''] = Some (NFile ''old'')
   \<and> (\<exists>p. fst r = Inr p \<and> sp_Executable p = ''/srv/app/.filelist-extract-1/filelist-streaming'')"
proof -
  let ?a = "tar_of [reg_member ''./lib/x'' ''ab'', reg_member ''./filelist-streaming'' ''elf'']"
  let ?r = "Extract sample_extract_env ?a (abs_path [''srv'', ''app'']) sample_asset (sample_target FlavorHeadless) DefaultLimits sample_fs"
  have ok: "case fst ?r of Inl _ \<Rightarrow> False | Inr _ \<Rightarrow> True" by code_simp
  have w: "wf_elems [''srv'', ''app'']" by code_simp
  have d: "prefix q [''srv'', ''app''] \<Longrightarrow> is_dir sample_fs q" for q
    by (auto simp: prefix_Cons is_dir_def sample_fs_def)
  have f: "prefix ([''srv'', ''app''] @ [staging_name sample_extract_env]) p \<Longrightarrow> map_of sample_fs p = None" for p
    by (auto simp: prefix_def staging_name_def sample_extract_env_def sample_fs_def)
  note e = extraction_contained[of "sample_target FlavorHeadless" "[''srv'', ''app'']" sample_extract_env sample_fs ?a
      sample_asset DefaultLimits "fst ?r" "snd ?r"]
  have p: "\<forall>q. prefix q [''srv'', ''app''] \<longrightarrow> is_dir sample_fs q"
    "\<forall>q. prefix ([''srv'', ''app''] @ [staging_name sample_extract_env]) q \<longrightarrow> map_of sample_fs q = None"
    using d f by blast+
  have c: "tg_Flavor (sample_target FlavorHeadless) \<noteq> FlavorBundle" "CHR ''/'' \<notin> set (xe_token sample_extract_env)"
    "\<not> prefix ([''srv'', ''app''] @ [staging_name sample_extract_env]) [''srv'', ''app'', ''exe'']"
    "map_of sample_fs [''srv'', ''app'', ''exe''] = Some (NFile ''old'')"
    "abs_path ([''srv'', ''app''] @ [staging_name sample_extract_env, payload_name (sample_target FlavorHeadless)])
       = ''/srv/app/.filelist-extract-1/filelist-streaming''"
    by code_simp+
  obtain q where q: "fst ?r = Inr q" using ok by (cases "fst ?r") auto
  from e[OF c(1) w c(2) p prod.collapse[symmetric]]
  have "map_of (xs_fs (snd ?r)) [''srv'', ''app'', ''exe''] = map_of sample_fs [''srv'', ''app'', ''exe'']"
    and "\<exists>c. sp_Executable q = abs_path ([''srv'', ''app''] @ [staging_name sample_extract_env, payload_name (sample_target FlavorHeadless)])"
    using c(3) q by blast+
  then show ?thesis unfolding Let_def using c(4,5) q by auto
qed


definition staged_fs :: fs where
  "staged_fs = ([''srv'', ''app'', ''.s''], NDir) # sample_fs"

text \<open>
  (\<open>accountSize\<close>) The sum of the declared sizes wraps: after a member of one byte,
  a member that declares the largest size passes the cap, and all its bytes are written,
  however many they are, before the member is found short.
\<close>

theorem cap_wraps:
  assumes "int (length body) < 2 ^ 63 - 1"
    "extractTarGz sample_extract_env
       \<lparr>ta_opened = True, ta_members = [reg_member ''a'' ''x'', (reg_member ''b'' body)\<lparr>am_Size := 2 ^ 63 - 1\<rparr>], ta_end = BrokenTar\<rparr>
       ''/srv/app/.s'' (sample_target FlavorHeadless) DefaultLimits
       \<lparr>xs_rules = new_rules, xs_fs = staged_fs, xs_streamed = 0\<rparr> = (r, x)"
  shows "r = Inl (ArchiveInvalid ''short member'') \<and> xs_streamed x = 1 + length body"
proof -
  let ?env = sample_extract_env and ?tg = "sample_target FlavorHeadless"
  let ?x1 = "\<lparr>xs_rules = \<lparr>ar_seen = [''a''], ar_expanded = 1, ar_bundleName = [], ar_entries = 1\<rparr>,
    xs_fs = ([''srv'', ''app'', ''.s'', ''a''], NFile ''x'') # staged_fs, xs_streamed = 1\<rparr>"
  let ?r2 = "\<lparr>ar_seen = [''b'', ''a''], ar_expanded = 1, ar_bundleName = [], ar_entries = 2\<rparr>"
  let ?r3 = "\<lparr>ar_seen = [''b'', ''a''], ar_expanded = - (2 ^ 63), ar_bundleName = [], ar_entries = 2\<rparr>"
  let ?m = "(reg_member ''b'' body)\<lparr>am_Size := 2 ^ 63 - 1\<rparr>"
  have a: "tar_member ?env ''/srv/app/.s'' ?tg DefaultLimits (reg_member ''a'' ''x'')
      \<lparr>xs_rules = new_rules, xs_fs = staged_fs, xs_streamed = 0\<rparr> = (Inr (), ?x1)"
    by code_simp
  have path: "memberPath ''/srv/app/.s'' ?tg DefaultLimits ''b'' (xs_rules ?x1) = Inr (''/srv/app/.s/b'', ?r2)"
    by code_simp
  have wrap: "accountSize DefaultLimits (2 ^ 63 - 1) ?r2 = Inr ?r3"
    by (simp add: accountSize_def i64_def DefaultLimits_def)
  have dir: "x_mkdir ?env (path_dir ''/srv/app/.s/b'') (?x1\<lparr>xs_rules := ?r3\<rparr>) = (Inr (), ?x1\<lparr>xs_rules := ?r3\<rparr>)"
    by code_simp
  have place: "walk max_links (xs_fs ?x1) [] [''srv'', ''app'', ''.s''] = Some [''srv'', ''app'', ''.s'']"
    "path_elems ''/srv/app/.s/b'' = [''srv'', ''app'', ''.s'', ''b'']"
    "map_of (xs_fs ?x1) [''srv'', ''app'', ''.s'', ''b''] = None" "is_dir (xs_fs ?x1) [''srv'', ''app'', ''.s'']"
    by code_simp+
  have new: "create (path_elems ''/srv/app/.s/b'') n (xs_fs ?x1) = Some (([''srv'', ''app'', ''.s'', ''b''], n) # xs_fs ?x1)" for n
    using place by (simp add: create_def)
  have b: "tar_member ?env ''/srv/app/.s'' ?tg DefaultLimits ?m ?x1 =
      (Inl (ArchiveInvalid ''short member''), ?x1\<lparr>xs_rules := ?r3, xs_streamed := 1 + length body\<rparr>)"
  proof -
    have m: "am_Name ?m = ''b''" "am_Kind ?m = MReg" "am_Size ?m = 2 ^ 63 - 1" "am_Body ?m = body"
      by (simp_all add: reg_member_def)
    have s: "min (nat (2 ^ 63 - 1)) (length body) = length body" "int (length body) \<noteq> 2 ^ 63 - 1" using assms(1) by linarith+
    have w: "writeFileVerified ?env ''/srv/app/.s/b'' body (2 ^ 63 - 1) (?x1\<lparr>xs_rules := ?r3\<rparr>) =
        (Inl (ArchiveInvalid ''short member''), ?x1\<lparr>xs_rules := ?r3, xs_streamed := 1 + length body\<rparr>)"
      unfolding writeFileVerified_def using new s by (simp add: sample_extract_env_def Let_def)
    have m1: "on_rules (memberPath ''/srv/app/.s'' ?tg DefaultLimits ''b'') ?x1 = (Inr ''/srv/app/.s/b'', ?x1\<lparr>xs_rules := ?r2\<rparr>)"
      unfolding on_rules_def path by simp
    have m2: "on_rules (\<lambda>r. map_sum id (Pair ()) (accountSize DefaultLimits (2 ^ 63 - 1) r)) (?x1\<lparr>xs_rules := ?r2\<rparr>)
        = (Inr (), ?x1\<lparr>xs_rules := ?r3\<rparr>)"
      using wrap by (simp add: on_rules_def)
    have ne: "(''/srv/app/.s/b'' = []) = False" by simp
    show ?thesis
      unfolding tar_member_def m seq_def by (simp only: m1 m2 dir w ne prod.case sum.case member_kind.case if_False)
  qed
  show ?thesis
    using assms(2) by (auto simp: extractTarGz_def seq_def a b[simplified] require_def)
qed

lemma cap_wraps_witness:
  "xs_streamed (snd (extractTarGz sample_extract_env
       \<lparr>ta_opened = True, ta_members = [reg_member ''a'' ''x'', (reg_member ''b'' ''bad'')\<lparr>am_Size := 2 ^ 63 - 1\<rparr>], ta_end = BrokenTar\<rparr>
       ''/srv/app/.s'' (sample_target FlavorHeadless) DefaultLimits
       \<lparr>xs_rules = new_rules, xs_fs = staged_fs, xs_streamed = 0\<rparr>)) = 4"
  using cap_wraps[OF _ prod.collapse[symmetric], of "''bad''"] by simp

end
