(* ===== verification/Recovery.thy ===== *)
theory Recovery
  imports Releases
begin

text \<open>
  The update transaction and its crash recovery, \<open>internal/application/updates\<close>:
  \<open>recovery.go\<close> (operation record, journal, \<open>EvaluateRecovery\<close>, \<open>Installer\<close>, \<open>awaitHealth\<close>),
  \<open>install_unix.go\<close> (the single-file transaction) and the startup sequence
  \<open>recoverPending\<close> and \<open>StartupApply\<close> of \<open>manager.go\<close>.

  A disk is a map from paths to file contents with the operation record of the journal,
  which \<open>Save\<close> replaces atomically. Every mutation is a step of its own that may fail
  (records of outcomes \<open>activate_events\<close>, \<open>rollback_events\<close>); since a crash between two
  steps leaves the same disk as a failure of the second one, the crash points are the
  failure points. SHA-256 is a parameter. The bundle and Windows transactions are not
  modelled.
\<close>

section \<open>The operation record\<close>

definition PhaseStaged :: string where "PhaseStaged = ''staged''"
definition PhaseActivated :: string where "PhaseActivated = ''activated''"
definition PhaseConfirmed :: string where "PhaseConfirmed = ''confirmed''"
definition PhaseRolledBack :: string where "PhaseRolledBack = ''rolled-back''"

lemmas phase_defs = PhaseStaged_def PhaseActivated_def PhaseConfirmed_def PhaseRolledBack_def

record operation =
  op_ID :: string
  op_Version :: string
  op_Flavor :: string
  op_Phase :: string
  op_Backup :: string
  op_PriorState :: string
  op_StagedPaths :: "string list"
  op_Deadline :: gotime
  op_SuppressNext :: bool
  op_FailedError :: string

datatype recovery_action = RecoveryNone | RecoveryAcknowledge | RecoveryRollback
  | RecoveryCleanup | RecoverySuppress | RecoveryManual

record install_state =
  is_CurrentVersion :: string
  is_Now :: gotime
  is_Activated :: bool
  is_Pristine :: bool

definition EvaluateRecovery :: "operation \<Rightarrow> install_state \<Rightarrow> recovery_action \<times> operation" where
  "EvaluateRecovery p st =
     (if op_FailedError p \<noteq> [] then (RecoveryManual, p)
      else if op_Phase p = PhaseStaged then
        (if is_Activated st then (RecoveryRollback, p\<lparr>op_Phase := PhaseActivated\<rparr>)
         else (RecoveryCleanup, p))
      else if op_Phase p = PhaseActivated then
        (if is_Activated st \<and> is_CurrentVersion st = op_Version p \<and> is_Now st < op_Deadline p
           then (RecoveryAcknowledge, p)
         else if is_Activated st \<or> \<not> is_Pristine st then (RecoveryRollback, p)
         else (RecoveryCleanup, p))
      else if op_Phase p = PhaseConfirmed then (RecoveryCleanup, p)
      else if op_Phase p = PhaseRolledBack then (RecoverySuppress, p)
      else (RecoveryManual, p))"

section \<open>The disk\<close>

record disk =
  dk_files :: "string \<rightharpoonup> string"
  dk_journal :: "operation option"

definition put :: "string \<Rightarrow> string \<Rightarrow> disk \<Rightarrow> disk" where
  "put path content d = d\<lparr>dk_files := (dk_files d)(path \<mapsto> content)\<rparr>"

definition SaveOperation :: "operation \<Rightarrow> disk \<Rightarrow> disk" where
  "SaveOperation p d = d\<lparr>dk_journal := Some p\<rparr>"

definition ClearOperation :: "disk \<Rightarrow> disk" where
  "ClearOperation d = d\<lparr>dk_journal := None\<rparr>"

text \<open>\<open>os.Rename\<close>: the destination gets the content in one step.\<close>

definition rename :: "string \<Rightarrow> string \<Rightarrow> disk \<Rightarrow> disk option" where
  "rename src dst d = (case dk_files d src of
       None \<Rightarrow> None
     | Some c \<Rightarrow> Some (d\<lparr>dk_files := (dk_files d)(src := None, dst \<mapsto> c)\<rparr>))"

text \<open>\<open>os.RemoveAll\<close>: the path and everything below it.\<close>

definition remove_all :: "string \<Rightarrow> disk \<Rightarrow> disk" where
  "remove_all path d = d\<lparr>dk_files := (\<lambda>x. if x = path \<or> prefix (path @ ''/'') x then None else dk_files d x)\<rparr>"

section \<open>The journal\<close>

datatype update_error = ErrPendingOperation | ErrOperationMismatch | InstallError string

definition AcknowledgeOperation :: "string \<Rightarrow> string \<Rightarrow> disk \<Rightarrow> update_error + disk" where
  "AcknowledgeOperation opID version d =
     (case dk_journal d of
        None \<Rightarrow> Inl ErrOperationMismatch
      | Some p \<Rightarrow>
          if op_Phase p \<noteq> PhaseActivated then Inl ErrOperationMismatch
          else if op_ID p \<noteq> opID \<or> op_Version p \<noteq> version then Inl ErrOperationMismatch
          else Inr (SaveOperation (p\<lparr>op_Phase := PhaseConfirmed\<rparr>) d))"

section \<open>Prepare and activate\<close>

record payload =
  py_Dir :: string
  py_Executable :: string

record installer =
  in_Dir :: string
  in_Executable :: string
  in_HealthTimeout :: int

text \<open>The random tokens of the id and of the backup path are inputs.\<close>

definition newOperation ::
  "string \<Rightarrow> string \<Rightarrow> string \<Rightarrow> string \<Rightarrow> string \<Rightarrow> string list \<Rightarrow> operation" where
  "newOperation dir version flavor idToken backupToken staged =
     \<lparr>op_ID = ''op-'' @ idToken, op_Version = version, op_Flavor = flavor, op_Phase = PhaseStaged,
      op_Backup = dir @ ''/.filelist-backup-'' @ backupToken, op_PriorState = [], op_StagedPaths = staged,
      op_Deadline = 0, op_SuppressNext = False, op_FailedError = []\<rparr>"

definition digestFile :: "(string \<Rightarrow> string) \<Rightarrow> string \<Rightarrow> disk \<Rightarrow> string option" where
  "digestFile sha path d = map_option sha (dk_files d path)"

definition Prepare ::
  "(string \<Rightarrow> string) \<Rightarrow> installer \<Rightarrow> payload \<Rightarrow> selection \<Rightarrow> string \<Rightarrow> string \<Rightarrow> string \<Rightarrow> string \<Rightarrow> bool
     \<Rightarrow> disk \<Rightarrow> (update_error + operation) \<times> disk" where
  "Prepare sha i pl sel flavor idToken backupToken archive saveOk d =
     (if (case dk_journal d of None \<Rightarrow> False | Some p \<Rightarrow> op_Phase p = PhaseStaged \<or> op_Phase p = PhaseActivated)
      then (Inl ErrPendingOperation, d)
      else
        let p0 = newOperation (in_Dir i) (se_Version sel) flavor idToken backupToken [archive, py_Dir pl];
            p = (case digestFile sha (in_Executable i) d of None \<Rightarrow> p0 | Some g \<Rightarrow> p0\<lparr>op_PriorState := g\<rparr>) in
        if saveOk then (Inr p, SaveOperation p d) else (Inl (InstallError ''journal''), d))"

text \<open>
  How the backup step can go: a hard link, with or without the directory flush behind it;
  where links are not supported a copy, which may succeed, fail (and is removed), or be
  cut short by a crash after \<open>n\<close> bytes; or a failure before anything is written.
\<close>

datatype backup_event = Linked bool | Copied bool | CopyFailed | CopyCrashed nat | BackupFailed

definition backupFile :: "backup_event \<Rightarrow> string \<Rightarrow> string \<Rightarrow> disk \<Rightarrow> bool \<times> disk" where
  "backupFile ev live backup d =
     (case dk_files d live of
        None \<Rightarrow> (False, d)
      | Some c \<Rightarrow>
          if dk_files d backup \<noteq> None then (False, d)
          else (case ev of
            Linked synced \<Rightarrow> (synced, put backup c d)
          | Copied synced \<Rightarrow> (synced, put backup c d)
          | CopyFailed \<Rightarrow> (False, d)
          | CopyCrashed n \<Rightarrow> (False, put backup (take n c) d)
          | BackupFailed \<Rightarrow> (False, d)))"

record activate_events =
  ae_backup :: backup_event
  ae_chmod :: bool
  ae_rename :: bool
  ae_sync :: bool
  ae_save :: bool

definition activate ::
  "activate_events \<Rightarrow> gotime \<Rightarrow> installer \<Rightarrow> operation \<Rightarrow> payload \<Rightarrow> disk \<Rightarrow> (update_error + operation) \<times> disk" where
  "activate ev now i p pl d =
     (let (ok, d1) = backupFile (ae_backup ev) (in_Executable i) (op_Backup p) d in
      if \<not> ok then (Inl (InstallError ''preserve previous installation''), d1)
      else if \<not> ae_chmod ev then (Inl (InstallError ''stage executable mode''), d1)
      else (case (if ae_rename ev then rename (py_Executable pl) (in_Executable i) d1 else None) of
        None \<Rightarrow> (Inl (InstallError ''install staged executable''), d1)
      | Some d2 \<Rightarrow>
          if \<not> ae_sync ev then (Inl (InstallError ''flush install directory''), d2)
          else
            let p1 = p\<lparr>op_Phase := PhaseActivated, op_Deadline := now + in_HealthTimeout i\<rparr> in
            if ae_save ev then (Inr p1, SaveOperation p1 d2)
            else (Inl (InstallError ''persist activated phase''), d2)))"

section \<open>Rollback, cleanup and recovery\<close>

record rollback_events =
  re_rename :: bool
  re_sync :: bool
  re_save :: bool

definition restoreFile :: "rollback_events \<Rightarrow> string \<Rightarrow> string \<Rightarrow> disk \<Rightarrow> bool \<times> disk" where
  "restoreFile ev backup live d =
     (case (if re_rename ev then rename backup live d else None) of
        None \<Rightarrow> (False, d)
      | Some d1 \<Rightarrow> (re_sync ev, d1))"

definition rollback ::
  "rollback_events \<Rightarrow> installer \<Rightarrow> operation \<Rightarrow> string \<Rightarrow> disk \<Rightarrow> bool \<times> disk" where
  "rollback ev i p reason d =
     (let (restored, d1) = restoreFile ev (op_Backup p) (in_Executable i) d;
          p1 = p\<lparr>op_Phase := PhaseRolledBack, op_SuppressNext := True\<rparr>;
          p2 = (if restored then p1 else p1\<lparr>op_FailedError := reason @ '': restore backup''\<rparr>) in
      if \<not> re_save ev then (False, d1)
      else (restored, SaveOperation p2 d1))"

definition backupAndStagingPaths :: "operation \<Rightarrow> string list" where
  "backupAndStagingPaths p = (if op_Backup p \<noteq> [] then [op_Backup p] else []) @ op_StagedPaths p"

definition Cleanup :: "bool \<Rightarrow> operation \<Rightarrow> disk \<Rightarrow> bool \<times> disk" where
  "Cleanup synced p d =
     (let d1 = fold remove_all (backupAndStagingPaths p) d in
      if synced then (True, ClearOperation d1) else (False, d1))"

text \<open>A recorded digest counts only with its full length.\<close>

definition liveState :: "(string \<Rightarrow> string) \<Rightarrow> installer \<Rightarrow> operation \<Rightarrow> disk \<Rightarrow> bool \<times> bool" where
  "liveState sha i p d =
     (case digestFile sha (in_Executable i) d of
        None \<Rightarrow> (False, False)
      | Some live \<Rightarrow>
          (case digestFile sha (op_Backup p) d of
             Some backup \<Rightarrow> if live = backup then (False, True) else (True, False)
           | None \<Rightarrow>
               if length (op_PriorState p) \<noteq> 32 then (False, False)
               else (live \<noteq> op_PriorState p, live = op_PriorState p)))"

definition installState ::
  "(string \<Rightarrow> string) \<Rightarrow> installer \<Rightarrow> operation \<Rightarrow> string \<Rightarrow> gotime \<Rightarrow> disk \<Rightarrow> install_state" where
  "installState sha i p currentVersion now d =
     (let (activated, pristine) = liveState sha i p d in
      \<lparr>is_CurrentVersion = currentVersion, is_Now = now, is_Activated = activated, is_Pristine = pristine\<rparr>)"

record recover_events =
  rv_cleanup :: bool
  rv_rollback :: rollback_events

definition Recover ::
  "(string \<Rightarrow> string) \<Rightarrow> recover_events \<Rightarrow> installer \<Rightarrow> string \<Rightarrow> gotime \<Rightarrow> disk \<Rightarrow> (recovery_action \<times> bool) \<times> disk" where
  "Recover sha ev i currentVersion now d =
     (case dk_journal d of
        None \<Rightarrow> ((RecoveryNone, True), d)
      | Some p \<Rightarrow>
          (case fst (EvaluateRecovery p (installState sha i p currentVersion now d)) of
             RecoveryCleanup \<Rightarrow> (let (ok, d1) = Cleanup (rv_cleanup ev) p d in ((RecoveryCleanup, ok), d1))
           | RecoveryRollback \<Rightarrow>
               (let (ok, d1) = rollback (rv_rollback ev) i p ''startup recovery'' d in
                if ok then ((RecoveryRollback, True), d1) else ((RecoveryManual, False), d1))
           | act \<Rightarrow> ((act, True), d)))"

text \<open>\<open>Installer.Acknowledge\<close>: confirm, then clean up.\<close>

definition Acknowledge :: "bool \<Rightarrow> string \<Rightarrow> disk \<Rightarrow> (update_error + unit) \<times> disk" where
  "Acknowledge synced currentVersion d =
     (case dk_journal d of
        None \<Rightarrow> (Inl ErrOperationMismatch, d)
      | Some p \<Rightarrow>
          (case AcknowledgeOperation (op_ID p) currentVersion d of
             Inl e \<Rightarrow> (Inl e, d)
           | Inr d1 \<Rightarrow> (let (ok, d2) = Cleanup synced p d1 in
               (if ok then Inr () else Inl (InstallError ''cleanup''), d2))))"

definition ConsumeSuppression :: "disk \<Rightarrow> disk" where
  "ConsumeSuppression d = ClearOperation d"

section \<open>Startup\<close>

text \<open>
  \<open>recoverPending\<close> and the startup sequence around it. The second result of \<open>StartupApply\<close>
  says whether an automatic apply begins.
\<close>

definition recoverPending ::
  "(string \<Rightarrow> string) \<Rightarrow> recover_events \<Rightarrow> bool \<Rightarrow> installer \<Rightarrow> string \<Rightarrow> gotime \<Rightarrow> disk \<Rightarrow> disk" where
  "recoverPending sha ev lockOk i currentVersion now d =
     (if in_Dir i = [] \<or> dk_journal d = None \<or> \<not> lockOk then d
      else (case Recover sha ev i currentVersion now d of
        ((act, ok), d1) \<Rightarrow>
          if \<not> ok then d1
          else if act = RecoveryAcknowledge then snd (Acknowledge (rv_cleanup ev) currentVersion d1)
          else if act = RecoverySuppress then ConsumeSuppression d1
          else d1))"

definition StartupApply ::
  "(string \<Rightarrow> string) \<Rightarrow> recover_events \<Rightarrow> bool \<Rightarrow> installer \<Rightarrow> string \<Rightarrow> gotime \<Rightarrow> bool \<Rightarrow> disk \<Rightarrow> disk \<times> bool" where
  "StartupApply sha ev lockOk i currentVersion now selfUpdate d =
     (recoverPending sha ev lockOk i currentVersion now d, selfUpdate)"

section \<open>The helper's wait for health\<close>

text \<open>
  One poll of \<open>awaitHealth\<close> sees whether the context is done, the journal, the clock and
  whether the child is alive; the window is over when the polls run out.
\<close>

record poll =
  po_ctxDone :: bool
  po_journal :: "operation option"
  po_now :: gotime
  po_alive :: bool

datatype health = Healthy | Cancelled | TimedOut | Died

fun awaitHealth :: "gotime \<Rightarrow> poll list \<Rightarrow> health" where
  "awaitHealth deadline [] = TimedOut"
| "awaitHealth deadline (q # qs) =
     (if po_ctxDone q then Cancelled
      else if (case po_journal q of None \<Rightarrow> False | Some p \<Rightarrow> op_Phase p = PhaseConfirmed) then Healthy
      else if po_now q > deadline then TimedOut
      else if \<not> po_alive q then Died
      else awaitHealth deadline qs)"

text \<open>\<open>runHelper\<close> behind the exit of the old process: the new installation's launch, its
  health, and what is relaunched after a rollback.\<close>

datatype helper_end = Updated | RolledBackRelaunched | HelperFailed

definition runHelper ::
  "rollback_events \<Rightarrow> bool \<Rightarrow> installer \<Rightarrow> operation \<Rightarrow> bool \<Rightarrow> gotime \<Rightarrow> poll list \<Rightarrow> disk \<Rightarrow> helper_end \<times> disk" where
  "runHelper ev synced i p launched now polls d =
     (let undo = (\<lambda>reason. let (ok, d1) = rollback ev i p reason d in
            (if ok then RolledBackRelaunched else HelperFailed, d1)) in
      if \<not> launched then undo ''helper launch failed''
      else (case awaitHealth (now + in_HealthTimeout i) polls of
        Healthy \<Rightarrow> (let (ok, d1) = Cleanup synced p d in (if ok then Updated else HelperFailed, d1))
      | _ \<Rightarrow> undo ''health''))"

section \<open>Properties\<close>

text \<open>
  What an update starts from: the live executable and the verified payload are there, the
  backup path is free and apart from both, no path that cleanup removes holds the live
  executable, and the two contents have different digests of full length.
\<close>

definition install_ready ::
  "(string \<Rightarrow> string) \<Rightarrow> installer \<Rightarrow> payload \<Rightarrow> operation \<Rightarrow> disk \<Rightarrow> string \<Rightarrow> string \<Rightarrow> bool" where
  "install_ready sha i pl p d old new \<longleftrightarrow>
     dk_files d (in_Executable i) = Some old \<and> dk_files d (py_Executable pl) = Some new
     \<and> in_Executable i \<noteq> py_Executable pl
     \<and> op_Backup p \<noteq> in_Executable i \<and> op_Backup p \<noteq> py_Executable pl \<and> dk_files d (op_Backup p) = None
     \<and> (\<forall>s\<in>set (backupAndStagingPaths p). s \<noteq> in_Executable i \<and> \<not> prefix (s @ ''/'') (in_Executable i))
     \<and> sha old \<noteq> sha new \<and> length (sha old) = 32"

lemma remove_all_other: "path \<noteq> x \<Longrightarrow> \<not> prefix (path @ ''/'') x \<Longrightarrow> dk_files (remove_all path d) x = dk_files d x"
  by (auto simp: remove_all_def)

lemma fold_remove_all_other:
  "\<forall>s\<in>set ps. s \<noteq> x \<and> \<not> prefix (s @ ''/'') x \<Longrightarrow> dk_files (fold remove_all ps d) x = dk_files d x"
  by (induction ps arbitrary: d) (auto simp: remove_all_other)

lemma fold_remove_all_gone: "x \<in> set ps \<Longrightarrow> dk_files (fold remove_all ps d) x = None"
proof -
  have mono: "dk_files d x = None \<Longrightarrow> dk_files (fold remove_all ps d) x = None" for ps d
    by (induction ps arbitrary: d) (auto simp: remove_all_def)
  show "x \<in> set ps \<Longrightarrow> dk_files (fold remove_all ps d) x = None"
    by (induction ps arbitrary: d) (auto simp: mono remove_all_def)
qed

lemma newOperation_simps [simp]:
  "op_Phase (newOperation dir v f a b st) = PhaseStaged" "op_FailedError (newOperation dir v f a b st) = []"
  "op_PriorState (newOperation dir v f a b st) = []" "op_Version (newOperation dir v f a b st) = v"
  by (simp_all add: newOperation_def)

lemma backupFile_disk:
  assumes "backupFile ev live backup d = (ok, d1)" "dk_files d live = Some c" "dk_files d backup = None"
    "\<forall>n. ev = CopyCrashed n \<longrightarrow> length c \<le> n"
  shows "dk_journal d1 = dk_journal d
    \<and> (dk_files d1 = dk_files d \<and> \<not> ok \<or> dk_files d1 = (dk_files d)(backup \<mapsto> c))"
  using assms by (cases ev) (auto simp: backupFile_def put_def)

text \<open>The four disks an activation can leave, by what is live and what is recorded.\<close>

lemma Prepare_ok:
  assumes "Prepare sha i pl sel flavor ida bka archive saveOk d = (Inr p, d1)"
    and "dk_files d (in_Executable i) = Some old"
  shows "d1 = SaveOperation p d \<and> op_Phase p = PhaseStaged \<and> op_FailedError p = []
    \<and> op_PriorState p = sha old \<and> op_Version p = se_Version sel"
  using assms by (auto simp: Prepare_def digestFile_def Let_def split: if_splits option.splits)

lemma activate_disks:
  assumes "activate ev t i p pl (SaveOperation p d) = (r, d2)" "install_ready sha i pl p d old new"
    and "\<forall>n. ae_backup ev = CopyCrashed n \<longrightarrow> length old \<le> n"
  shows "(dk_journal d2 = Some p \<and> dk_files d2 (in_Executable i) = Some old
            \<and> (dk_files d2 (op_Backup p) = None \<or> dk_files d2 (op_Backup p) = Some old))
    \<or> (dk_files d2 (in_Executable i) = Some new \<and> dk_files d2 (op_Backup p) = Some old
        \<and> (dk_journal d2 = Some p
           \<or> dk_journal d2 = Some (p\<lparr>op_Phase := PhaseActivated, op_Deadline := t + in_HealthTimeout i\<rparr>)))"
proof -
  let ?x = "in_Executable i" and ?b = "op_Backup p" and ?e = "py_Executable pl"
  note rdy = assms(2)[unfolded install_ready_def]
  obtain ok d1 where b: "backupFile (ae_backup ev) ?x ?b (SaveOperation p d) = (ok, d1)" by fastforce
  have j: "dk_journal d1 = Some p" and f: "dk_files d1 = dk_files d \<and> \<not> ok \<or> dk_files d1 = (dk_files d)(?b \<mapsto> old)"
    using backupFile_disk[OF b _ _ assms(3)] rdy by (auto simp: SaveOperation_def)
  show ?thesis
  proof (cases "ok \<and> ae_chmod ev \<and> ae_rename ev")
    case False
    then have "d2 = d1" using assms(1) b by (auto simp: activate_def Let_def split: if_splits)
    then show ?thesis using j f rdy by auto
  next
    case True
    let ?d = "d1\<lparr>dk_files := (dk_files d1)(?e := None, ?x \<mapsto> new)\<rparr>"
    have f': "dk_files d1 = (dk_files d)(?b \<mapsto> old)" using f True by blast
    then have e: "dk_files d1 ?e = Some new" using rdy by auto
    then have "d2 = ?d \<or> d2 = SaveOperation (p\<lparr>op_Phase := PhaseActivated, op_Deadline := t + in_HealthTimeout i\<rparr>) ?d"
      using assms(1) b True by (auto simp: activate_def rename_def Let_def split: if_splits)
    moreover have "dk_files ?d ?x = Some new" "dk_files ?d ?b = Some old" using rdy f' by simp_all
    ultimately show ?thesis using j by (auto simp: SaveOperation_def)
  qed
qed

definition all_well :: recover_events where
  "all_well = \<lparr>rv_cleanup = True, rv_rollback = \<lparr>re_rename = True, re_sync = True, re_save = True\<rparr>\<rparr>"


text \<open>
  Property C12. A crash while the backup is copied destroys the installation: the journal
  is in the staged phase and names the truncated backup, the next startup takes the
  difference between it and the untouched live executable for an activation, and its
  rollback replaces the live executable with the truncated file.
\<close>

theorem truncated_backup_restored:
  assumes "install_ready sha i pl p d old new"
    and "Prepare sha i pl sel flavor ida bka archive True d = (Inr p, d1)"
    and "activate ev t i p pl d1 = (r, d2)"
    and "ae_backup ev = CopyCrashed n" and "sha (take n old) \<noteq> sha old"
  shows "dk_files d2 (in_Executable i) = Some old
    \<and> fst (Recover sha all_well i v now d2) = (RecoveryRollback, True)
    \<and> dk_files (snd (Recover sha all_well i v now d2)) (in_Executable i) = Some (take n old)"
proof -
  let ?x = "in_Executable i"
  note rdy = assms(1)[unfolded install_ready_def]
  from rdy have live: "dk_files d ?x = Some old" by blast
  note prep = Prepare_ok[OF assms(2) live]
  have d2: "dk_files d2 ?x = Some old" "dk_files d2 (op_Backup p) = Some (take n old)" "dk_journal d2 = Some p"
    using assms(3,4) prep rdy
    by (auto simp: activate_def backupFile_def put_def SaveOperation_def Let_def split: if_splits option.splits)
  have "liveState sha i p d2 = (True, False)"
    using d2 assms(5) by (auto simp: liveState_def digestFile_def)
  then show ?thesis using d2 prep rdy
    by (auto simp: Recover_def EvaluateRecovery_def installState_def all_well_def rollback_def restoreFile_def
        rename_def SaveOperation_def Let_def phase_defs)
qed

text \<open>The installation the witnesses use: \<open>/a/app\<close> with the old build and its update beside it.\<close>

definition pad32 :: "string \<Rightarrow> string" where
  "pad32 s = take 32 (s @ replicate 32 (CHR ''.''))"

definition sample_installer :: installer where
  "sample_installer = \<lparr>in_Dir = ''/a'', in_Executable = ''/a/app'', in_HealthTimeout = 60\<rparr>"

definition sample_payload :: payload where
  "sample_payload = \<lparr>py_Dir = ''/a/stage'', py_Executable = ''/a/stage/app''\<rparr>"

definition sample_disk :: disk where
  "sample_disk = \<lparr>dk_files = [''/a/app'' \<mapsto> ''old'', ''/a/stage/app'' \<mapsto> ''new'', ''/a/z'' \<mapsto> ''zip''],
     dk_journal = None\<rparr>"

definition sample_selection :: selection where
  "sample_selection = \<lparr>se_Version = ''1.1'', se_Tag = ''v1.1'', se_Notes = [], se_ReleasedAt = 0,
     se_ReleasesURL = [], se_AssetName = ''app'', se_AssetURL = [], se_SHA256 = []\<rparr>"

definition sample_operation :: operation where
  "sample_operation = (newOperation ''/a'' ''1.1'' ''cli'' ''1'' ''2'' [''/a/z'', ''/a/stage''])
     \<lparr>op_PriorState := pad32 ''old''\<rparr>"

lemma sample_ready: "install_ready pad32 sample_installer sample_payload sample_operation sample_disk ''old'' ''new''"
  by code_simp

lemma sample_prepare:
  "Prepare pad32 sample_installer sample_payload sample_selection ''cli'' ''1'' ''2'' ''/a/z'' True sample_disk
     = (Inr sample_operation, SaveOperation sample_operation sample_disk)"
  by (simp add: Prepare_def digestFile_def sample_disk_def sample_installer_def sample_operation_def Let_def
      sample_selection_def sample_payload_def)

definition sample_events :: "backup_event \<Rightarrow> activate_events" where
  "sample_events b = \<lparr>ae_backup = b, ae_chmod = True, ae_rename = True, ae_sync = False, ae_save = True\<rparr>"

lemma sample_recover_outcome: "\<exists>r d2 act ok d3.
    activate (sample_events b) 5 sample_installer sample_operation sample_payload
        (SaveOperation sample_operation sample_disk) = (r, d2)
    \<and> Recover pad32 all_well sample_installer ''1.0'' 10 d2 = ((act, ok), d3)"
  by (metis surj_pair)


theorem truncated_backup_restored_witness:
  "\<exists>d2. dk_files d2 ''/a/app'' = Some ''old''
     \<and> dk_files (snd (Recover pad32 all_well sample_installer ''1.0'' 10 d2)) ''/a/app'' = Some ''o''"
proof -
  obtain r d2 where h:
    "activate (sample_events (CopyCrashed 1)) 5 sample_installer sample_operation sample_payload
        (SaveOperation sample_operation sample_disk) = (r, d2)" by (metis surj_pair)
  have "pad32 (take 1 ''old'') \<noteq> pad32 ''old''" by code_simp
  then show ?thesis
    using truncated_backup_restored[OF sample_ready sample_prepare h, of 1 "''1.0''" 10]
    by (auto simp: sample_events_def sample_installer_def)
qed

text \<open>
  An acknowledgement can be lost on the helper: it confirms and clears the
  journal at once, so a helper whose polls fall before and behind both steps never sees
  the confirmed phase. The helper then rolls back a healthy installation, finds the
  backup removed, and records a failure that recovery answers with manual action.
\<close>

theorem acknowledgement_missed:
  assumes "Acknowledge True v d = (Inr (), d1)" and "dk_journal d = Some p"
    and "\<forall>q\<in>set polls. po_journal q = dk_journal d \<or> po_journal q = dk_journal d1"
    and "op_Backup p \<noteq> []" and "re_save ev"
  shows "awaitHealth deadline polls \<noteq> Healthy
    \<and> (\<exists>d2 p2. runHelper ev True i p True now polls d1 = (HelperFailed, d2) \<and> dk_journal d2 = Some p2
        \<and> fst (EvaluateRecovery p2 st) = RecoveryManual)"
proof -
  have ph: "op_Phase p = PhaseActivated" and d1: "d1 = snd (Cleanup True p (SaveOperation (p\<lparr>op_Phase := PhaseConfirmed\<rparr>) d))"
    using assms(1,2) by (auto simp: Acknowledge_def AcknowledgeOperation_def Cleanup_def Let_def split: if_splits)
  have gone: "dk_journal d1 = None" "dk_files d1 (op_Backup p) = None"
    using fold_remove_all_gone[of "op_Backup p" "backupAndStagingPaths p"] assms(4)
    by (simp_all add: d1 Cleanup_def ClearOperation_def backupAndStagingPaths_def)
  have never: "awaitHealth dl polls \<noteq> Healthy" for dl
    using assms(3) unfolding gone(1) assms(2)
    by (induction polls) (auto simp: ph phase_defs)
  have "rollback ev i p reason d1
      = (False, SaveOperation (p\<lparr>op_Phase := PhaseRolledBack, op_SuppressNext := True, op_FailedError := reason @ '': restore backup''\<rparr>) d1)" for reason
    using assms(5) gone(2) by (simp add: rollback_def restoreFile_def rename_def)
  then show ?thesis
    using never by (auto simp: runHelper_def SaveOperation_def EvaluateRecovery_def split: health.split)
qed

theorem acknowledgement_missed_witness:
  "awaitHealth 65 [\<lparr>po_ctxDone = False, po_journal = None, po_now = 6, po_alive = True\<rparr>] \<noteq> Healthy"
proof -
  let ?p = "sample_operation\<lparr>op_Phase := PhaseActivated\<rparr>"
  let ?d = "SaveOperation ?p sample_disk"
  obtain d1 where a: "Acknowledge True ''1.1'' ?d = (Inr (), d1)" and j: "dk_journal d1 = None"
    by (auto simp: Acknowledge_def AcknowledgeOperation_def SaveOperation_def Cleanup_def ClearOperation_def
        sample_operation_def newOperation_def Let_def)
  show ?thesis
    using acknowledgement_missed[OF a, of ?p "[\<lparr>po_ctxDone = False, po_journal = None, po_now = 6, po_alive = True\<rparr>]" "rv_rollback all_well" 65] j
    by (auto simp: SaveOperation_def sample_operation_def newOperation_def all_well_def)
qed

end
