(* ===== verification/Coordinator.thy ===== *)
theory Coordinator
  imports Staging Recovery
begin

text \<open>
  The update coordinator, \<open>internal/application/updates/manager.go\<close>.

  A goroutine is a program counter with the events it has still to send; \<open>thread_step\<close> is
  what it does up to the next point where another goroutine can run, which is every point
  where the mutex is not held. \<open>coordinator_step\<close> interleaves the hourly check, checks and
  applies of clients and the startup apply. Channels are numbers, and closing one twice is
  a panic. The installation pipeline behind an accepted apply is \<open>install\<close>: it joins staging
  (\<open>Staging\<close>) with the transaction (\<open>Recovery\<close>) for a file payload; builds without a bundle
  platform refuse the bundle flavor in \<open>capable\<close>.
\<close>

section \<open>The cached status\<close>

record update_status =
  us_CurrentVersion :: string
  us_Available :: bool
  us_Latest :: string
  us_Notes :: string
  us_ReleasedAt :: gotime
  us_SelfUpdate :: bool
  us_Applying :: bool

datatype apply_error = ApplyBusy | ManualOnlyInstall | NotWired | NoticeFailed string | ResolveFailed release_error
  | VersionFailed string | InstallFailed string

datatype neutral = ManualText | ErrorText apply_error

definition neutralMessage :: "apply_error \<Rightarrow> neutral" where
  "neutralMessage e = (if e = ManualOnlyInstall \<or> e = ResolveFailed ManualOnly then ManualText else ErrorText e)"

datatype update_event = EventStatus update_status | EventFailed neutral

type_synonym channel = nat

record manager =
  mg_status :: update_status
  mg_applying :: bool
  mg_barrier :: "channel option"
  mg_idle :: channel
  mg_cancelOp :: bool
  mg_closed :: "channel list"
  mg_channels :: nat
  mg_events :: "update_event list"
  mg_panic :: bool

text \<open>What the capability probe of \<open>NewManager\<close> sees.\<close>

record probe =
  pr_wired :: bool
  pr_installDir :: bool
  pr_bundlePlatform :: bool
  pr_filePlatform :: bool
  pr_writable :: bool

definition capable :: "semver \<Rightarrow> identity \<Rightarrow> probe \<Rightarrow> bool" where
  "capable sv i p =
     (if \<not> SelfUpdateCapable sv i then False
      else if \<not> pr_wired p then False
      else if \<not> pr_installDir p then False
      else if (if id_Flavor i = FlavorBundle then \<not> pr_bundlePlatform p else \<not> pr_filePlatform p) then False
      else pr_writable p)"

definition closedChannel :: channel where "closedChannel = 0"

definition NewManager :: "semver \<Rightarrow> identity \<Rightarrow> probe \<Rightarrow> manager" where
  "NewManager sv i p =
     \<lparr>mg_status = \<lparr>us_CurrentVersion = id_Version i, us_Available = False, us_Latest = [], us_Notes = [],
        us_ReleasedAt = 0, us_SelfUpdate = capable sv i p, us_Applying = False\<rparr>,
      mg_applying = False, mg_barrier = None, mg_idle = closedChannel, mg_cancelOp = False,
      mg_closed = [closedChannel], mg_channels = 1, mg_events = [], mg_panic = False\<rparr>"

definition close_channel :: "channel \<Rightarrow> manager \<Rightarrow> manager" where
  "close_channel c m = (if c \<in> set (mg_closed m) then m\<lparr>mg_panic := True\<rparr> else m\<lparr>mg_closed := c # mg_closed m\<rparr>)"

definition Current :: "manager \<Rightarrow> update_status" where "Current = mg_status"

text \<open>The part of a status that no fetch decides, with the flag the cache has at this moment.\<close>

definition baseStatus :: "identity \<Rightarrow> manager \<Rightarrow> update_status" where
  "baseStatus i m = \<lparr>us_CurrentVersion = id_Version i, us_Available = False, us_Latest = [],
     us_Notes = [], us_ReleasedAt = 0, us_SelfUpdate = us_SelfUpdate (mg_status m), us_Applying = us_Applying (mg_status m)\<rparr>"

text \<open>The events are sent after the mutex is released.\<close>

definition commit_status :: "update_status \<Rightarrow> manager \<Rightarrow> manager \<times> update_event list" where
  "commit_status s m = (if s \<noteq> mg_status m then (m\<lparr>mg_status := s\<rparr>, [EventStatus s]) else (m, []))"

section \<open>Checks\<close>

record fetch_answer =
  fa_wired :: bool
  fa_notice :: "string + string option"
  fa_parse :: "string \<Rightarrow> url option"
  fa_latest :: "string + release"
  fa_manifest :: "string \<Rightarrow> string + string"

definition fetch :: "semver \<Rightarrow> identity \<Rightarrow> fetch_answer \<Rightarrow> apply_error + (selection \<times> bool) option" where
  "fetch sv i a =
     (if \<not> fa_wired a then Inl NotWired
      else (case fa_notice a of
        Inl e \<Rightarrow> Inl (NoticeFailed e)
      | Inr None \<Rightarrow> Inr None
      | Inr (Some hint) \<Rightarrow>
          (case Resolve sv (fa_parse a) i (fa_latest a) (fa_manifest a) hint of
             Inl e \<Rightarrow> Inl (ResolveFailed e)
           | Inr sel \<Rightarrow>
               (case IsNewer sv (id_Version i) (se_Version sel) of
                  Inl e \<Rightarrow> Inl (VersionFailed e)
                | Inr newer \<Rightarrow> Inr (Some (sel, newer))))))"

definition fetched_status :: "(selection \<times> bool) option \<Rightarrow> update_status \<Rightarrow> update_status" where
  "fetched_status f base =
     (case f of
        Some (sel, True) \<Rightarrow> base\<lparr>us_Available := True, us_Latest := se_Version sel, us_Notes := se_Notes sel,
          us_ReleasedAt := se_ReleasedAt sel\<rparr>
      | _ \<Rightarrow> base)"

text \<open>One check with nothing in between.\<close>

definition Check :: "semver \<Rightarrow> identity \<Rightarrow> fetch_answer \<Rightarrow> manager \<Rightarrow> (apply_error + update_status) \<times> manager" where
  "Check sv i a m =
     (case fetch sv i a of
        Inl e \<Rightarrow> (Inl e, m)
      | Inr f \<Rightarrow>
          let s = fetched_status f (baseStatus i m); (m1, evs) = commit_status s m in
          (Inr s, m1\<lparr>mg_events := mg_events m1 @ evs\<rparr>))"

section \<open>Operations\<close>

definition beginOperation :: "manager \<Rightarrow> apply_error + manager" where
  "beginOperation m =
     (if mg_applying m then Inl ApplyBusy
      else if \<not> us_SelfUpdate (mg_status m) then Inl ManualOnlyInstall
      else Inr (m\<lparr>mg_applying := True, mg_idle := mg_channels m, mg_channels := mg_channels m + 1\<rparr>))"

definition accept_operation :: "channel \<Rightarrow> manager \<Rightarrow> manager \<times> update_event list" where
  "accept_operation barrier m =
     (let s = (mg_status m)\<lparr>us_Applying := True\<rparr> in
      (m\<lparr>mg_cancelOp := True, mg_barrier := Some barrier, mg_status := s\<rparr>, [EventStatus s]))"

text \<open>\<open>finishOperation\<close> up to the release of the mutex: the idle channel to close and the events
  to send behind it.\<close>

definition finishOperation :: "apply_error option \<Rightarrow> manager \<Rightarrow> manager \<times> channel \<times> update_event list" where
  "finishOperation failure m =
     (let s = (mg_status m)\<lparr>us_Applying := False\<rparr> in
      (m\<lparr>mg_applying := False, mg_barrier := None, mg_cancelOp := False, mg_status := s, mg_idle := closedChannel\<rparr>,
       mg_idle m,
       (case failure of None \<Rightarrow> [] | Some e \<Rightarrow> [EventFailed (neutralMessage e)])
         @ (if us_Applying (mg_status m) then [EventStatus s] else [])))"

definition take_barrier :: "manager \<Rightarrow> channel option \<times> manager" where
  "take_barrier m = (mg_barrier m, m\<lparr>mg_barrier := None\<rparr>)"

section \<open>Goroutines\<close>

datatype role = Checker | Applier channel

text \<open>
  The points between two locked sections. An accepted apply leaves its caller behind in
  \<open>Responding\<close>, which releases the barrier once the response is out; the startup apply has
  no response.
\<close>

datatype pc =
    Start role
  | Fetch role
  | Build role "(selection \<times> bool) option"
  | Store role "(selection \<times> bool) option" update_status
  | Decide channel "selection option" update_status
  | Installing selection
  | Responding
  | CloseBarrier channel
  | Finish "apply_error option"
  | CloseIdle channel "update_event list"
  | ProcessExit
  | Done

record input =
  ip_fetch :: fetch_answer
  ip_cancelled :: bool
  ip_install :: "apply_error option"

definition thread_step :: "semver \<Rightarrow> identity \<Rightarrow> input \<Rightarrow> manager \<Rightarrow> pc \<Rightarrow> manager \<times> pc \<times> update_event list \<times> pc list" where
  "thread_step sv i a m p =
     (case p of
        Start Checker \<Rightarrow> (m, Fetch Checker, [], [])
      | Start (Applier b) \<Rightarrow>
          (case beginOperation m of Inl e \<Rightarrow> (m, Done, [], []) | Inr m1 \<Rightarrow> (m1, Fetch (Applier b), [], []))
      | Fetch r \<Rightarrow>
          (case fetch sv i (ip_fetch a) of
             Inr f \<Rightarrow> (m, Build r f, [], [])
           | Inl e \<Rightarrow>
               (case r of
                  Checker \<Rightarrow> (m, Done, [], [])
                | Applier b \<Rightarrow> (m, Finish (if ip_cancelled a then None else Some e), [], [])))
      | Build r f \<Rightarrow> (m, Store r f (fetched_status f (baseStatus i m)), [], [])
      | Store r f s \<Rightarrow>
          (case commit_status s m of (m1, evs) \<Rightarrow>
            (m1, (case r of Checker \<Rightarrow> Done | Applier b \<Rightarrow> Decide b (map_option fst f) s), evs, []))
      | Decide b sel s \<Rightarrow>
          (case (us_Available s, sel) of
             (True, Some sel) \<Rightarrow>
               (case accept_operation b m of (m1, evs) \<Rightarrow>
                 (m1, (if b = closedChannel then Done else Responding), evs, [Installing sel]))
           | _ \<Rightarrow> (m, Finish None, [], []))
      | Installing sel \<Rightarrow>
          (case ip_install a of Some e \<Rightarrow> (m, Finish (Some e), [], []) | None \<Rightarrow> (m, ProcessExit, [], []))
      | Responding \<Rightarrow>
          (case take_barrier m of (None, m1) \<Rightarrow> (m1, Done, [], []) | (Some c, m1) \<Rightarrow> (m1, CloseBarrier c, [], []))
      | CloseBarrier c \<Rightarrow> (close_channel c m, Done, [], [])
      | Finish failure \<Rightarrow>
          (case finishOperation failure m of (m1, c, evs) \<Rightarrow> (m1, CloseIdle c evs, [], []))
      | CloseIdle c evs \<Rightarrow> (close_channel c m, Done, evs, [])
      | ProcessExit \<Rightarrow> (m, ProcessExit, [], [])
      | Done \<Rightarrow> (m, Done, [], []))"

type_synonym goroutine = "pc \<times> update_event list"

text \<open>
  A goroutine sends its events one by one before it goes on. New goroutines: a check (of the
  timer or of a client), an apply of a client with a fresh barrier, and the startup apply
  with the closed one.
\<close>

inductive coordinator_step ::
  "semver \<Rightarrow> identity \<Rightarrow> bool \<Rightarrow> manager \<times> goroutine list \<Rightarrow> manager \<times> goroutine list \<Rightarrow> bool" for sv i startup where
  new_check: "coordinator_step sv i startup (m, ts) (m, ts @ [(Start Checker, [])])"
| new_apply: "coordinator_step sv i startup (m, ts)
    (m\<lparr>mg_channels := mg_channels m + 1\<rparr>, ts @ [(Start (Applier (mg_channels m)), [])])"
| new_startup: "startup \<Longrightarrow> coordinator_step sv i startup (m, ts) (m, ts @ [(Start (Applier closedChannel), [])])"
| send: "coordinator_step sv i startup (m, as @ (p, e # evs) # bs) (m\<lparr>mg_events := mg_events m @ [e]\<rparr>, as @ (p, evs) # bs)"
| run: "thread_step sv i a m p = (m1, p1, evs, new) \<Longrightarrow>
    coordinator_step sv i startup (m, as @ (p, []) # bs) (m1, as @ (p1, evs) # bs @ map (\<lambda>q. (q, [])) new)"

definition reachable :: "semver \<Rightarrow> identity \<Rightarrow> probe \<Rightarrow> bool \<Rightarrow> manager \<times> goroutine list \<Rightarrow> bool" where
  "reachable sv i pr startup c \<longleftrightarrow> (coordinator_step sv i startup)\<^sup>*\<^sup>* (NewManager sv i pr, []) c"

section \<open>The installation\<close>

text \<open>
  What the calls of one installation answer, in their order; the archive formats read the
  staged content.
\<close>

record install_events =
  ie_barrier :: bool
  ie_stop :: "string option"
  ie_body :: "string + string list"
  ie_stage :: stage_events
  ie_path :: string
  ie_extract :: extract_env
  ie_archive :: "string \<Rightarrow> archive"
  ie_journal :: bool
  ie_idToken :: string
  ie_backupToken :: string
  ie_save :: bool
  ie_activate :: activate_events
  ie_now :: gotime
  ie_relaunch :: bool
  ie_handoff :: bool

definition disk_of :: "fs \<Rightarrow> operation option \<Rightarrow> disk" where
  "disk_of fs journal = \<lparr>dk_files = read_file fs, dk_journal = journal\<rparr>"

text \<open>The results: the failure or the exit of the process, whether the server still serves, and
  the disk.\<close>

definition install ::
  "(string \<Rightarrow> string) \<Rightarrow> installer \<Rightarrow> identity \<Rightarrow> bool \<Rightarrow> install_events \<Rightarrow> selection \<Rightarrow> fs \<Rightarrow> operation option
     \<Rightarrow> apply_error option \<times> bool \<times> disk" where
  "install sha i ident systemd ev sel fs journal =
     (let failed = (\<lambda>e d. (Some (InstallFailed e), False, d)); d0 = disk_of fs journal in
      if \<not> ie_barrier ev then (Some (InstallFailed ''context''), True, d0)
      else case ie_stop ev of Some e \<Rightarrow> failed ''drain serving before handoff'' d0 | None \<Rightarrow>
      case ie_body ev of Inl e \<Rightarrow> failed ''download release asset'' d0 | Inr body \<Rightarrow>
      case StageArchive sha (ie_stage ev) sel body DefaultLimits of Inl e \<Rightarrow> failed ''stage release asset'' d0 | Inr content \<Rightarrow>
      case Extract (ie_extract ev) (ie_archive ev content) (in_Dir i) sel (Target ident) DefaultLimits fs of
        (Inl e, x) \<Rightarrow> failed ''verify staged release'' (disk_of (xs_fs x) journal)
      | (Inr p, x) \<Rightarrow>
          let d1 = disk_of (xs_fs x) journal; pl = \<lparr>py_Dir = sp_Dir p, py_Executable = sp_Executable p\<rparr> in
          if \<not> ie_journal ev then failed ''acquire update ownership'' d1
          else case Prepare sha i pl sel (id_Flavor ident) (ie_idToken ev) (ie_backupToken ev) (ie_path ev) (ie_save ev) d1 of
            (Inl e, d2) \<Rightarrow> failed ''prepare'' d2
          | (Inr op1, d2) \<Rightarrow>
              (case activate (ie_activate ev) (ie_now ev) i op1 pl d2 of
                 (Inl e, d3) \<Rightarrow> failed ''activate'' d3
               | (Inr op2, d3) \<Rightarrow>
                   if systemd then (None, False, d3)
                   else if \<not> ie_relaunch ev then failed ''record relaunch arguments'' d3
                   else if \<not> ie_handoff ev then failed ''update handoff'' d3
                   else (None, False, d3)))"

section \<open>The operation token\<close>

definition in_operation :: "pc \<Rightarrow> bool" where
  "in_operation p \<longleftrightarrow> (case p of
     Fetch (Applier _) \<Rightarrow> True | Build (Applier _) _ \<Rightarrow> True | Store (Applier _) _ _ \<Rightarrow> True | Decide _ _ _ \<Rightarrow> True
   | Installing _ \<Rightarrow> True | Finish _ \<Rightarrow> True | ProcessExit \<Rightarrow> True | _ \<Rightarrow> False)"

text \<open>The channel a goroutine will close or hand over.\<close>

definition pc_channel :: "pc \<Rightarrow> channel option" where
  "pc_channel p = (case p of
     Start (Applier b) \<Rightarrow> Some b | Fetch (Applier b) \<Rightarrow> Some b | Build (Applier b) _ \<Rightarrow> Some b
   | Store (Applier b) _ _ \<Rightarrow> Some b | Decide b _ _ \<Rightarrow> Some b | CloseBarrier c \<Rightarrow> Some c | CloseIdle c _ \<Rightarrow> Some c
   | _ \<Rightarrow> None)"

definition owners :: "channel \<Rightarrow> manager \<times> goroutine list \<Rightarrow> nat" where
  "owners c = (\<lambda>(m, ts). length (filter (\<lambda>t. pc_channel (fst t) = Some c) ts)
     + of_bool (mg_barrier m = Some c) + of_bool (mg_applying m \<and> mg_idle m = c))"

definition coordinator_inv :: "bool \<Rightarrow> manager \<times> goroutine list \<Rightarrow> bool" where
  "coordinator_inv startup = (\<lambda>(m, ts).
     length (filter (\<lambda>t. in_operation (fst t)) ts) = of_bool (mg_applying m)
     \<and> (\<forall>c>0. owners c (m, ts) \<le> of_bool (c < mg_channels m \<and> c \<notin> set (mg_closed m)))
     \<and> (if mg_applying m then 0 < mg_idle m else mg_idle m = 0)
     \<and> 0 < mg_channels m \<and> 0 \<in> set (mg_closed m) \<and> (\<forall>c\<in>set (mg_closed m). c < mg_channels m)
     \<and> (\<forall>t\<in>set ts. \<forall>evs. fst t \<noteq> CloseIdle 0 evs)
     \<and> (\<not> startup \<longrightarrow> \<not> mg_panic m \<and> mg_barrier m \<noteq> Some 0 \<and> (\<forall>t\<in>set ts. pc_channel (fst t) \<noteq> Some 0)))"

lemma coordinator_init: "coordinator_inv startup (NewManager sv i pr, [])"
  by (simp add: coordinator_inv_def NewManager_def owners_def closedChannel_def)

text \<open>The invariant around one goroutine: what the others hold does not change.\<close>

definition others :: "bool \<Rightarrow> goroutine list \<Rightarrow> (channel \<Rightarrow> nat) \<Rightarrow> nat \<Rightarrow> bool" where
  "others startup ts own ops \<longleftrightarrow> (\<forall>c. own c = length (filter (\<lambda>t. pc_channel (fst t) = Some c) ts))
     \<and> ops = length (filter (\<lambda>t. in_operation (fst t)) ts)"

definition chan_count :: "channel \<Rightarrow> pc list \<Rightarrow> nat" where
  "chan_count c ps = length (filter (\<lambda>p. pc_channel p = Some c) ps)"

lemma chan_count_simps [simp]:
  "chan_count c [] = 0" "chan_count c (p # ps) = of_bool (pc_channel p = Some c) + chan_count c ps"
  by (simp_all add: chan_count_def)

definition owned_once :: "(channel \<Rightarrow> nat) \<Rightarrow> manager \<Rightarrow> pc list \<Rightarrow> bool" where
  "owned_once own m ps \<longleftrightarrow> (\<forall>c>0. own c + chan_count c ps + of_bool (mg_barrier m = Some c)
     + of_bool (mg_applying m \<and> mg_idle m = c) \<le> of_bool (c < mg_channels m \<and> c \<notin> set (mg_closed m)))"

definition local_inv :: "bool \<Rightarrow> (channel \<Rightarrow> nat) \<Rightarrow> nat \<Rightarrow> manager \<Rightarrow> pc list \<Rightarrow> bool" where
  "local_inv startup own ops m ps \<longleftrightarrow>
     ops + length (filter in_operation ps) = of_bool (mg_applying m)
     \<and> owned_once own m ps
     \<and> (if mg_applying m then 0 < mg_idle m else mg_idle m = 0)
     \<and> 0 < mg_channels m \<and> 0 \<in> set (mg_closed m) \<and> (\<forall>c\<in>set (mg_closed m). c < mg_channels m)
     \<and> (\<forall>p\<in>set ps. \<forall>evs. p \<noteq> CloseIdle 0 evs)
     \<and> (\<not> startup \<longrightarrow> \<not> mg_panic m \<and> mg_barrier m \<noteq> Some 0 \<and> (\<forall>p\<in>set ps. pc_channel p \<noteq> Some 0))"

lemma owned_onceD:
  "owned_once own m ps \<Longrightarrow> c > 0 \<Longrightarrow> own c + chan_count c ps + of_bool (mg_barrier m = Some c)
     + of_bool (mg_applying m \<and> mg_idle m = c) \<le> of_bool (c < mg_channels m \<and> c \<notin> set (mg_closed m))"
  by (simp add: owned_once_def)

text \<open>A step that gives up or hands over channels and closes none keeps the count.\<close>

lemma owned_once_step:
  assumes "owned_once own m ps" "mg_channels m1 = mg_channels m" "mg_closed m1 = mg_closed m"
    "\<And>c. c > 0 \<Longrightarrow> chan_count c qs + of_bool (mg_barrier m1 = Some c) + of_bool (mg_applying m1 \<and> mg_idle m1 = c)
       \<le> chan_count c ps + of_bool (mg_barrier m = Some c) + of_bool (mg_applying m \<and> mg_idle m = c)"
  shows "owned_once own m1 qs"
  unfolding owned_once_def
proof (intro allI impI)
  fix c :: nat assume c: "c > 0"
  from owned_onceD[OF assms(1) c] assms(4)[OF c]
  show "own c + chan_count c qs + of_bool (mg_barrier m1 = Some c) + of_bool (mg_applying m1 \<and> mg_idle m1 = c)
      \<le> of_bool (c < mg_channels m1 \<and> c \<notin> set (mg_closed m1))"
    unfolding assms(2,3) by linarith
qed

lemma owned_once_close:
  assumes "owned_once own m [p]" "pc_channel p = Some c" "pc_channel q = None"
  shows "owned_once own (close_channel c m) [q]" "c > 0 \<Longrightarrow> c < mg_channels m \<and> c \<notin> set (mg_closed m)"
proof -
  show new: "c < mg_channels m \<and> c \<notin> set (mg_closed m)" if "c > 0"
    using owned_onceD[OF assms(1) that] assms(2) by (auto simp: of_bool_def split: if_splits)
  have "own d + chan_count d [q] + of_bool (mg_barrier m = Some d) + of_bool (mg_applying m \<and> mg_idle m = d)
      \<le> of_bool (d < mg_channels m \<and> d \<notin> set (c # mg_closed m))" if "d > 0" for d
    using owned_onceD[OF assms(1) that] assms(2,3) that
    by (cases "d = c") (auto simp: of_bool_def split: if_splits)
  then show "owned_once own (close_channel c m) [q]"
    unfolding owned_once_def close_channel_def
    by (cases "c \<in> set (mg_closed m)") (auto simp: insert_absorb)
qed

lemma owned_once_begin:
  assumes "owned_once own m [Start (Applier b)]" "\<not> mg_applying m" "\<forall>c\<in>set (mg_closed m). c < mg_channels m"
  shows "owned_once own (m\<lparr>mg_applying := True, mg_idle := mg_channels m, mg_channels := mg_channels m + 1\<rparr>) [Fetch (Applier b)]"
  unfolding owned_once_def
proof (intro allI impI)
  fix c :: nat assume c: "c > 0"
  let ?m = "m\<lparr>mg_applying := True, mg_idle := mg_channels m, mg_channels := mg_channels m + 1\<rparr>"
  note o = owned_onceD[OF assms(1) c]
  show "own c + chan_count c [Fetch (Applier b)] + of_bool (mg_barrier ?m = Some c) + of_bool (mg_applying ?m \<and> mg_idle ?m = c)
      \<le> of_bool (c < mg_channels ?m \<and> c \<notin> set (mg_closed ?m))"
  proof (cases "c = mg_channels m")
    case True
    then show ?thesis using o assms(2,3) by (auto simp: pc_channel_def)
  next
    case False
    then have "(c < mg_channels ?m) = (c < mg_channels m)" by auto
    then show ?thesis using o assms(2) False by (simp add: pc_channel_def)
  qed
qed

definition same_tokens :: "manager \<Rightarrow> manager \<Rightarrow> bool" where
  "same_tokens m m1 \<longleftrightarrow> mg_applying m1 = mg_applying m \<and> mg_barrier m1 = mg_barrier m \<and> mg_idle m1 = mg_idle m
     \<and> mg_closed m1 = mg_closed m \<and> mg_channels m1 = mg_channels m \<and> mg_panic m1 = mg_panic m"

text \<open>Most steps leave the tokens alone and stay inside or outside of an operation.\<close>

lemma local_keep:
  assumes "local_inv startup own ops m [p]" "same_tokens m m1" "in_operation q = in_operation p"
    "pc_channel q = pc_channel p \<or> pc_channel q = None" "\<And>c evs. q \<noteq> CloseIdle c evs"
  shows "local_inv startup own ops m1 [q]"
proof -
  have "owned_once own m1 [q]"
    by (rule owned_once_step[of own m "[p]"]) (use assms in \<open>auto simp: local_inv_def same_tokens_def\<close>)
  then show ?thesis using assms by (auto simp: local_inv_def same_tokens_def)
qed

lemmas pc_defs = in_operation_def pc_channel_def

lemma local_step:
  assumes step: "thread_step sv i a m p = (m1, p1, evs, new)" and inv: "local_inv startup own ops m [p]"
  shows "local_inv startup own ops m1 (p1 # new)"
proof -
  have o: "owned_once own m [p]" using inv by (simp add: local_inv_def)
  have keep: "local_inv startup own ops m1 (p1 # new)"
    if "same_tokens m m1" "new = []" "in_operation p1 = in_operation p"
      "pc_channel p1 = pc_channel p \<or> pc_channel p1 = None" "\<forall>c evs. p1 \<noteq> CloseIdle c evs"
    using local_keep[OF inv that(1,3,4)] that(2,5) by simp
  show ?thesis
  proof (cases p)
    case (Start r)
    show ?thesis
    proof (cases r)
      case Checker
      then show ?thesis using Start step by (intro keep) (auto simp: thread_step_def pc_defs same_tokens_def)
    next
      case (Applier b)
      show ?thesis
      proof (cases "beginOperation m")
        case (Inl e)
        then show ?thesis using Start Applier step by (intro keep) (auto simp: thread_step_def pc_defs same_tokens_def)
      next
        case (Inr m2)
        then have m: "\<not> mg_applying m" "m1 = m\<lparr>mg_applying := True, mg_idle := mg_channels m, mg_channels := mg_channels m + 1\<rparr>"
          "p1 = Fetch (Applier b)" "new = []"
          using Start Applier step by (auto simp: thread_step_def beginOperation_def split: if_splits)
        have "owned_once own m1 [p1]" unfolding m(2,3)
          by (rule owned_once_begin) (use inv Start Applier m in \<open>simp_all add: local_inv_def\<close>)
        then show ?thesis using inv m Start Applier by (auto simp: local_inv_def pc_defs)
      qed
    qed
  next
    case (Fetch r)
    with step show ?thesis
      by (intro keep; cases r) (auto simp: thread_step_def pc_defs same_tokens_def split: sum.splits)
  next
    case (Build r f)
    with step show ?thesis
      by (intro keep; cases r) (auto simp: thread_step_def pc_defs same_tokens_def)
  next
    case (Store r f s)
    with step show ?thesis
      by (intro keep; cases r) (auto simp: thread_step_def pc_defs same_tokens_def commit_status_def split: if_splits)
  next
    case (Decide b sel s)
    show ?thesis
    proof (cases "us_Available s \<and> sel \<noteq> None")
      case False
      with Decide step show ?thesis
        by (intro keep) (auto simp: thread_step_def pc_defs same_tokens_def split: option.splits bool.splits)
    next
      case True
      then obtain x where "sel = Some x" "us_Available s" by auto
      then have r: "m1 = m\<lparr>mg_cancelOp := True, mg_barrier := Some b, mg_status := (mg_status m)\<lparr>us_Applying := True\<rparr>\<rparr>"
        "p1 = (if b = 0 then Done else Responding)" "new = [Installing x]"
        using Decide step by (auto simp: thread_step_def accept_operation_def closedChannel_def Let_def)
      have "owned_once own m1 (p1 # new)"
        by (rule owned_once_step[OF o]) (use r Decide in \<open>auto simp: pc_channel_def\<close>)
      then show ?thesis using inv r Decide by (cases "mg_applying m") (simp_all add: local_inv_def pc_defs)
    qed
  next
    case (Installing sel)
    with step show ?thesis by (intro keep) (auto simp: thread_step_def pc_defs same_tokens_def split: option.splits)
  next
    case Responding
    then have m: "m1 = m\<lparr>mg_barrier := None\<rparr>" "new = []" "p1 = (case mg_barrier m of None \<Rightarrow> Done | Some c \<Rightarrow> CloseBarrier c)"
      using step by (auto simp: thread_step_def take_barrier_def split: option.splits)
    have "owned_once own m1 [p1]"
      by (rule owned_once_step[OF o]) (use m Responding in \<open>auto simp: pc_channel_def split: option.splits\<close>)
    then show ?thesis using inv m Responding by (auto simp: local_inv_def pc_defs split: option.splits)
  next
    case (CloseBarrier c)
    then have m: "m1 = close_channel c m" "new = []" "p1 = Done" using step by (auto simp: thread_step_def)
    have ch: "pc_channel p = Some c" "pc_channel Done = None" using CloseBarrier by (simp_all add: pc_channel_def)
    note oc = owned_once_close[OF o ch]
    from inv m oc CloseBarrier show ?thesis
      by (cases "c = 0") (auto simp: local_inv_def pc_defs close_channel_def)
  next
    case (Finish e)
    then have f: "mg_applying m" "0 < mg_idle m" using inv by (auto simp: local_inv_def pc_defs split: if_splits)
    obtain es where m: "m1 = m\<lparr>mg_applying := False, mg_barrier := None, mg_cancelOp := False,
        mg_status := (mg_status m)\<lparr>us_Applying := False\<rparr>, mg_idle := 0\<rparr>" "new = []" "p1 = CloseIdle (mg_idle m) es"
      using step Finish by (auto simp: thread_step_def finishOperation_def Let_def closedChannel_def)
    have "owned_once own m1 [p1]"
      by (rule owned_once_step[OF o]) (use m Finish f in \<open>auto simp: pc_channel_def\<close>)
    then show ?thesis using inv m f Finish by (auto simp: local_inv_def pc_defs)
  next
    case (CloseIdle c es)
    then have m: "m1 = close_channel c m" "new = []" "p1 = Done" using step by (auto simp: thread_step_def)
    have ch: "pc_channel p = Some c" "pc_channel Done = None" using CloseIdle by (simp_all add: pc_channel_def)
    have c: "c > 0" using inv CloseIdle by (auto simp: local_inv_def)
    note oc = owned_once_close[OF o ch]
    from inv m oc(1) oc(2)[OF c] CloseIdle show ?thesis
      by (auto simp: local_inv_def pc_defs close_channel_def)
  qed (use step in \<open>intro keep; auto simp: thread_step_def same_tokens_def\<close>)+
qed

lemma coordinator_inv_local:
  "coordinator_inv startup (m, as @ (p, evs) # bs @ map (\<lambda>q. (q, [])) new) \<longleftrightarrow>
     (\<forall>t\<in>set (as @ bs). \<forall>es. fst t \<noteq> CloseIdle 0 es)
     \<and> (\<not> startup \<longrightarrow> (\<forall>t\<in>set (as @ bs). pc_channel (fst t) \<noteq> Some 0))
     \<and> local_inv startup (\<lambda>c. length (filter (\<lambda>t. pc_channel (fst t) = Some c) (as @ bs)))
         (length (filter (\<lambda>t. in_operation (fst t)) (as @ bs))) m (p # new)"
proof -
  let ?ts = "as @ (p, evs) # bs @ map (\<lambda>q. (q, [])) new"
  have o: "owners c (m, ?ts) =
      length (filter (\<lambda>t. pc_channel (fst t) = Some c) (as @ bs)) + chan_count c (p # new)
        + of_bool (mg_barrier m = Some c) + of_bool (mg_applying m \<and> mg_idle m = c)" for c
    by (simp add: owners_def chan_count_def filter_map comp_def)
  have h: "length (filter (\<lambda>t. in_operation (fst t)) ?ts)
      = length (filter (\<lambda>t. in_operation (fst t)) (as @ bs)) + length (filter in_operation (p # new))"
    by (simp add: filter_map comp_def)
  have b: "(\<forall>t\<in>set ?ts. P (fst t)) \<longleftrightarrow> (\<forall>t\<in>set (as @ bs). P (fst t)) \<and> (\<forall>q\<in>set (p # new). P q)" for P
    by (fastforce simp: ball_Un)
  show ?thesis
    unfolding coordinator_inv_def local_inv_def owned_once_def prod.case o h
      b[of "\<lambda>q. \<forall>es. q \<noteq> CloseIdle 0 es"] b[of "\<lambda>q. pc_channel q \<noteq> Some 0"]
    by blast
qed

lemma coordinator_inv_step:
  assumes "coordinator_step sv i startup c c'" "coordinator_inv startup c"
  shows "coordinator_inv startup c'"
  using assms
proof (cases rule: coordinator_step.cases)
  case (new_check m ts)
  then show ?thesis using assms(2) by (auto simp: coordinator_inv_def owners_def pc_defs)
next
  case (new_apply m ts)
  let ?c = "mg_channels m" and ?m = "m\<lparr>mg_channels := mg_channels m + 1\<rparr>"
  let ?t = "(Start (Applier ?c), [])"
  have "owners d (?m, ts @ [?t]) \<le> of_bool (d < mg_channels ?m \<and> d \<notin> set (mg_closed ?m))" if d: "d > 0" for d
  proof -
    have o: "owners d (?m, ts @ [?t]) = owners d (m, ts) + of_bool (d = ?c)" by (auto simp: owners_def pc_defs)
    have "owners d (m, ts) \<le> of_bool (d < ?c \<and> d \<notin> set (mg_closed m))" "\<forall>e\<in>set (mg_closed m). e < ?c"
      using assms(2) new_apply d by (auto simp: coordinator_inv_def)
    then show ?thesis unfolding o by (cases "d = ?c") (auto simp: less_Suc_eq)
  qed
  then show ?thesis using assms(2) new_apply by (auto simp: coordinator_inv_def pc_defs)
next
  case (new_startup m ts)
  then show ?thesis using assms(2) by (auto simp: coordinator_inv_def owners_def pc_defs closedChannel_def)
next
  case (send m as p e evs bs)
  have "local_inv startup own ops (m\<lparr>mg_events := es\<rparr>) ps = local_inv startup own ops m ps" for own ops es ps
    by (simp add: local_inv_def owned_once_def)
  then show ?thesis using assms(2) send coordinator_inv_local[where new = "[]"] by simp
next
  case (run a m p m1 p1 evs new as bs)
  then show ?thesis using assms(2) local_step[OF run(3)]
    coordinator_inv_local[of startup m as p "[]" bs "[]"] coordinator_inv_local[of startup m1 as p1 evs bs new] by simp
qed

lemma reachable_inv: "reachable sv i pr startup c \<Longrightarrow> coordinator_inv startup c"
  unfolding reachable_def
  by (induction rule: rtranclp_induct) (auto intro: coordinator_init coordinator_inv_step)

text \<open>
  Property C17. (\<open>beginOperation\<close>, \<open>finishOperation\<close>, \<open>WaitIdle\<close>) However checks, applies and
  responses interleave, the token is taken exactly while one goroutine is inside an operation,
  never two, the channel \<open>WaitIdle\<close> waits on is open exactly as long, and without the
  startup apply no channel is closed twice.
\<close>

theorem single_operation:
  assumes "reachable sv i pr startup (m, ts)"
  shows "length (filter (\<lambda>t. in_operation (fst t)) ts) = (if mg_applying m then 1 else 0)
    \<and> (mg_idle m \<notin> set (mg_closed m) \<longleftrightarrow> mg_applying m)
    \<and> (\<not> startup \<longrightarrow> \<not> mg_panic m)"
proof -
  have inv: "coordinator_inv startup (m, ts)" using reachable_inv[OF assms] .
  have "mg_idle m \<notin> set (mg_closed m)" if a: "mg_applying m"
  proof -
    have "0 < mg_idle m" using inv a by (auto simp: coordinator_inv_def)
    then have "owners (mg_idle m) (m, ts) \<le> of_bool (mg_idle m < mg_channels m \<and> mg_idle m \<notin> set (mg_closed m))"
      using inv by (simp add: coordinator_inv_def)
    then show ?thesis using a by (auto simp: owners_def)
  qed
  then show ?thesis using inv by (auto simp: coordinator_inv_def)
qed

section \<open>Schedules\<close>

text \<open>A schedule says which goroutine goes next, so that a run can be computed.\<close>

datatype action = NewCheck | NewApply | NewStartup | Run nat input

definition advance :: "semver \<Rightarrow> identity \<Rightarrow> nat \<Rightarrow> input \<Rightarrow> manager \<times> goroutine list \<Rightarrow> manager \<times> goroutine list" where
  "advance sv i k a = (\<lambda>(m, ts).
     if k < length ts then
       (case ts ! k of
          (p, e # evs) \<Rightarrow> (m\<lparr>mg_events := mg_events m @ [e]\<rparr>, ts[k := (p, evs)])
        | (p, []) \<Rightarrow> (case thread_step sv i a m p of (m1, p1, evs, new) \<Rightarrow>
            (m1, ts[k := (p1, evs)] @ map (\<lambda>q. (q, [])) new)))
     else (m, ts))"

fun play :: "semver \<Rightarrow> identity \<Rightarrow> action list \<Rightarrow> manager \<times> goroutine list \<Rightarrow> manager \<times> goroutine list" where
  "play sv i [] c = c"
| "play sv i (NewCheck # as) (m, ts) = play sv i as (m, ts @ [(Start Checker, [])])"
| "play sv i (NewApply # as) (m, ts) =
     play sv i as (m\<lparr>mg_channels := mg_channels m + 1\<rparr>, ts @ [(Start (Applier (mg_channels m)), [])])"
| "play sv i (NewStartup # as) (m, ts) = play sv i as (m, ts @ [(Start (Applier closedChannel), [])])"
| "play sv i (Run k a # as) c = play sv i as (advance sv i k a c)"

lemma advance_steps: "(coordinator_step sv i startup)\<^sup>*\<^sup>* c (advance sv i k a c)"
proof (cases c)
  case (Pair m ts)
  show ?thesis
  proof (cases "k < length ts")
    case True
    obtain p evs where t: "ts ! k = (p, evs)" by fastforce
    define xs where "xs = take k ts"
    define ys where "ys = drop (Suc k) ts"
    have ts: "ts = xs @ (p, evs) # ys" and l: "length xs = k"
      using True t id_take_nth_drop[OF True] by (simp_all add: xs_def ys_def)
    have u: "ts[k := q] = xs @ q # ys" for q unfolding ts using l by (simp add: list_update_append)
    show ?thesis
    proof (cases evs)
      case Nil
      obtain m1 p1 es new where st: "thread_step sv i a m p = (m1, p1, es, new)" by (metis prod_cases4)
      have "advance sv i k a c = (m1, xs @ (p1, es) # ys @ map (\<lambda>q. (q, [])) new)"
        using True t Nil st u[of "(p1, es)"] Pair by (simp add: advance_def)
      then show ?thesis using coordinator_step.run[OF st, of startup xs ys] Pair ts Nil by auto
    next
      case (Cons e es)
      have "advance sv i k a c = (m\<lparr>mg_events := mg_events m @ [e]\<rparr>, xs @ (p, es) # ys)"
        using True t Cons u[of "(p, es)"] Pair by (simp add: advance_def)
      then show ?thesis using coordinator_step.send[of sv i startup m xs p e es ys] Pair ts Cons by auto
    qed
  qed (simp add: advance_def Pair)
qed

lemma play_steps:
  "NewStartup \<notin> set as \<or> startup \<Longrightarrow> (coordinator_step sv i startup)\<^sup>*\<^sup>* c (play sv i as c)"
proof (induction sv i as c rule: play.induct)
  case (2 sv i as m ts)
  have "coordinator_step sv i startup (m, ts) (m, ts @ [(Start Checker, [])])"
    by (rule coordinator_step.new_check)
  then show ?case unfolding play.simps
    by (rule converse_rtranclp_into_rtranclp) (rule 2(1), use 2(2) in simp)
next
  case (3 sv i as m ts)
  have "coordinator_step sv i startup (m, ts) (m\<lparr>mg_channels := mg_channels m + 1\<rparr>, ts @ [(Start (Applier (mg_channels m)), [])])"
    by (rule coordinator_step.new_apply)
  then show ?case unfolding play.simps
    by (rule converse_rtranclp_into_rtranclp) (rule 3(1), use 3(2) in simp)
next
  case (4 sv i as m ts)
  have "coordinator_step sv i startup (m, ts) (m, ts @ [(Start (Applier closedChannel), [])])"
    by (rule coordinator_step.new_startup) (use 4(2) in simp)
  then show ?case unfolding play.simps
    by (rule converse_rtranclp_into_rtranclp) (rule 4(1), use 4(2) in simp)
next
  case (5 sv i k a as c)
  show ?case unfolding play.simps
    by (rule rtranclp_trans[OF advance_steps]) (rule 5(1), use 5(2) in simp)
qed simp

lemma play_reachable:
  "NewStartup \<notin> set as \<Longrightarrow> reachable sv i pr startup (play sv i as (NewManager sv i pr, []))"
  unfolding reachable_def by (rule play_steps) simp

section \<open>A flag that stays\<close>

definition sample_identity :: identity where
  "sample_identity = \<lparr>id_Version = ''1.0.0'', id_GOOS = ''linux'', id_GOARCH = ''arm'', id_Flavor = FlavorHeadless\<rparr>"

definition sample_probe :: probe where
  "sample_probe = \<lparr>pr_wired = True, pr_installDir = True, pr_bundlePlatform = False, pr_filePlatform = True, pr_writable = True\<rparr>"

definition sample_answer :: fetch_answer where
  "sample_answer = \<lparr>fa_wired = True, fa_notice = Inr (Some ''v1.2.3''), fa_parse = sample_url, fa_latest = Inr sample_release,
     fa_manifest = (\<lambda>_. Inr (replicate 64 (CHR ''A'') @ '' filelist-streaming-1.2.3-linux-armv7.tar.gz''))\<rparr>"

definition sample_input :: input where
  "sample_input = \<lparr>ip_fetch = sample_answer, ip_cancelled = False, ip_install = Some (InstallFailed ''download'')\<rparr>"

definition overlapping_check :: "action list" where
  "overlapping_check =
     NewApply # replicate 7 (Run 0 sample_input)
     @ NewCheck # replicate 3 (Run 2 sample_input)
     @ replicate 5 (Run 1 sample_input) @ replicate 3 (Run 2 sample_input) @ replicate 2 (Run 0 sample_input)"

lemma overlapping_check_outcome:
  "case play sample_semver sample_identity overlapping_check (NewManager sample_semver sample_identity sample_probe, []) of
     (m, ts) \<Rightarrow> list_all (\<lambda>t. t = (Done, [])) ts \<and> \<not> mg_applying m \<and> us_Applying (mg_status m)"
  by code_simp

lemma Check_status:
  "fetch sv i a = Inr f \<Longrightarrow> Check sv i a m = (r, m1) \<Longrightarrow> mg_status m1 = fetched_status f (baseStatus i m)"
  by (auto simp: Check_def commit_status_def Let_def split: if_splits)

text \<open>
  (\<open>baseStatus\<close>, \<open>commit\<close>) A check that reads its base status while an apply is
  in flight and stores it after the apply has failed leaves \<open>applying\<close> set: nothing runs any
  more, yet the cached status says so, and every later check copies the flag.
\<close>

theorem stale_applying:
  "\<exists>m ts. reachable sample_semver sample_identity sample_probe False (m, ts)
     \<and> list_all (\<lambda>t. t = (Done, [])) ts \<and> \<not> mg_applying m \<and> us_Applying (mg_status m)
     \<and> (\<forall>a. us_Applying (mg_status (snd (Check sample_semver sample_identity a m))))"
proof -
  obtain m ts where p: "play sample_semver sample_identity overlapping_check
      (NewManager sample_semver sample_identity sample_probe, []) = (m, ts)" by fastforce
  have a: "list_all (\<lambda>t. t = (Done, [])) ts" "\<not> mg_applying m" "us_Applying (mg_status m)"
    using overlapping_check_outcome p by auto
  have "reachable sample_semver sample_identity sample_probe False (m, ts)"
    using play_reachable[of overlapping_check sample_semver sample_identity sample_probe False] p
    by (simp add: overlapping_check_def)
  moreover have "us_Applying (mg_status (snd (Check sample_semver sample_identity x m)))" for x
  proof (cases "fetch sample_semver sample_identity x")
    case (Inl e)
    then show ?thesis using a(3) by (simp add: Check_def)
  next
    case (Inr f)
    then show ?thesis using Check_status[OF Inr prod.collapse[symmetric], of m] a(3)
      by (auto simp: fetched_status_def baseStatus_def split: option.splits bool.splits)
  qed
  ultimately show ?thesis using a by blast
qed

lemma single_operation_witness:
  "let (m, ts) = play sample_semver sample_identity overlapping_check (NewManager sample_semver sample_identity sample_probe, []) in
   \<not> mg_panic m \<and> length (filter (\<lambda>t. in_operation (fst t)) ts) = (if mg_applying m then 1 else 0)"
proof -
  obtain m ts where p: "play sample_semver sample_identity overlapping_check
      (NewManager sample_semver sample_identity sample_probe, []) = (m, ts)" by fastforce
  have "reachable sample_semver sample_identity sample_probe False (m, ts)"
    using play_reachable[of overlapping_check sample_semver sample_identity sample_probe False] p
    by (simp add: overlapping_check_def)
  from single_operation[OF this] p show ?thesis by simp
qed

section \<open>The effect of a check\<close>

text \<open>
  A check offers exactly the resolved release when it is newer and clears the offer when it
  is not or nothing is announced; a failed check leaves whatever was offered before.
\<close>

lemma check_availability:
  assumes "Check sv i a m = (r, m1)"
  shows "case fetch sv i a of
      Inl e \<Rightarrow> r = Inl e \<and> mg_status m1 = mg_status m
    | Inr (Some (sel, True)) \<Rightarrow> us_Available (mg_status m1) \<and> us_Latest (mg_status m1) = se_Version sel
    | Inr _ \<Rightarrow> \<not> us_Available (mg_status m1) \<and> us_Latest (mg_status m1) = []"
proof (cases "fetch sv i a")
  case (Inl e)
  then show ?thesis using assms by (simp add: Check_def)
next
  case (Inr f)
  from Check_status[OF Inr assms] Inr show ?thesis
    by (auto simp: fetched_status_def baseStatus_def split: option.splits bool.splits)
qed

section \<open>What an installation leaves\<close>

lemma Extract_verified:
  assumes "Extract env a destDir sel tg l fs = (Inr p, x)"
  shows "\<exists>dir. verifyPayload env dir sel tg (xs_fs x) = Inr p"
proof -
  from assms obtain dir y where "extractInto env a dir sel tg l y = (Inr p, x)"
    by (auto simp: Extract_def Let_def split: if_splits option.splits prod.splits sum.splits)
  then show ?thesis by (auto simp: extractInto_def seq_Inr of_result_def)
qed

lemma payload_verified:
  assumes "verifyPayload env dir sel tg fs = Inr p" "tg_Flavor tg \<noteq> FlavorBundle"
  obtains c where "read_file fs (sp_Executable p) = Some c" "VerifyExecutable env (Some c) sel tg = Inr ()"
proof -
  have v: "VerifyExecutable env (read_file fs (sp_Executable p)) sel tg = Inr ()"
    using assms by (auto simp: verifyPayload_def Let_def split: if_splits sum.splits)
  then obtain c where "read_file fs (sp_Executable p) = Some c"
    by (cases "read_file fs (sp_Executable p)") (simp_all add: VerifyExecutable_def)
  with v that show ?thesis by simp
qed

lemma rename_content:
  assumes "rename src dst d = Some d'"
  shows "dk_files d' dst = dk_files d src" "dk_files d' p = (if p = dst then dk_files d src else if p = src then None else dk_files d p)"
    "dk_journal d' = dk_journal d"
  using assms by (auto simp: rename_def split: option.splits)

lemma backupFile_content:
  assumes "backupFile ev live backup d = (True, d')"
  obtains c where "dk_files d live = Some c" "dk_files d backup = None"
    "dk_files d' = (dk_files d)(backup \<mapsto> c)" "dk_journal d' = dk_journal d"
  using assms that by (auto simp: backupFile_def put_def split: option.splits if_splits backup_event.splits)

lemma activate_content:
  assumes "activate ev now i op pl d = (Inr op', d')" "dk_files d (py_Executable pl) = Some c"
  obtains old where "dk_files d (in_Executable i) = Some old" "dk_files d' (in_Executable i) = Some c"
    "dk_files d' (op_Backup op') = Some old" "op' = op\<lparr>op_Phase := PhaseActivated, op_Deadline := now + in_HealthTimeout i\<rparr>"
    "dk_journal d' = Some op'"
proof -
  from assms(1) obtain d1 d2 where b: "backupFile (ae_backup ev) (in_Executable i) (op_Backup op) d = (True, d1)"
    and r: "rename (py_Executable pl) (in_Executable i) d1 = Some d2"
    and o: "op' = op\<lparr>op_Phase := PhaseActivated, op_Deadline := now + in_HealthTimeout i\<rparr>" "d' = SaveOperation op' d2"
    by (auto simp: activate_def Let_def split: prod.splits option.splits if_splits)
  from b obtain old where d1: "dk_files d (in_Executable i) = Some old" "dk_files d (op_Backup op) = None"
    "dk_files d1 = (dk_files d)(op_Backup op \<mapsto> old)" by (rule backupFile_content)
  have ne: "op_Backup op \<noteq> py_Executable pl" "op_Backup op \<noteq> in_Executable i" using d1 assms(2) by auto
  show ?thesis
    by (rule that[of old]) (use d1 ne o r assms(2) in \<open>auto simp: rename_content[OF r] SaveOperation_def\<close>)
qed

lemma Prepare_content:
  assumes "Prepare sha i pl sel flavor t b a ok d = (Inr op, d')"
  shows "dk_files d' = dk_files d" "op_Version op = se_Version sel"
    "dk_files d (in_Executable i) = Some c \<Longrightarrow> op_PriorState op = sha c"
  using assms
  by (auto simp: Prepare_def newOperation_def digestFile_def SaveOperation_def Let_def split: if_splits option.splits)


text \<open>
  (\<open>Manager.install\<close>) The server is drained before the asset is fetched, and no
  failure starts it again: a failed download is reported with the server down.
\<close>

theorem failed_download_stops_service:
  assumes "ie_barrier ev" "ie_stop ev = None" "ie_body ev = Inl e"
  shows "\<exists>f. install sha ins i systemd ev sel fs journal = (Some f, False, disk_of fs journal)
    \<and> finishOperation (Some f) m = (m\<lparr>mg_applying := False, mg_barrier := None, mg_cancelOp := False,
         mg_status := (mg_status m)\<lparr>us_Applying := False\<rparr>, mg_idle := closedChannel\<rparr>, mg_idle m,
         EventFailed (ErrorText f) # (if us_Applying (mg_status m) then [EventStatus ((mg_status m)\<lparr>us_Applying := False\<rparr>)] else []))"
  using assms by (auto simp: install_def finishOperation_def neutralMessage_def Let_def)

definition sample_install :: "string + string list \<Rightarrow> install_events" where
  "sample_install body = \<lparr>ie_barrier = True, ie_stop = None, ie_body = body,
     ie_stage = \<lparr>se_mkdir = True, se_create = True, se_stream = True, se_sync = True, se_close = True\<rparr>,
     ie_path = ''/srv/app/.filelist-stage-1.part'', ie_extract = sample_extract_env,
     ie_archive = (\<lambda>c. tar_of [reg_member ''filelist-streaming'' c]), ie_journal = True, ie_idToken = ''1'',
     ie_backupToken = ''2'', ie_save = True, ie_activate = (sample_events (Linked True))\<lparr>ae_sync := True\<rparr>, ie_now = 5,
     ie_relaunch = True, ie_handoff = True\<rparr>"

definition amd64_identity :: identity where
  "amd64_identity = sample_identity\<lparr>id_GOARCH := ''amd64''\<rparr>"

definition service_installer :: installer where
  "service_installer = \<lparr>in_Dir = ''/srv/app'', in_Executable = ''/srv/app/exe'', in_HealthTimeout = 60\<rparr>"

definition amd64_selection :: selection where
  "amd64_selection = sample_asset\<lparr>se_SHA256 := replicate 64 (CHR ''a'')\<rparr>"


lemma failed_download_stops_service_witness:
  "\<exists>f. install (\<lambda>_. []) service_installer amd64_identity False (sample_install (Inl ''unreachable'')) amd64_selection
    sample_fs None = (Some f, False, disk_of sample_fs None)"
  using failed_download_stops_service[of "sample_install (Inl ''unreachable'')" "''unreachable''" "\<lambda>_. []" service_installer
      amd64_identity False amd64_selection sample_fs None undefined]
  by (auto simp: sample_install_def)

end
