(* ===== verification/Regexp.thy ===== *)
theory Regexp
  imports Strconv
begin

text \<open>
  Go's \<open>regexp\<close> for the patterns of the source: bounded and greedy repetition of character
  classes, alternatives, groups and the anchors. \<open>find\<close> returns the leftmost match that
  backtracking finds first, with the position of its groups. Characters are bytes, so a
  class stands for ASCII characters.
\<close>

datatype regexp =
    Empty
  | Chars "char \<Rightarrow> bool"
  | Concat regexp regexp
  | Either regexp regexp
  | Repeat "char \<Rightarrow> bool" nat "nat option"
  | Group nat regexp
  | AtStart
  | AtEnd

text \<open>The position in the text, the rest of it and the groups matched so far.\<close>

type_synonym groups = "(nat \<times> nat \<times> nat) list"
type_synonym match_state = "nat \<times> string \<times> groups"

fun longest_first :: "(nat \<Rightarrow> 'a option) \<Rightarrow> nat \<Rightarrow> nat \<Rightarrow> 'a option" where
  "longest_first f lo 0 = (if 0 < lo then None else f 0)"
| "longest_first f lo (Suc n) =
     (if Suc n < lo then None else case f (Suc n) of Some x \<Rightarrow> Some x | None \<Rightarrow> longest_first f lo n)"

definition cap_at :: "nat option \<Rightarrow> nat \<Rightarrow> nat" where
  "cap_at hi n = (case hi of None \<Rightarrow> n | Some h \<Rightarrow> min h n)"

primrec run_regexp :: "regexp \<Rightarrow> (match_state \<Rightarrow> 'a option) \<Rightarrow> match_state \<Rightarrow> 'a option" where
  "run_regexp Empty k st = k st"
| "run_regexp (Chars P) k st = (case st of (i, rest, gs) \<Rightarrow>
     (case rest of [] \<Rightarrow> None | c # cs \<Rightarrow> if P c then k (Suc i, cs, gs) else None))"
| "run_regexp (Concat a b) k st = run_regexp a (run_regexp b k) st"
| "run_regexp (Either a b) k st = (case run_regexp a k st of Some x \<Rightarrow> Some x | None \<Rightarrow> run_regexp b k st)"
| "run_regexp (Repeat P lo hi) k st = (case st of (i, rest, gs) \<Rightarrow>
     longest_first (\<lambda>n. k (i + n, drop n rest, gs)) lo (cap_at hi (length (takeWhile P rest))))"
| "run_regexp (Group n a) k st = (case st of (i, _, _) \<Rightarrow>
     run_regexp a (\<lambda>(j, rest, gs). k (j, rest, (n, i, j) # gs)) st)"
| "run_regexp AtStart k st = (case st of (i, _, _) \<Rightarrow> if i = 0 then k st else None)"
| "run_regexp AtEnd k st = (case st of (_, rest, _) \<Rightarrow> if rest = [] then k st else None)"

text \<open>A match: where it starts and ends, and its groups.\<close>

definition match_here :: "regexp \<Rightarrow> nat \<Rightarrow> string \<Rightarrow> (nat \<times> nat \<times> groups) option" where
  "match_here r i rest = run_regexp r (\<lambda>(j, _, gs). Some (i, j, gs)) (i, rest, [])"

fun find_from :: "regexp \<Rightarrow> nat \<Rightarrow> string \<Rightarrow> (nat \<times> nat \<times> groups) option" where
  "find_from r i [] = match_here r i []"
| "find_from r i (c # cs) =
     (case match_here r i (c # cs) of Some m \<Rightarrow> Some m | None \<Rightarrow> find_from r (Suc i) cs)"

definition find :: "regexp \<Rightarrow> string \<Rightarrow> (nat \<times> nat \<times> groups) option" where
  "find r s = find_from r 0 s"

definition slice :: "nat \<Rightarrow> nat \<Rightarrow> string \<Rightarrow> string" where
  "slice a b s = take (b - a) (drop a s)"

text \<open>The text of a group, empty where it took no part in the match.\<close>

definition group_text :: "groups \<Rightarrow> nat \<Rightarrow> string \<Rightarrow> string" where
  "group_text gs n s = (case map_of gs n of None \<Rightarrow> [] | Some (a, b) \<Rightarrow> slice a b s)"

text \<open>Patterns.\<close>

fun seq_of :: "regexp list \<Rightarrow> regexp" where
  "seq_of [] = Empty" | "seq_of [r] = r" | "seq_of (r # rs) = Concat r (seq_of rs)"

definition opt :: "regexp \<Rightarrow> regexp" where "opt r = Either r Empty"

text \<open>The case-insensitive text.\<close>

fun word :: "string \<Rightarrow> regexp" where
  "word [] = Empty" | "word (c # cs) = Concat (Chars (\<lambda>d. d = ascii_lower c \<or> d = ascii_upper c)) (word cs)"

fun either_of :: "regexp list \<Rightarrow> regexp" where
  "either_of [] = Empty" | "either_of [r] = r" | "either_of (r # rs) = Either r (either_of rs)"

definition one_of :: "string \<Rightarrow> regexp" where "one_of cs = Chars (\<lambda>c. c \<in> set cs)"

definition digits :: "nat \<Rightarrow> nat \<Rightarrow> regexp" where "digits lo hi = Repeat is_digit lo (Some hi)"

section \<open>The language of a pattern\<close>

text \<open>The texts a pattern may match, anchors aside.\<close>

primrec language :: "regexp \<Rightarrow> string set" where
  "language Empty = {[]}"
| "language (Chars P) = {[c] |c. P c}"
| "language (Concat a b) = {u @ v |u v. u \<in> language a \<and> v \<in> language b}"
| "language (Either a b) = language a \<union> language b"
| "language (Repeat P lo hi) = {u. list_all P u \<and> lo \<le> length u \<and> (\<forall>h. hi = Some h \<longrightarrow> length u \<le> h)}"
| "language (Group n a) = language a"
| "language AtStart = {[]}"
| "language AtEnd = {[]}"

primrec bodies :: "regexp \<Rightarrow> (nat \<times> regexp) set" where
  "bodies Empty = {}"
| "bodies (Chars P) = {}"
| "bodies (Concat a b) = bodies a \<union> bodies b"
| "bodies (Either a b) = bodies a \<union> bodies b"
| "bodies (Repeat P lo hi) = {}"
| "bodies (Group n a) = insert (n, a) (bodies a)"
| "bodies AtStart = {}"
| "bodies AtEnd = {}"

lemma longest_first_Some:
  "longest_first f lo n = Some x \<Longrightarrow> \<exists>m. lo \<le> m \<and> m \<le> n \<and> f m = Some x"
proof (induction n)
  case (Suc n)
  show ?case
  proof (cases "f (Suc n)")
    case None
    then show ?thesis using Suc by (auto split: if_splits intro: le_SucI)
  next
    case (Some y)
    then show ?thesis using Suc.prems by (intro exI[of _ "Suc n"]) (simp split: if_splits)
  qed
qed (simp split: if_splits)

lemma take_run: "n \<le> length (takeWhile P xs) \<Longrightarrow> take n xs = take n (takeWhile P xs)"
  by (induction xs arbitrary: n) (auto simp: take_Cons' split: if_splits)

lemma slice_append: "i \<le> j \<Longrightarrow> j \<le> l \<Longrightarrow> slice i l s = slice i j s @ slice j l s"
  using take_add[of "j - i" "l - j" "drop i s"] by (simp add: slice_def)

lemma slice_refl [simp]: "slice i i s = []"
  by (simp add: slice_def)

lemma slice_take: "drop i s = u @ v \<Longrightarrow> slice i (i + length u) s = u \<and> drop (i + length u) s = v"
  unfolding slice_def by (metis add.commute add_diff_cancel_left' append_eq_conv_conj drop_drop)

text \<open>A match consumes a text of the language, and each group it adds is one of a group's body.\<close>

definition group_ok :: "regexp \<Rightarrow> string \<Rightarrow> nat \<times> nat \<times> nat \<Rightarrow> bool" where
  "group_ok r s g \<longleftrightarrow> (case g of (n, a, b) \<Rightarrow> \<exists>body. (n, body) \<in> bodies r \<and> a \<le> b \<and> b \<le> length s
     \<and> slice a b s \<in> language body)"

lemma group_ok_mono: "group_ok r s g \<Longrightarrow> bodies r \<subseteq> bodies r' \<Longrightarrow> group_ok r' s g"
  by (auto simp: group_ok_def)

lemma run_regexp_sound:
  assumes "run_regexp r k (i, drop i s, gs) = Some x" "i \<le> length s"
  shows "\<exists>j new. i \<le> j \<and> j \<le> length s \<and> slice i j s \<in> language r \<and> (\<forall>g\<in>set new. group_ok r s g)
    \<and> k (j, drop j s, new @ gs) = Some x"
  using assms
proof (induction r arbitrary: k i gs)
  case Empty
  then show ?case by (intro exI[of _ i] exI[of _ "[]"]) simp
next
  case AtStart
  then show ?case by (intro exI[of _ i] exI[of _ "[]"]) (simp split: if_splits)
next
  case AtEnd
  then show ?case by (intro exI[of _ i] exI[of _ "[]"]) (simp split: if_splits)
next
  case (Chars P)
  then obtain c cs where c: "drop i s = [c] @ cs" "P c" "k (Suc i, cs, gs) = Some x"
    by (auto split: list.splits if_splits)
  from slice_take[OF c(1)] have "slice i (Suc i) s = [c]" "drop (Suc i) s = cs" by simp_all
  moreover have "Suc i \<le> length s" using c(1) by (metis Suc_leI append_Cons drop_all list.distinct(1) not_le)
  ultimately show ?case using c by (intro exI[of _ "Suc i"] exI[of _ "[]"]) simp
next
  case (Concat a b)
  have "run_regexp a (run_regexp b k) (i, drop i s, gs) = Some x" using Concat.prems(1) by simp
  from Concat.IH(1)[OF this Concat.prems(2)] obtain j n1 where
    a: "i \<le> j" "j \<le> length s" "slice i j s \<in> language a" "\<forall>g\<in>set n1. group_ok a s g"
    "run_regexp b k (j, drop j s, n1 @ gs) = Some x" by blast
  from Concat.IH(2)[OF this(5,2)] obtain l n2 where
    b: "j \<le> l" "l \<le> length s" "slice j l s \<in> language b" "\<forall>g\<in>set n2. group_ok b s g" "k (l, drop l s, n2 @ n1 @ gs) = Some x"
    by blast
  have "slice i l s \<in> language (Concat a b)" using a b slice_append[of i j l s] by auto
  moreover have "\<forall>g\<in>set (n2 @ n1). group_ok (Concat a b) s g" using a b by (auto intro: group_ok_mono)
  ultimately show ?case using a b by (intro exI[of _ l] exI[of _ "n2 @ n1"]) auto
next
  case (Either a b)
  show ?case
  proof (cases "run_regexp a k (i, drop i s, gs)")
    case None
    with Either.prems obtain j new where "i \<le> j" "j \<le> length s" "slice i j s \<in> language b" "\<forall>g\<in>set new. group_ok b s g"
      "k (j, drop j s, new @ gs) = Some x" using Either.IH(2)[of k i gs] by auto
    then show ?thesis by (intro exI[of _ j] exI[of _ new]) (auto intro: group_ok_mono)
  next
    case (Some y)
    with Either.prems obtain j new where "i \<le> j" "j \<le> length s" "slice i j s \<in> language a" "\<forall>g\<in>set new. group_ok a s g"
      "k (j, drop j s, new @ gs) = Some x" using Either.IH(1)[of k i gs] by auto
    then show ?thesis by (intro exI[of _ j] exI[of _ new]) (auto intro: group_ok_mono)
  qed
next
  case (Repeat P lo hi)
  let ?run = "takeWhile P (drop i s)"
  from Repeat obtain n where n: "lo \<le> n" "n \<le> cap_at hi (length ?run)" "k (i + n, drop n (drop i s), gs) = Some x"
    by (auto dest: longest_first_Some)
  have len: "n \<le> length ?run" "\<And>h. hi = Some h \<Longrightarrow> n \<le> h" using n(2) by (auto simp: cap_at_def split: option.splits)
  have u: "take n (drop i s) = take n ?run"
    by (rule take_run[OF len(1)])
  have "list_all P (take n ?run)" by (auto simp: list_all_iff dest: in_set_takeD set_takeWhileD)
  moreover have "length (take n ?run) = n" using len(1) by simp
  ultimately have "slice i (i + n) s \<in> language (Repeat P lo hi)" using n(1) len(2) u by (simp add: slice_def)
  moreover have "i + n \<le> length s" using len(1) Repeat.prems(2) length_takeWhile_le[of P "drop i s"] by simp
  ultimately show ?case using n(3) by (intro exI[of _ "i + n"] exI[of _ "[]"]) (simp add: add.commute)
next
  case (Group n a)
  then obtain j new where a: "i \<le> j" "j \<le> length s" "slice i j s \<in> language a" "\<forall>g\<in>set new. group_ok a s g"
    "k (j, drop j s, (n, i, j) # new @ gs) = Some x" using Group.IH[of _ i gs] by fastforce
  then have "\<forall>g\<in>set ((n, i, j) # new). group_ok (Group n a) s g"
    by (auto simp: group_ok_def)
  with a show ?case by (intro exI[of _ j] exI[of _ "(n, i, j) # new"]) auto
qed

lemma match_here_sound:
  assumes "match_here r i (drop i s) = Some (a, b, gs)" "i \<le> length s"
  shows "i \<le> a \<and> a \<le> b \<and> b \<le> length s \<and> slice a b s \<in> language r \<and> (\<forall>g\<in>set gs. group_ok r s g)"
proof -
  obtain j new where "i \<le> j" "j \<le> length s" "slice i j s \<in> language r" "\<forall>g\<in>set new. group_ok r s g"
    "Some (i, j, new) = Some (a, b, gs)"
    using run_regexp_sound[OF assms(1)[unfolded match_here_def] assms(2)] by auto
  then show ?thesis by simp
qed

lemma find_from_sound:
  "find_from r i rest = Some (a, b, gs) \<Longrightarrow> rest = drop i s \<Longrightarrow> i \<le> length s \<Longrightarrow>
     i \<le> a \<and> a \<le> b \<and> b \<le> length s \<and> slice a b s \<in> language r \<and> (\<forall>g\<in>set gs. group_ok r s g)"
proof (induction r i rest rule: find_from.induct)
  case (1 r i)
  then have "match_here r i (drop i s) = Some (a, b, gs)" by simp
  then show ?case by (rule match_here_sound) (rule "1.prems"(3))
next
  case (2 r i c cs)
  then have i: "i < length s" by (metis drop_all list.distinct(1) not_le)
  have cs: "cs = drop (Suc i) s" using "2.prems"(2) by (metis drop_Suc list.sel(3) tl_drop)
  show ?case
  proof (cases "match_here r i (c # cs)")
    case None
    then have f: "find_from r (Suc i) cs = Some (a, b, gs)" using "2.prems"(1) by simp
    from "2.IH"[OF None f cs] i show ?thesis by simp
  next
    case (Some m)
    then have "match_here r i (c # cs) = Some (a, b, gs)" using "2.prems"(1) by simp
    then show ?thesis unfolding "2.prems"(2) by (rule match_here_sound) (rule "2.prems"(3))
  qed
qed

theorem find_sound:
  assumes "find r s = Some (a, b, gs)"
  shows "a \<le> b" "b \<le> length s" "slice a b s \<in> language r" "\<And>g. g \<in> set gs \<Longrightarrow> group_ok r s g"
  using find_from_sound[of r 0 s a b gs s] assms by (auto simp: find_def)

text \<open>The text of a group, when every group of that number has a body in \<open>L\<close>.\<close>

lemma find_group:
  assumes "find r s = Some (a, b, gs)" "\<And>body. (n, body) \<in> bodies r \<Longrightarrow> language body \<subseteq> L"
  shows "group_text gs n s \<in> insert [] L"
proof (cases "map_of gs n")
  case (Some p)
  then have "group_ok r s (n, p)" using find_sound(4)[OF assms(1)] map_of_SomeD by fast
  then show ?thesis using Some assms(2) by (auto simp: group_ok_def group_text_def split: prod.splits)
qed (simp add: group_text_def)

end
