(* ===== verification/ReleaseNames.thy ===== *)
theory ReleaseNames
  imports Regexp Domain
begin

text \<open>
  Release names, \<open>internal/domain/catalog.go\<close>: \<open>ParseRelease\<close> with its patterns and cleaning
  functions and the identity of a catalog title. Names are ASCII apart from the en dash of
  the season patterns; the hash of a title key is a parameter.
\<close>

section \<open>The records\<close>

definition MediaMovie :: string where "MediaMovie = ''movie''"
definition MediaSeries :: string where "MediaSeries = ''series''"

record parsed_release =
  pa_Title :: string
  pa_SortTitle :: string
  pa_Kind :: string
  pa_Year :: int
  pa_SeasonStart :: int
  pa_SeasonEnd :: int
  pa_EpisodeStart :: int
  pa_EpisodeEnd :: int
  pa_EpisodeTitle :: string
  pa_Resolution :: string
  pa_Quality :: string
  pa_VideoCodec :: string
  pa_Audio :: string
  pa_HDR :: string
  pa_Edition :: string
  pa_ReleaseGroup :: string

section \<open>The patterns\<close>

definition before_of :: "string \<Rightarrow> regexp" where "before_of cs = Either AtStart (one_of cs)"
definition after_of :: "string \<Rightarrow> regexp" where "after_of cs = Either (one_of cs) AtEnd"

definition re_spaces :: regexp where
  "re_spaces = Repeat (\<lambda>c. c \<in> {CHR '' '', CHR 0x09, CHR 0x0A, CHR 0x0C, CHR 0x0D}) 0 None"

definition re_dash :: regexp where
  "re_dash = Either (one_of ''-'') (seq_of [one_of [CHR 0xE2], one_of [CHR 0x80], one_of [CHR 0x93]])"

definition episodeRE :: regexp where
  "episodeRE = seq_of [before_of '' ._-'', word ''S'', Group 1 (digits 1 2), word ''E'', Group 2 (digits 1 3), after_of '' ._-'']"

definition episodeAltRE :: regexp where
  "episodeAltRE = seq_of [before_of '' ._-'', Group 1 (digits 1 2), word ''x'', Group 2 (digits 1 3), after_of '' ._-'']"

definition seasonRE :: regexp where
  "seasonRE = seq_of [before_of '' ._-'', word ''S'', Group 1 (digits 1 2),
     opt (seq_of [re_spaces, re_dash, re_spaces, opt (word ''S''), Group 2 (digits 1 2)]), after_of '' ._-'']"

definition seasonWordRE :: regexp where
  "seasonWordRE = seq_of [before_of '' ._-'', Either (word ''season'') (word ''sezonul''), re_spaces, Group 1 (digits 1 2),
     opt (seq_of [re_spaces, re_dash, re_spaces, opt (Either (word ''season'') (word ''sezonul'')), re_spaces, Group 2 (digits 1 2)]),
     after_of '' ._-['']"

definition leadingGroup :: regexp where
  "leadingGroup = seq_of [AtStart, one_of ''['', Group 1 (Repeat (\<lambda>c. c \<noteq> CHR '']'') 2 (Some 40)), one_of '']'', re_spaces]"

definition yearRE :: regexp where
  "yearRE = seq_of [before_of '' ._-('',
     Group 1 (Either (seq_of [one_of ''1'', one_of ''9'', digits 2 2]) (seq_of [one_of ''2'', one_of ''0'', digits 2 2])),
     after_of '' ._-)'']"

definition resolutionRE :: regexp where
  "resolutionRE = seq_of [before_of '' ._-['',
     Group 1 (either_of [word ''2160p'', word ''1080p'', word ''1080i'', word ''720p'', word ''576p'', word ''480p'', word ''4k'', word ''uhd'']),
     after_of '' ._-]'']"

definition is_ascii_letter :: "char \<Rightarrow> bool" where
  "is_ascii_letter c \<longleftrightarrow> (let n = (of_char c :: nat) in 65 \<le> n \<and> n \<le> 90 \<or> 97 \<le> n \<and> n \<le> 122)"

definition releaseEndRE :: regexp where
  "releaseEndRE = seq_of [one_of ''-'',
     Group 1 (Concat (Chars (\<lambda>c. is_ascii_letter c \<or> is_digit c))
       (Repeat (\<lambda>c. is_ascii_letter c \<or> is_digit c \<or> c \<in> set ''._-'') 1 (Some 30))), AtEnd]"

section \<open>Cleaning\<close>

text \<open>\<open>strings.Index\<close>.\<close>

fun index_of :: "string \<Rightarrow> string \<Rightarrow> nat option" where
  "index_of [] p = (if p = [] then Some 0 else None)"
| "index_of (c # cs) p = (if has_prefix (c # cs) p then Some 0 else map_option Suc (index_of cs p))"

definition cleanTitle :: "string \<Rightarrow> string" where
  "cleanTitle v = join_with '' '' (str_fields (map (\<lambda>c. if c = CHR ''.'' \<or> c = CHR ''_'' then CHR '' '' else c)
     (trim_chars '' ._-()[]'' v)))"

fun normalize_from :: "bool \<Rightarrow> string \<Rightarrow> string" where
  "normalize_from space [] = []"
| "normalize_from space (c # cs) =
     (if is_ascii_letter c \<or> is_digit c then c # normalize_from False cs
      else if \<not> space then CHR '' '' # normalize_from True cs
      else normalize_from True cs)"

definition normalizeTitle :: "string \<Rightarrow> string" where
  "normalizeTitle v = trim_space (normalize_from False (to_lower v))"

definition technical_tokens :: "string list" where
  "technical_tokens = [''.2160P'', ''.1080P'', ''.1080I'', ''.720P'', ''.576P'', ''.480P'', ''.WEB-DL'', ''.WEBRIP'',
     ''.BLURAY'', ''.BLU-RAY'', ''.HDTV'', ''.DVDRIP'', ''.REMUX'', '' 2160P'', '' 1080P'', '' 720P'']"

definition firstTechnicalToken :: "string \<Rightarrow> nat" where
  "firstTechnicalToken v = fold (\<lambda>token best. case index_of (to_upper v) token of
       Some i \<Rightarrow> if i < best then i else best | None \<Rightarrow> best) technical_tokens (length v)"

definition cleanEpisodeTitle :: "string \<Rightarrow> string" where
  "cleanEpisodeTitle v = cleanTitle (take (firstTechnicalToken v) v)"

definition firstMatch :: "string \<Rightarrow> string list \<Rightarrow> string" where
  "firstMatch upper values = (case filter (contains_str upper) values of [] \<Rightarrow> [] | v # _ \<Rightarrow> v)"

section \<open>ParseRelease\<close>

text \<open>\<open>strconv.Atoi\<close> with the error dropped.\<close>

definition atoi :: "string \<Rightarrow> int" where
  "atoi s = (case parse_int64 s of None \<Rightarrow> 0 | Some n \<Rightarrow> n)"

text \<open>The group and the name behind it.\<close>

definition leading_group :: "string \<Rightarrow> string \<times> string" where
  "leading_group name = (case find leadingGroup name of
     Some (a, b, gs) \<Rightarrow> (trim_space (group_text gs 1 name), trim_space (drop (b - a) name))
   | None \<Rightarrow> ([], name))"

definition episode_numbers :: "string \<Rightarrow> nat \<times> nat \<times> groups \<Rightarrow> parsed_release \<Rightarrow> parsed_release" where
  "episode_numbers name m p = (case m of (_, b, gs) \<Rightarrow>
     p\<lparr>pa_Kind := MediaSeries,
       pa_SeasonStart := atoi (group_text gs 1 name), pa_SeasonEnd := atoi (group_text gs 1 name),
       pa_EpisodeStart := atoi (group_text gs 2 name), pa_EpisodeEnd := atoi (group_text gs 2 name),
       pa_EpisodeTitle := cleanEpisodeTitle (drop b name)\<rparr>)"

definition season_numbers :: "string \<Rightarrow> nat \<times> nat \<times> groups \<Rightarrow> parsed_release \<Rightarrow> parsed_release" where
  "season_numbers name m p = (case m of (_, _, gs) \<Rightarrow>
     p\<lparr>pa_Kind := MediaSeries, pa_SeasonStart := atoi (group_text gs 1 name),
       pa_SeasonEnd := (if map_of gs 2 = None then atoi (group_text gs 1 name) else atoi (group_text gs 2 name))\<rparr>)"

text \<open>The first pattern that matches gives the numbers and where the title ends.\<close>

definition parse_numbers :: "string \<Rightarrow> parsed_release \<Rightarrow> parsed_release \<times> nat" where
  "parse_numbers name p =
     (case find episodeRE name of Some m \<Rightarrow> (episode_numbers name m p, fst m) | None \<Rightarrow>
      case find episodeAltRE name of Some m \<Rightarrow> (episode_numbers name m p, fst m) | None \<Rightarrow>
      case find seasonRE name of Some m \<Rightarrow> (season_numbers name m p, fst m) | None \<Rightarrow>
      case find seasonWordRE name of Some m \<Rightarrow> (season_numbers name m p, fst m) | None \<Rightarrow> (p, length name))"

definition parse_year :: "string \<Rightarrow> parsed_release \<times> nat \<Rightarrow> parsed_release \<times> nat" where
  "parse_year name = (\<lambda>(p, boundary). case find yearRE name of
     None \<Rightarrow> (p, boundary)
   | Some (a, _, gs) \<Rightarrow> (p\<lparr>pa_Year := atoi (group_text gs 1 name)\<rparr>, if a < boundary then a else boundary))"

definition parse_resolution :: "string \<Rightarrow> string" where
  "parse_resolution name = (case find resolutionRE name of
     None \<Rightarrow> []
   | Some (_, _, gs) \<Rightarrow>
       let r = to_upper (group_text gs 1 name) in if r = ''4K'' \<or> r = ''UHD'' then ''2160p'' else to_lower r)"

definition no_release :: parsed_release where
  "no_release = \<lparr>pa_Title = [], pa_SortTitle = [], pa_Kind = MediaMovie, pa_Year = 0, pa_SeasonStart = 0, pa_SeasonEnd = 0,
     pa_EpisodeStart = 0, pa_EpisodeEnd = 0, pa_EpisodeTitle = [], pa_Resolution = [], pa_Quality = [], pa_VideoCodec = [],
     pa_Audio = [], pa_HDR = [], pa_Edition = [], pa_ReleaseGroup = []\<rparr>"

definition ParseRelease :: "torrent_release \<Rightarrow> parsed_release" where
  "ParseRelease release =
     (let (grp, name) = leading_group (trim_space (rel_Name release));
          (p1, boundary1) = parse_year name (parse_numbers name (no_release\<lparr>pa_ReleaseGroup := grp\<rparr>));
          boundary = (if boundary1 = length name then firstTechnicalToken name else boundary1);
          title0 = cleanTitle (take boundary name);
          title = (if title0 = [] then cleanTitle name else title0);
          upper = to_upper name in
      p1\<lparr>pa_Title := title, pa_SortTitle := normalizeTitle title,
        pa_Resolution := parse_resolution name,
        pa_Quality := firstMatch upper [''REMUX'', ''BLU-RAY'', ''BLURAY'', ''WEB-DL'', ''WEBRIP'', ''HDTV'', ''DVDRIP''],
        pa_VideoCodec := firstMatch upper [''AV1'', ''H.265'', ''H265'', ''HEVC'', ''X265'', ''H.264'', ''H264'', ''X264'', ''XVID''],
        pa_Audio := firstMatch upper [''TRUEHD'', ''ATMOS'', ''DTS-HD'', ''DTS'', ''EAC3'', ''DDP'', ''AC3'', ''AAC'', ''FLAC''],
        pa_HDR := firstMatch upper [''DOLBY VISION'', ''DOVI'', ''HDR10+'', ''HDR10'', ''HDR''],
        pa_Edition := firstMatch upper [''DIRECTOR'' @ [CHR 0x27] @ ''S CUT'', ''EXTENDED'', ''REMASTERED'', ''REPACK'', ''PROPER''],
        pa_ReleaseGroup := (case find releaseEndRE name of
            Some (_, _, gs) \<Rightarrow> if pa_ReleaseGroup p1 = [] then group_text gs 1 name else pa_ReleaseGroup p1
          | None \<Rightarrow> pa_ReleaseGroup p1)\<rparr>)"

section \<open>The identity of a title\<close>

definition title_key :: "torrent_release \<Rightarrow> parsed_release \<Rightarrow> string" where
  "title_key release p =
     (if rel_IMDbID release \<noteq> [] then pa_Kind p @ [CHR 0x00] @ ''imdb:'' @ to_lower (rel_IMDbID release)
      else pa_Kind p @ [CHR 0x00] @ pa_SortTitle p @ [CHR 0x00] @ show_int (pa_Year p))"

definition CatalogTitleID :: "(string \<Rightarrow> string) \<Rightarrow> torrent_release \<Rightarrow> parsed_release \<Rightarrow> string" where
  "CatalogTitleID hash release p = hash (title_key release p)"

section \<open>The numbers of a name\<close>

lemma digits_val_bounds: "list_all is_digit s \<Longrightarrow> 0 \<le> digits_val s \<and> digits_val s < 10 ^ length s"
proof (induction s rule: rev_induct)
  case (snoc c s)
  then have "0 \<le> digit_val c" "digit_val c \<le> 9" by (auto simp: is_digit_def digit_val_def Let_def)
  with snoc show ?case by (auto simp: digits_val_snoc)
qed (simp add: digits_val_def)

lemma atoi_digits:
  assumes "u \<in> insert [] (language (digits lo n))" "n < 19"
  shows "0 \<le> atoi u \<and> atoi u < 10 ^ n"
proof (cases "u = []")
  case False
  then have d: "list_all is_digit u" "length u \<le> n" using assms(1) by (auto simp: digits_def)
  obtain c cs where c: "u = c # cs" "is_digit c" using False d(1) by (cases u) auto
  have "(10::int) ^ length u \<le> 10 ^ n" by (rule power_increasing[OF d(2)]) simp
  then have v: "0 \<le> digits_val u" "digits_val u < 10 ^ n" using digits_val_bounds[OF d(1)] by linarith+
  have "(10::int) ^ n \<le> 10 ^ 18" using assms(2) by (intro power_increasing) simp_all
  then have "(10::int) ^ n < 2 ^ 63" by simp
  then have "parse_int64 u = Some (digits_val u)"
    using c is_digit_not_letter[OF c(2)] d(1) v False by (auto simp: parse_int64_def parse_digits_def in_i64_def)
  then show ?thesis using v by (simp add: atoi_def)
qed (simp add: atoi_def parse_int64_def parse_digits_def)

lemma find_digits:
  assumes "find r s = Some (a, b, gs)" "\<And>body. (k, body) \<in> bodies r \<Longrightarrow> body = digits 1 n" "n < 19"
  shows "0 \<le> atoi (group_text gs k s) \<and> atoi (group_text gs k s) < 10 ^ n"
proof (rule atoi_digits[OF _ assms(3)])
  show "group_text gs k s \<in> insert [] (language (digits 1 n))"
    by (rule find_group[OF assms(1)]) (use assms(2) in blast)
qed

lemmas re_defs = episodeRE_def episodeAltRE_def seasonRE_def seasonWordRE_def yearRE_def
  before_of_def after_of_def re_spaces_def re_dash_def opt_def one_of_def

lemma episode_bounds:
  assumes "find episodeRE s = Some (a, b, gs) \<or> find episodeAltRE s = Some (a, b, gs)"
  shows "0 \<le> atoi (group_text gs 1 s) \<and> atoi (group_text gs 1 s) < 100
    \<and> 0 \<le> atoi (group_text gs 2 s) \<and> atoi (group_text gs 2 s) < 1000"
  using assms
proof
  assume f: "find episodeRE s = Some (a, b, gs)"
  have "(1, body) \<in> bodies episodeRE \<Longrightarrow> body = digits 1 2" "(2, body) \<in> bodies episodeRE \<Longrightarrow> body = digits 1 3" for body
    by (auto simp: re_defs digits_def)
  from find_digits[OF f this(1)] find_digits[OF f this(2)] show ?thesis by simp
next
  assume f: "find episodeAltRE s = Some (a, b, gs)"
  have "(1, body) \<in> bodies episodeAltRE \<Longrightarrow> body = digits 1 2" "(2, body) \<in> bodies episodeAltRE \<Longrightarrow> body = digits 1 3" for body
    by (auto simp: re_defs digits_def)
  from find_digits[OF f this(1)] find_digits[OF f this(2)] show ?thesis by simp
qed

lemma season_bounds:
  assumes "find seasonRE s = Some (a, b, gs) \<or> find seasonWordRE s = Some (a, b, gs)"
  shows "0 \<le> atoi (group_text gs 1 s) \<and> atoi (group_text gs 1 s) < 100
    \<and> 0 \<le> atoi (group_text gs 2 s) \<and> atoi (group_text gs 2 s) < 100"
  using assms
proof
  assume f: "find seasonRE s = Some (a, b, gs)"
  have "(1, body) \<in> bodies seasonRE \<Longrightarrow> body = digits 1 2" "(2, body) \<in> bodies seasonRE \<Longrightarrow> body = digits 1 2" for body
    by (auto simp: re_defs digits_def)
  from find_digits[OF f this(1)] find_digits[OF f this(2)] show ?thesis by simp
next
  assume f: "find seasonWordRE s = Some (a, b, gs)"
  have "(1, body) \<in> bodies seasonWordRE \<Longrightarrow> body = digits 1 2" "(2, body) \<in> bodies seasonWordRE \<Longrightarrow> body = digits 1 2" for body
    by (auto simp: re_defs digits_def)
  from find_digits[OF f this(1)] find_digits[OF f this(2)] show ?thesis by simp
qed

lemma year_bounds:
  assumes "find yearRE s = Some (a, b, gs)"
  shows "atoi (group_text gs 1 s) = 0 \<or> (1900 \<le> atoi (group_text gs 1 s) \<and> atoi (group_text gs 1 s) \<le> 2099)"
proof -
  let ?L = "{u. \<exists>x y. is_digit x \<and> is_digit y \<and> (u = ''19'' @ [x, y] \<or> u = ''20'' @ [x, y])}"
  have two: "list_all is_digit v \<Longrightarrow> length v = 2 \<Longrightarrow> \<exists>x y. is_digit x \<and> is_digit y \<and> v = [x, y]" for v
    by (auto simp: length_Suc_conv numeral_2_eq_2)
  have d2: "language (seq_of [one_of [a], one_of [b], digits 2 2])
      \<subseteq> {u. \<exists>x y. is_digit x \<and> is_digit y \<and> u = [a, b] @ [x, y]}" for a b
    using two by (fastforce simp: digits_def one_of_def)
  have "language body \<subseteq> ?L" if "(1, body) \<in> bodies yearRE" for body
  proof -
    from that have "body = Either (seq_of [one_of ''1'', one_of ''9'', digits 2 2]) (seq_of [one_of ''2'', one_of ''0'', digits 2 2])"
      by (simp add: yearRE_def before_of_def after_of_def one_of_def digits_def)
    then have "language body = language (seq_of [one_of ''1'', one_of ''9'', digits 2 2])
        \<union> language (seq_of [one_of ''2'', one_of ''0'', digits 2 2])" by simp
    also have "\<dots> \<subseteq> ?L"
      by (rule Un_least; rule order_trans[OF d2]) auto
    finally show ?thesis .
  qed
  from find_group[OF assms this] have g: "group_text gs 1 s \<in> insert [] ?L" .
  have "1900 \<le> atoi u \<and> atoi u \<le> 2099" if u: "u \<in> ?L" for u
  proof -
    from u obtain x y where xy: "is_digit x" "is_digit y" "u = ''19'' @ [x, y] \<or> u = ''20'' @ [x, y]" by blast
    have d: "is_digit (CHR ''1'')" "is_digit (CHR ''9'')" "is_digit (CHR ''2'')" "is_digit (CHR ''0'')"
      by (simp_all add: is_digit_def)
    have r: "0 \<le> digit_val x" "digit_val x \<le> 9" "0 \<le> digit_val y" "digit_val y \<le> 9"
      using xy(1,2) by (auto simp: is_digit_def digit_val_def Let_def)
    have v: "digits_val (''19'' @ [x, y]) = 1900 + 10 * digit_val x + digit_val y"
      "digits_val (''20'' @ [x, y]) = 2000 + 10 * digit_val x + digit_val y"
      by (simp_all add: digits_val_def digit_val_def)
    have "parse_digits u = Some (digits_val u)" using xy d by (auto simp: parse_digits_def)
    moreover have "1900 \<le> digits_val u" "digits_val u \<le> 2099" using xy(3) v r by auto
    ultimately have "parse_int64 u = Some (digits_val u)"
      using xy(3) by (auto simp: parse_int64_def in_i64_def)
    then show ?thesis using \<open>1900 \<le> digits_val u\<close> \<open>digits_val u \<le> 2099\<close> by (simp add: atoi_def)
  qed
  then show ?thesis using g by (auto simp: atoi_def parse_int64_def parse_digits_def)
qed

definition numbers_ok :: "parsed_release \<Rightarrow> bool" where
  "numbers_ok p \<longleftrightarrow> 0 \<le> pa_SeasonStart p \<and> pa_SeasonStart p \<le> 99 \<and> 0 \<le> pa_SeasonEnd p \<and> pa_SeasonEnd p \<le> 99
     \<and> 0 \<le> pa_EpisodeStart p \<and> pa_EpisodeStart p \<le> 999 \<and> pa_EpisodeEnd p = pa_EpisodeStart p
     \<and> (pa_Kind p = MediaSeries \<or> pa_Kind p = MediaMovie \<and> pa_SeasonStart p = 0 \<and> pa_SeasonEnd p = 0 \<and> pa_EpisodeStart p = 0)
     \<and> (pa_Year p = 0 \<or> 1900 \<le> pa_Year p \<and> pa_Year p \<le> 2099)"

lemma parse_numbers_ok:
  assumes "p = no_release\<lparr>pa_ReleaseGroup := g\<rparr>" shows "numbers_ok (fst (parse_numbers name p))"
proof -
  have ep: "numbers_ok (episode_numbers name m p)" if "find episodeRE name = Some m \<or> find episodeAltRE name = Some m" for m
    using episode_bounds[of name "fst m" "fst (snd m)" "snd (snd m)"] that assms
    by (cases m) (simp add: numbers_ok_def episode_numbers_def no_release_def)
  have se: "numbers_ok (season_numbers name m p)" if "find seasonRE name = Some m \<or> find seasonWordRE name = Some m" for m
    using season_bounds[of name "fst m" "fst (snd m)" "snd (snd m)"] that assms
    by (cases m) (simp add: numbers_ok_def season_numbers_def no_release_def)
  have "numbers_ok p" using assms by (simp add: numbers_ok_def no_release_def)
  then show ?thesis using ep se by (auto simp: parse_numbers_def split: option.splits)
qed

lemma ParseRelease_numbers_ok: "numbers_ok (ParseRelease release)"
proof -
  obtain grp name where n: "leading_group (trim_space (rel_Name release)) = (grp, name)" by fastforce
  let ?p = "no_release\<lparr>pa_ReleaseGroup := grp\<rparr>"
  obtain p0 b0 where p0: "parse_numbers name ?p = (p0, b0)" by fastforce
  have ok0: "numbers_ok p0" using parse_numbers_ok[OF refl, of name grp] p0 by simp
  obtain p1 b1 where p1: "parse_year name (p0, b0) = (p1, b1)" by fastforce
  have "numbers_ok p1" using ok0 p1 year_bounds[of name]
    by (fastforce simp: parse_year_def numbers_ok_def split: option.splits prod.splits)
  then show ?thesis by (simp add: ParseRelease_def n p0 p1 numbers_ok_def Let_def)
qed

text \<open>
  (\<open>ParseRelease\<close>) Whatever the name, the year is absent or between 1900 and 2099,
  seasons are at most 99 and episodes at most 999, and a movie has none of them.
\<close>

theorem ParseRelease_numbers: "numbers_ok (ParseRelease release)"
  by (rule ParseRelease_numbers_ok)

section \<open>What the patterns miss\<close>

definition named :: "string \<Rightarrow> torrent_release" where
  "named n = \<lparr>rel_ID = [], rel_Name = n, rel_Category = [], rel_SizeBytes = 0, rel_IMDbID = [], rel_Seeders = 0,
     rel_Leechers = 0, rel_TimesCompleted = 0, rel_Freeleech = False, rel_DoubleUp = False, rel_Internal = False,
     rel_Moderated = False, rel_SmallDescription = [], rel_UploadedAt = None, rel_FileCount = 0, rel_Comments = 0\<rparr>"

text \<open>
  (\<open>releaseEndRE\<close>, \<open>yearRE\<close>) The leftmost dash wins, so the group of a WEB-DL release
  starts inside its quality; and a title that is itself a year hides the year behind it,
  because the separator between them is consumed by the first.
\<close>

theorem leftmost_pitfalls:
  "pa_ReleaseGroup (ParseRelease (named ''A.WEB-DL-GRP'')) = ''DL-GRP''
   \<and> pa_Year (ParseRelease (named ''1917.2019.WEB'')) = 1917
   \<and> pa_Title (ParseRelease (named ''1917.2019.WEB'')) = ''1917 2019 WEB''"
  by code_simp

section \<open>The identity of a parsed title\<close>

definition plain_char :: "char \<Rightarrow> bool" where "plain_char c \<longleftrightarrow> is_ascii_letter c \<or> is_digit c \<or> c = CHR '' ''"

lemma normalize_from_plain: "c \<in> set (normalize_from b s) \<Longrightarrow> plain_char c"
  by (induction b s rule: normalize_from.induct) (auto simp: plain_char_def split: if_splits)

lemma set_trim_space: "set (trim_space s) \<subseteq> set s"
  unfolding trim_space_def by (auto dest!: set_dropWhileD)

lemma normalizeTitle_plain: "c \<in> set (normalizeTitle v) \<Longrightarrow> plain_char c"
  unfolding normalizeTitle_def using set_trim_space normalize_from_plain by blast

lemma plain_char_not: "plain_char c \<Longrightarrow> c \<noteq> CHR 0x00 \<and> c \<noteq> CHR '':''"
  by (auto simp: plain_char_def is_ascii_letter_def is_digit_def)

lemma ParseRelease_sort: "\<exists>v. pa_SortTitle (ParseRelease release) = normalizeTitle v"
  unfolding ParseRelease_def Let_def by (auto split: prod.splits)

lemma ParseRelease_kind: "pa_Kind (ParseRelease release) = MediaSeries \<or> pa_Kind (ParseRelease release) = MediaMovie"
  using ParseRelease_numbers_ok[of release] by (auto simp: numbers_ok_def)

lemma sep_inj:
  assumes "a @ x # u = b @ x # v" "x \<notin> set a" "x \<notin> set b" shows "a = b \<and> u = v"
proof -
  have t: "takeWhile (\<lambda>y. y \<noteq> x) (c @ x # w) = c" if "x \<notin> set c" for c w
    using that by (induction c) auto
  have "a = b" using t[OF assms(2), of u] t[OF assms(3), of v] assms(1) by simp
  with assms(1) show ?thesis by simp
qed

definition same_title :: "torrent_release \<Rightarrow> torrent_release \<Rightarrow> bool" where
  "same_title r r' \<longleftrightarrow> (let p = ParseRelease r; p' = ParseRelease r' in
     pa_Kind p = pa_Kind p' \<and>
     (if rel_IMDbID r \<noteq> [] then rel_IMDbID r' \<noteq> [] \<and> to_lower (rel_IMDbID r) = to_lower (rel_IMDbID r')
      else rel_IMDbID r' = [] \<and> pa_SortTitle p = pa_SortTitle p' \<and> pa_Year p = pa_Year p'))"

lemma title_key_same: "title_key r (ParseRelease r) = title_key r' (ParseRelease r') \<longleftrightarrow> same_title r r'"
proof -
  let ?p = "ParseRelease r" and ?q = "ParseRelease r'"
  have kind: "CHR 0x00 \<notin> set (pa_Kind (ParseRelease x))" for x
    using ParseRelease_kind[of x] by (auto simp: MediaSeries_def MediaMovie_def)
  have sort: "CHR 0x00 \<notin> set (pa_SortTitle (ParseRelease x))" "CHR '':'' \<notin> set (pa_SortTitle (ParseRelease x))" for x
  proof -
    obtain v where v: "pa_SortTitle (ParseRelease x) = normalizeTitle v" using ParseRelease_sort by blast
    show "CHR 0x00 \<notin> set (pa_SortTitle (ParseRelease x))" "CHR '':'' \<notin> set (pa_SortTitle (ParseRelease x))"
      unfolding v using normalizeTitle_plain plain_char_not by blast+
  qed
  have year: "0 \<le> pa_Year (ParseRelease x)" for x using ParseRelease_numbers_ok[of x] by (auto simp: numbers_ok_def)
  have mixed: "''imdb:'' @ u \<noteq> pa_SortTitle (ParseRelease x) @ CHR 0x00 # v" for x u v
  proof
    assume e: "''imdb:'' @ u = pa_SortTitle (ParseRelease x) @ CHR 0x00 # v"
    have "takeWhile (\<lambda>y. y \<noteq> CHR 0x00) (pa_SortTitle (ParseRelease x) @ CHR 0x00 # v) = pa_SortTitle (ParseRelease x)"
      using sort(1)[of x] by (subst takeWhile_append2) auto
    then have "pa_SortTitle (ParseRelease x) = takeWhile (\<lambda>y. y \<noteq> CHR 0x00) (''imdb:'' @ u)" using e by simp
    then have "CHR '':'' \<in> set (pa_SortTitle (ParseRelease x))" by simp
    with sort(2) show False by blast
  qed
  have head: "pa_Kind ?p @ CHR 0x00 # u = pa_Kind ?q @ CHR 0x00 # v \<longleftrightarrow> pa_Kind ?p = pa_Kind ?q \<and> u = v" for u v
    using sep_inj[OF _ kind kind] by auto
  have tail: "pa_SortTitle ?p @ CHR 0x00 # show_int (pa_Year ?p) = pa_SortTitle ?q @ CHR 0x00 # show_int (pa_Year ?q)
      \<longleftrightarrow> pa_SortTitle ?p = pa_SortTitle ?q \<and> pa_Year ?p = pa_Year ?q"
  proof
    assume "pa_SortTitle ?p @ CHR 0x00 # show_int (pa_Year ?p) = pa_SortTitle ?q @ CHR 0x00 # show_int (pa_Year ?q)"
    from sep_inj[OF this sort(1) sort(1)] show "pa_SortTitle ?p = pa_SortTitle ?q \<and> pa_Year ?p = pa_Year ?q"
      by (simp only: show_int_inj simp_thms)
  qed (elim conjE, simp only:)
  show ?thesis
    using head tail mixed mixed[symmetric] by (simp add: title_key_def same_title_def Let_def)
qed

text \<open>
  (\<open>CatalogTitleID\<close>) With a hash that has no collisions two releases are the same
  title exactly when their kinds agree and so do their IMDb ids, or, for releases without
  one, the normalised title and the year; no name can imitate an id.
\<close>

theorem title_identity:
  assumes "inj hash"
  shows "CatalogTitleID hash r (ParseRelease r) = CatalogTitleID hash r' (ParseRelease r') \<longleftrightarrow> same_title r r'"
  using inj_eq[OF assms] title_key_same by (simp add: CatalogTitleID_def)

lemma title_identity_witness:
  "CatalogTitleID id (named ''a'') (ParseRelease (named ''a'')) = CatalogTitleID id (named ''A'') (ParseRelease (named ''A''))
   \<longleftrightarrow> same_title (named ''a'') (named ''A'')"
  by (rule title_identity) simp

end
