(* ===== verification/Catalog.thy ===== *)
theory Catalog
  imports ReleaseNames EvictionOrder
begin

text \<open>
  The catalog, \<open>internal/application/catalog.go\<close>: the grouping of sources into titles
  (\<open>groupCatalog\<close>) and the states of the library, from the downloads and the playback
  of a source up to an episode, a season and a title. A nil pointer is \<open>None\<close>, Go's maps are
  functions into lists or options, the sets used as maps to \<open>bool\<close> are lists without
  repetition.
\<close>

section \<open>Records of domain/catalog.go\<close>

record media_state =
  ms_DownloadState :: string
  ms_TransferState :: string
  ms_WatchState :: string
  ms_DownloadID :: string
  ms_Progress :: float64
  ms_PositionMS :: int64
  ms_DurationMS :: int64

record catalog_source =
  cs_Release :: torrent_release
  cs_Parsed :: parsed_release
  cs_FileIndex :: "int option"
  cs_FilePath :: string
  cs_FileSizeBytes :: int64
  cs_LibraryState :: media_state

record catalog_title =
  ct_ID :: string
  ct_Title :: string
  ct_OriginalTitle :: string
  ct_Kind :: string
  ct_Year :: int
  ct_IMDbID :: string
  ct_Overview :: string
  ct_PosterURL :: string
  ct_BackdropURL :: string
  ct_Categories :: "string list"
  ct_Resolutions :: "string list"
  ct_SourceCount :: int
  ct_SeasonCount :: int
  ct_EpisodeCount :: int
  ct_BestSeeders :: int
  ct_LargestSizeBytes :: int64
  ct_NewestUpload :: "gotime option"
  ct_Rating :: float64
  ct_RatingVotes :: int
  ct_RatingProvider :: string
  ct_Sources :: "catalog_source list"
  ct_LibraryState :: media_state

text \<open>The zero value of \<open>MediaState\<close>, and the state of a source nobody has touched.\<close>

definition zero_state :: media_state where
  "zero_state = \<lparr>ms_DownloadState = [], ms_TransferState = [], ms_WatchState = [], ms_DownloadID = [], ms_Progress = 0,
     ms_PositionMS = 0, ms_DurationMS = 0\<rparr>"

definition emptyMediaState :: media_state where
  "emptyMediaState = zero_state\<lparr>ms_DownloadState := ''none'', ms_TransferState := ''idle'', ms_WatchState := ''unwatched''\<rparr>"

section \<open>Grouping sources into titles\<close>

text \<open>One title under construction with its entries in the four maps of sets.\<close>

record title_group =
  tg_title :: catalog_title
  tg_categories :: "string list"
  tg_resolutions :: "string list"
  tg_seasons :: "int list"
  tg_episodes :: "string list"

definition setNonEmpty :: "string list \<Rightarrow> string \<Rightarrow> string list" where
  "setNonEmpty s v = (if v \<noteq> [] then List.insert v s else s)"

definition sortedKeys :: "string list \<Rightarrow> string list" where
  "sortedKeys s = sort (filter (\<lambda>k. k \<noteq> []) s)"

definition source_id :: "(string \<Rightarrow> string) \<Rightarrow> catalog_source \<Rightarrow> string" where
  "source_id hash x = CatalogTitleID hash (cs_Release x) (cs_Parsed x)"

definition new_group :: "string \<Rightarrow> catalog_source \<Rightarrow> title_group" where
  "new_group tid x =
     \<lparr>tg_title = \<lparr>ct_ID = tid, ct_Title = pa_Title (cs_Parsed x), ct_OriginalTitle = [], ct_Kind = pa_Kind (cs_Parsed x),
        ct_Year = pa_Year (cs_Parsed x), ct_IMDbID = rel_IMDbID (cs_Release x), ct_Overview = [], ct_PosterURL = [],
        ct_BackdropURL = [], ct_Categories = [], ct_Resolutions = [], ct_SourceCount = 0, ct_SeasonCount = 0,
        ct_EpisodeCount = 0, ct_BestSeeders = 0, ct_LargestSizeBytes = 0, ct_NewestUpload = None, ct_Rating = 0,
        ct_RatingVotes = 0, ct_RatingProvider = [], ct_Sources = [], ct_LibraryState = zero_state\<rparr>,
      tg_categories = [], tg_resolutions = [], tg_seasons = [], tg_episodes = []\<rparr>"

definition season_span :: "parsed_release \<Rightarrow> int list" where
  "season_span p = (if pa_SeasonStart p > 0 then [pa_SeasonStart p..max (pa_SeasonStart p) (pa_SeasonEnd p)] else [])"

definition episode_text :: "parsed_release \<Rightarrow> string" where
  "episode_text p = show_int (pa_SeasonStart p) @ '':'' @ show_int (pa_EpisodeStart p)"

definition later_upload :: "gotime option \<Rightarrow> gotime option \<Rightarrow> gotime option" where
  "later_upload newest upload = (case upload of
     None \<Rightarrow> newest
   | Some u \<Rightarrow> (case newest of None \<Rightarrow> Some u | Some n \<Rightarrow> if u > n then Some u else newest))"

text \<open>The body of the first loop, on the group of the source.\<close>

definition count_source :: "bool \<Rightarrow> catalog_source \<Rightarrow> title_group \<Rightarrow> title_group" where
  "count_source includeSources x g =
     (let r = cs_Release x; p = cs_Parsed x; t = tg_title g in
      g\<lparr>tg_title := t\<lparr>ct_SourceCount := ct_SourceCount t + 1,
           ct_LargestSizeBytes := (if rel_SizeBytes r > ct_LargestSizeBytes t then rel_SizeBytes r else ct_LargestSizeBytes t),
           ct_BestSeeders := (if rel_Seeders r > ct_BestSeeders t then rel_Seeders r else ct_BestSeeders t),
           ct_NewestUpload := later_upload (ct_NewestUpload t) (rel_UploadedAt r),
           ct_Sources := (if includeSources then ct_Sources t @ [x] else ct_Sources t)\<rparr>,
        tg_categories := List.insert (rel_Category r) (tg_categories g),
        tg_resolutions := setNonEmpty (tg_resolutions g) (pa_Resolution p),
        tg_seasons := fold List.insert (season_span p) (tg_seasons g),
        tg_episodes := (if pa_EpisodeStart p > 0 then List.insert (episode_text p) (tg_episodes g) else tg_episodes g)\<rparr>)"

definition group_source :: "(string \<Rightarrow> string) \<Rightarrow> bool \<Rightarrow> catalog_source
    \<Rightarrow> string list \<times> (string \<rightharpoonup> title_group) \<Rightarrow> string list \<times> (string \<rightharpoonup> title_group)" where
  "group_source hash includeSources x = (\<lambda>(order, groups).
     let tid = source_id hash x in
     case groups tid of
       None \<Rightarrow> (order @ [tid], groups(tid \<mapsto> count_source includeSources x (new_group tid x)))
     | Some g \<Rightarrow> (order, groups(tid \<mapsto> count_source includeSources x g)))"

definition finish_group :: "title_group \<Rightarrow> catalog_title" where
  "finish_group g = (tg_title g)\<lparr>ct_Categories := sortedKeys (tg_categories g), ct_Resolutions := sortedKeys (tg_resolutions g),
     ct_SeasonCount := int (length (tg_seasons g)), ct_EpisodeCount := int (length (tg_episodes g))\<rparr>"

definition groupCatalog :: "(string \<Rightarrow> string) \<Rightarrow> catalog_source list \<Rightarrow> bool \<Rightarrow> catalog_title list" where
  "groupCatalog hash items includeSources =
     (let (order, groups) = fold (group_source hash includeSources) items ([], Map.empty) in
      map (\<lambda>tid. finish_group (the (groups tid))) order)"

section \<open>The grouping against its specification\<close>

text \<open>
  What the catalog means by a title: the sources with one identity, the first of them
  giving the name, and over all of them the totals.
\<close>

definition title_of :: "bool \<Rightarrow> string \<Rightarrow> catalog_source list \<Rightarrow> catalog_title" where
  "title_of includeSources tid xs =
     (tg_title (new_group tid (hd xs)))\<lparr>
        ct_Categories := sorted_list_of_set ((rel_Category \<circ> cs_Release) ` set xs - {[]}),
        ct_Resolutions := sorted_list_of_set ((pa_Resolution \<circ> cs_Parsed) ` set xs - {[]}),
        ct_SourceCount := int (length xs),
        ct_SeasonCount := int (card (\<Union>x\<in>set xs. set (season_span (cs_Parsed x)))),
        ct_EpisodeCount := int (card {(pa_SeasonStart p, pa_EpisodeStart p) |p. p \<in> cs_Parsed ` set xs \<and> pa_EpisodeStart p > 0}),
        ct_BestSeeders := Max (insert 0 ((rel_Seeders \<circ> cs_Release) ` set xs)),
        ct_LargestSizeBytes := Max (insert 0 ((rel_SizeBytes \<circ> cs_Release) ` set xs)),
        ct_NewestUpload := (let uploads = {u. \<exists>x\<in>set xs. rel_UploadedAt (cs_Release x) = Some u} in
           if uploads = {} then None else Some (Max uploads)),
        ct_Sources := (if includeSources then xs else [])\<rparr>"

text \<open>The ids in the order of their first source.\<close>

definition first_ids :: "(string \<Rightarrow> string) \<Rightarrow> catalog_source list \<Rightarrow> string list" where
  "first_ids hash items = rev (remdups (rev (map (source_id hash) items)))"

definition sources_of :: "(string \<Rightarrow> string) \<Rightarrow> string \<Rightarrow> catalog_source list \<Rightarrow> catalog_source list" where
  "sources_of hash tid items = filter (\<lambda>x. source_id hash x = tid) items"

lemma first_ids_snoc: "first_ids hash (xs @ [x]) = (if source_id hash x \<in> set (map (source_id hash) xs) then first_ids hash xs
    else first_ids hash xs @ [source_id hash x])"
  by (simp add: first_ids_def)

lemma set_first_ids: "set (first_ids hash xs) = source_id hash ` set xs"
  by (simp add: first_ids_def)

lemma sources_of_nil: "sources_of hash tid xs = [] \<longleftrightarrow> tid \<notin> source_id hash ` set xs"
  by (auto simp: sources_of_def filter_empty_conv)

lemma sources_of_snoc: "sources_of hash tid (xs @ [x]) = sources_of hash tid xs @ (if source_id hash x = tid then [x] else [])"
  by (simp add: sources_of_def)

definition group_of :: "bool \<Rightarrow> string \<Rightarrow> catalog_source list \<Rightarrow> title_group" where
  "group_of inc tid xs = fold (count_source inc) xs (new_group tid (hd xs))"

lemma fold_groups:
  "fold (group_source hash inc) items ([], Map.empty) =
     (first_ids hash items, \<lambda>tid. if sources_of hash tid items = [] then None else Some (group_of inc tid (sources_of hash tid items)))"
proof (induction items rule: rev_induct)
  case Nil
  then show ?case by (simp add: first_ids_def sources_of_def)
next
  case (snoc x xs)
  have hd: "hd (sources_of hash tid xs @ [x]) = hd (sources_of hash tid xs)" if "sources_of hash tid xs \<noteq> []" for tid
    using that by simp
  have "fold (group_source hash inc) (xs @ [x]) ([], Map.empty) = group_source hash inc x (first_ids hash xs,
      \<lambda>tid. if sources_of hash tid xs = [] then None else Some (group_of inc tid (sources_of hash tid xs)))"
    by (simp only: fold_append fold_simps o_apply snoc)
  also have "\<dots> = (first_ids hash (xs @ [x]), \<lambda>tid. if sources_of hash tid (xs @ [x]) = [] then None
      else Some (group_of inc tid (sources_of hash tid (xs @ [x]))))"
    by (auto simp: group_source_def first_ids_snoc sources_of_snoc group_of_def Let_def fun_eq_iff hd simp flip: sources_of_nil)
  finally show ?case .
qed

lemma episode_text_inj: "episode_text p = episode_text q \<longleftrightarrow> (pa_SeasonStart p, pa_EpisodeStart p) = (pa_SeasonStart q, pa_EpisodeStart q)"
proof -
  have c: "CHR '':'' \<notin> set (show_int x)" for x using show_nat_no_letter by (simp add: show_int_def)
  show ?thesis unfolding episode_text_def
  proof
    assume "show_int (pa_SeasonStart p) @ '':'' @ show_int (pa_EpisodeStart p) = show_int (pa_SeasonStart q) @ '':'' @ show_int (pa_EpisodeStart q)"
    then have "show_int (pa_SeasonStart p) @ CHR '':'' # show_int (pa_EpisodeStart p)
        = show_int (pa_SeasonStart q) @ CHR '':'' # show_int (pa_EpisodeStart q)" by simp
    from sep_inj[OF this c c] show "(pa_SeasonStart p, pa_EpisodeStart p) = (pa_SeasonStart q, pa_EpisodeStart q)"
      by (simp only: show_int_inj)
  qed simp
qed

text \<open>What the fold keeps of the sources read so far, one accumulator at a time.\<close>

lemma group_snoc: "xs \<noteq> [] \<Longrightarrow> group_of inc tid (xs @ [x]) = count_source inc x (group_of inc tid xs)"
  by (simp add: group_of_def)

lemma group_one: "group_of inc tid [x] = count_source inc x (new_group tid x)"
  by (simp add: group_of_def)

lemmas group_simps = group_snoc group_one count_source_def new_group_def Let_def

lemma insert_distinct: "distinct s \<Longrightarrow> distinct (fold List.insert ys s)" "set (fold List.insert ys s) = set s \<union> set ys"
  by (induction ys arbitrary: s) auto

lemma group_categories:
  assumes "xs \<noteq> []"
  shows "distinct (tg_categories (group_of inc tid xs)) \<and> set (tg_categories (group_of inc tid xs)) = (rel_Category \<circ> cs_Release) ` set xs"
  using assms by (induction xs rule: rev_nonempty_induct) (auto simp: group_simps)

lemma group_resolutions:
  assumes "xs \<noteq> []"
  shows "distinct (tg_resolutions (group_of inc tid xs))
    \<and> set (tg_resolutions (group_of inc tid xs)) = (pa_Resolution \<circ> cs_Parsed) ` set xs - {[]}"
  using assms by (induction xs rule: rev_nonempty_induct) (auto simp: group_simps setNonEmpty_def)

lemma group_seasons:
  assumes "xs \<noteq> []"
  shows "distinct (tg_seasons (group_of inc tid xs)) \<and> set (tg_seasons (group_of inc tid xs)) = (\<Union>x\<in>set xs. set (season_span (cs_Parsed x)))"
  using assms by (induction xs rule: rev_nonempty_induct) (auto simp: group_simps insert_distinct)

lemma group_episodes:
  assumes "xs \<noteq> []"
  shows "distinct (tg_episodes (group_of inc tid xs))
    \<and> set (tg_episodes (group_of inc tid xs)) = episode_text ` {p \<in> cs_Parsed ` set xs. pa_EpisodeStart p > 0}"
  using assms by (induction xs rule: rev_nonempty_induct) (auto simp: group_simps)

lemma max_gt: "max a b = (if a > b then a else (b::int))"
  by (auto simp: max_def)

lemma Max_above:
  assumes "finite S" shows "Max (insert 0 (insert a S)) = (if a > Max (insert 0 S) then a else Max (insert (0::int) S))"
proof -
  have "Max (insert 0 (insert a S)) = max a (Max (insert 0 S))"
    using assms by (subst insert_commute) (intro Max_insert, auto)
  also have "\<dots> = (if a > Max (insert 0 S) then a else Max (insert 0 S))" by (rule max_gt)
  finally show ?thesis .
qed

lemma group_maxima:
  assumes "xs \<noteq> []"
  shows "ct_LargestSizeBytes (tg_title (group_of inc tid xs)) = Max (insert 0 ((rel_SizeBytes \<circ> cs_Release) ` set xs))
    \<and> ct_BestSeeders (tg_title (group_of inc tid xs)) = Max (insert 0 ((rel_Seeders \<circ> cs_Release) ` set xs))"
  using assms
proof (induction xs rule: rev_nonempty_induct)
  case (single x)
  then show ?case by (auto simp: group_simps max_def)
next
  case (snoc x xs)
  have e: "insert (0::int) ((f \<circ> cs_Release) ` set (xs @ [x])) = insert 0 (insert (f (cs_Release x)) ((f \<circ> cs_Release) ` set xs))" for f
    by auto
  show ?case using snoc by (simp only: e Max_above finite_imageI finite_set) (simp add: group_simps)
qed

definition newest_of :: "gotime set \<Rightarrow> gotime option" where
  "newest_of uploads = (if uploads = {} then None else Some (Max uploads))"

lemma later_newest: "finite S \<Longrightarrow> later_upload (newest_of S) (Some u) = newest_of (insert u S)"
  by (cases "S = {}") (simp_all add: later_upload_def newest_of_def max_gt)

definition uploads_of :: "catalog_source list \<Rightarrow> gotime set" where
  "uploads_of xs = {u. \<exists>x\<in>set xs. rel_UploadedAt (cs_Release x) = Some u}"

lemma uploads_of_snoc: "uploads_of (xs @ [x]) = set_option (rel_UploadedAt (cs_Release x)) \<union> uploads_of xs"
  by (auto simp: uploads_of_def)

lemma finite_uploads: "finite (uploads_of xs)"
  by (induction xs rule: rev_induct) (simp_all add: uploads_of_snoc, simp add: uploads_of_def)

lemma group_newest:
  assumes "xs \<noteq> []" shows "ct_NewestUpload (tg_title (group_of inc tid xs)) = newest_of (uploads_of xs)"
  using assms
proof (induction xs rule: rev_nonempty_induct)
  case (single x)
  then show ?case
    by (cases "rel_UploadedAt (cs_Release x)") (simp_all add: group_simps later_upload_def newest_of_def uploads_of_def)
next
  case (snoc x xs)
  then show ?case
  proof (cases "rel_UploadedAt (cs_Release x)")
    case (Some u)
    with snoc show ?thesis using later_newest[OF finite_uploads] by (simp add: group_simps uploads_of_snoc)
  qed (simp add: group_simps uploads_of_snoc later_upload_def)
qed

lemma group_rest:
  assumes "xs \<noteq> []"
  shows "ct_SourceCount (tg_title (group_of inc tid xs)) = int (length xs)"
    and "ct_Sources (tg_title (group_of inc tid xs)) = (if inc then xs else [])"
    and "ct_ID (tg_title (group_of inc tid xs)) = ct_ID (tg_title (new_group tid (hd xs)))
      \<and> ct_Title (tg_title (group_of inc tid xs)) = ct_Title (tg_title (new_group tid (hd xs)))
      \<and> ct_OriginalTitle (tg_title (group_of inc tid xs)) = ct_OriginalTitle (tg_title (new_group tid (hd xs)))
      \<and> ct_Kind (tg_title (group_of inc tid xs)) = ct_Kind (tg_title (new_group tid (hd xs)))
      \<and> ct_Year (tg_title (group_of inc tid xs)) = ct_Year (tg_title (new_group tid (hd xs)))
      \<and> ct_IMDbID (tg_title (group_of inc tid xs)) = ct_IMDbID (tg_title (new_group tid (hd xs)))
      \<and> ct_Overview (tg_title (group_of inc tid xs)) = ct_Overview (tg_title (new_group tid (hd xs)))
      \<and> ct_PosterURL (tg_title (group_of inc tid xs)) = ct_PosterURL (tg_title (new_group tid (hd xs)))
      \<and> ct_BackdropURL (tg_title (group_of inc tid xs)) = ct_BackdropURL (tg_title (new_group tid (hd xs)))
      \<and> ct_Rating (tg_title (group_of inc tid xs)) = ct_Rating (tg_title (new_group tid (hd xs)))
      \<and> ct_RatingVotes (tg_title (group_of inc tid xs)) = ct_RatingVotes (tg_title (new_group tid (hd xs)))
      \<and> ct_RatingProvider (tg_title (group_of inc tid xs)) = ct_RatingProvider (tg_title (new_group tid (hd xs)))
      \<and> ct_LibraryState (tg_title (group_of inc tid xs)) = ct_LibraryState (tg_title (new_group tid (hd xs)))"
  using assms by (induction xs rule: rev_nonempty_induct) (auto simp: group_simps)

lemma sortedKeys_set: "distinct s \<Longrightarrow> sortedKeys s = sorted_list_of_set (set s - {[]})"
  using sorted_list_of_set_sort_remdups[of "filter (\<lambda>k. k \<noteq> []) s"]
  by (simp add: sortedKeys_def set_diff_eq distinct_remdups_id)

lemma title_eq:
  assumes "ct_ID t = ct_ID n
      \<and> ct_Title t = ct_Title n
      \<and> ct_OriginalTitle t = ct_OriginalTitle n
      \<and> ct_Kind t = ct_Kind n
      \<and> ct_Year t = ct_Year n
      \<and> ct_IMDbID t = ct_IMDbID n
      \<and> ct_Overview t = ct_Overview n
      \<and> ct_PosterURL t = ct_PosterURL n
      \<and> ct_BackdropURL t = ct_BackdropURL n
      \<and> ct_Rating t = ct_Rating n
      \<and> ct_RatingVotes t = ct_RatingVotes n
      \<and> ct_RatingProvider t = ct_RatingProvider n
      \<and> ct_LibraryState t = ct_LibraryState n"
    "ct_SourceCount t = c" "ct_Sources t = so" "ct_LargestSizeBytes t = l \<and> ct_BestSeeders t = b" "ct_NewestUpload t = u"
  shows "(t :: catalog_title)\<lparr>ct_Categories := ca, ct_Resolutions := r, ct_SeasonCount := se, ct_EpisodeCount := e\<rparr>
    = n\<lparr>ct_Categories := ca, ct_Resolutions := r, ct_SourceCount := c, ct_SeasonCount := se, ct_EpisodeCount := e,
        ct_BestSeeders := b, ct_LargestSizeBytes := l, ct_NewestUpload := u, ct_Sources := so\<rparr>"
  using assms by (cases t; cases n) simp

lemma finish_group_of:
  assumes "xs \<noteq> []" shows "finish_group (group_of inc tid xs) = title_of inc tid xs"
proof -
  let ?g = "group_of inc tid xs"
  have c: "sortedKeys (tg_categories ?g) = sorted_list_of_set ((rel_Category \<circ> cs_Release) ` set xs - {[]})"
    using group_categories[OF assms, of inc tid] by (simp only: sortedKeys_set)
  have r: "sortedKeys (tg_resolutions ?g) = sorted_list_of_set ((pa_Resolution \<circ> cs_Parsed) ` set xs - {[]})"
    using group_resolutions[OF assms, of inc tid] by (simp only: sortedKeys_set) simp
  have s: "length (tg_seasons ?g) = card (\<Union>x\<in>set xs. set (season_span (cs_Parsed x)))"
    using group_seasons[OF assms, of inc tid] by (metis distinct_card)
  have "inj_on (\<lambda>(s, e). show_int s @ '':'' @ show_int e) UNIV"
    using episode_text_inj[of "no_release\<lparr>pa_SeasonStart := s, pa_EpisodeStart := e\<rparr>" "no_release\<lparr>pa_SeasonStart := s', pa_EpisodeStart := e'\<rparr>" for s e s' e']
    by (auto simp: inj_on_def episode_text_def)
  then have i: "card ((\<lambda>(s, e). show_int s @ '':'' @ show_int e) ` S) = card S" for S
    using card_image inj_on_subset by blast
  let ?E = "{(pa_SeasonStart p, pa_EpisodeStart p) |p. p \<in> cs_Parsed ` set xs \<and> pa_EpisodeStart p > 0}"
  have t: "episode_text ` {p \<in> cs_Parsed ` set xs. pa_EpisodeStart p > 0} = (\<lambda>(s, e). show_int s @ '':'' @ show_int e) ` ?E"
    by (force simp: episode_text_def)
  have "length (tg_episodes ?g) = card (set (tg_episodes ?g))"
    using group_episodes[OF assms, of inc tid] distinct_card by fastforce
  also have "\<dots> = card ((\<lambda>(s, e). show_int s @ '':'' @ show_int e) ` ?E)"
    using group_episodes[OF assms, of inc tid] t by (simp only:)
  also have "\<dots> = card ?E" by (rule i)
  finally have e: "length (tg_episodes ?g) = card ?E" .
  show ?thesis
    unfolding finish_group_def title_of_def c r s e
    by (rule title_eq[OF group_rest(3,1,2)[OF assms] group_maxima[OF assms]])
      (use group_newest[OF assms, of inc tid] in \<open>simp only: newest_of_def uploads_of_def Let_def\<close>)
qed

lemma groupCatalog_grouped:
  "groupCatalog hash items inc = map (\<lambda>tid. title_of inc tid (sources_of hash tid items)) (first_ids hash items)"
proof -
  have "finish_group (group_of inc tid (sources_of hash tid items)) = title_of inc tid (sources_of hash tid items)"
    if "sources_of hash tid items \<noteq> []" for tid using finish_group_of[OF that] .
  then show ?thesis by (auto simp: groupCatalog_def fold_groups set_first_ids sources_of_nil)
qed

text \<open>
  Property C26. (\<open>groupCatalog\<close>) The incremental grouping is the grouping by identity: one title for
  each identity, in the order of its first source, with the totals over exactly its sources.
\<close>

theorem groupCatalog_groups:
  "groupCatalog hash items inc = map (\<lambda>tid. title_of inc tid (sources_of hash tid items)) (first_ids hash items)"
  by (rule groupCatalog_grouped)

end
