(* ===== verification/LibraryStates.thy ===== *)
theory LibraryStates
  imports Catalog
begin

text \<open>
  Library states, \<open>internal/application/catalog.go\<close>: what the downloads and the playback of the
  household say about a source (\<open>sourceState\<close>), and how the states of sources add up to those
  of an episode, a season, a season pack and a title.
\<close>

section \<open>The index\<close>

record catalog_index =
  ix_downloads :: "string \<Rightarrow> download list"
  ix_source :: "string \<rightharpoonup> playback_state"
  ix_release :: "string \<Rightarrow> playback_state list"

text \<open>\<open>None\<close> where a query of the database fails.\<close>

definition catalogState :: "download list option \<Rightarrow> playback_state list option \<Rightarrow> catalog_index option" where
  "catalogState downloads playback =
     (case downloads of None \<Rightarrow> None | Some ds \<Rightarrow>
      case playback of None \<Rightarrow> None | Some ps \<Rightarrow>
      Some \<lparr>ix_downloads = (\<lambda>r. filter (\<lambda>d. d_ReleaseID d = r) ds),
        ix_source = fold (\<lambda>p m. m(pb_SourceID p \<mapsto> p)) ps Map.empty,
        ix_release = (\<lambda>r. filter (\<lambda>p. pb_ReleaseID p = r) ps)\<rparr>)"

section \<open>One source\<close>

text \<open>\<open>time.Unix(0, 0)\<close> on the scale of \<open>gotime\<close>.\<close>

definition unix_epoch :: gotime where "unix_epoch = 62135596800 * 10 ^ 9"

definition applyPlaybackState :: "playback_state \<Rightarrow> media_state \<Rightarrow> media_state" where
  "applyPlaybackState p s =
     (let s1 = (if pb_Watched p then s\<lparr>ms_WatchState := ''watched''\<rparr>
                else if pb_PositionMS p > 0 \<and> ms_WatchState s \<noteq> ''watched'' then s\<lparr>ms_WatchState := ''inProgress''\<rparr> else s) in
      if pb_UpdatedAt p > unix_epoch \<and> (ms_PositionMS s1 = 0 \<or> pb_Watched p)
      then s1\<lparr>ms_PositionMS := pb_PositionMS p, ms_DurationMS := pb_DurationMS p\<rparr> else s1)"

definition eligible :: "catalog_source \<Rightarrow> download \<Rightarrow> bool" where
  "eligible source d = (case cs_FileIndex source of
     Some i \<Rightarrow> d_FileIndex d = i | None \<Rightarrow> \<not> rel_FileCount (cs_Release source) > 1)"

definition prefer_download :: "download \<Rightarrow> download option \<Rightarrow> download option" where
  "prefer_download d selected = (case selected of
     None \<Rightarrow> Some d
   | Some s \<Rightarrow> if d_Progress d > d_Progress s \<or> d_Progress d = d_Progress s \<and> d_CreatedAt d > d_CreatedAt s then Some d
       else selected)"

definition selected_download :: "catalog_source \<Rightarrow> download list \<Rightarrow> download option" where
  "selected_download source ds = fold (\<lambda>d sel. if eligible source d then prefer_download d sel else sel) ds None"

definition download_state :: "download \<Rightarrow> media_state \<Rightarrow> media_state" where
  "download_state d s =
     (let s1 = s\<lparr>ms_DownloadID := d_ID d, ms_Progress := d_Progress d\<rparr>; name = to_lower (d_State d);
          with = (\<lambda>ds ts. s1\<lparr>ms_DownloadState := ds, ms_TransferState := ts\<rparr>) in
      if d_Progress d \<ge> 999 / 1000 then with ''downloaded'' ''complete''
      else if d_Error d \<noteq> [] then with ''error'' ''error''
      else if contains_str name ''paused'' \<or> contains_str name ''stopped'' then with ''downloading'' ''paused''
      else if contains_str name ''queued'' then with ''queued'' ''queued''
      else with ''downloading'' ''active'')"

fun release_playback :: "catalog_source \<Rightarrow> playback_state list \<Rightarrow> media_state \<Rightarrow> media_state" where
  "release_playback source [] s = s"
| "release_playback source (p # ps) s =
     (if (case cs_FileIndex source of Some i \<Rightarrow> pb_FileIndex p \<noteq> i | None \<Rightarrow> False) then release_playback source ps s
      else let s1 = applyPlaybackState p s in
        if ms_WatchState s1 = ''watched'' then s1 else release_playback source ps s1)"

definition sourceState :: "catalog_index \<Rightarrow> catalog_source \<Rightarrow> media_state" where
  "sourceState ix source =
     (let s1 = (case selected_download source (ix_downloads ix (rel_ID (cs_Release source))) of
          None \<Rightarrow> emptyMediaState
        | Some d \<Rightarrow> (case ix_source ix (d_ID d) of
            Some p \<Rightarrow> applyPlaybackState p (download_state d emptyMediaState)
          | None \<Rightarrow> download_state d emptyMediaState)) in
      if ms_WatchState s1 = ''unwatched'' then release_playback source (ix_release ix (rel_ID (cs_Release source))) s1 else s1)"

section \<open>Sums of states\<close>

definition priority :: "string \<Rightarrow> nat" where
  "priority t = (if t = ''complete'' then 1 else if t = ''paused'' then 2 else if t = ''queued'' then 3
     else if t = ''active'' then 4 else if t = ''error'' then 5 else 0)"

definition mergeTransferState :: "string \<Rightarrow> string \<Rightarrow> string" where
  "mergeTransferState current nxt = (if priority nxt > priority current then nxt else current)"

definition merge_progress :: "media_state \<Rightarrow> media_state \<Rightarrow> media_state" where
  "merge_progress s result = (let r1 = result\<lparr>ms_TransferState := mergeTransferState (ms_TransferState result) (ms_TransferState s)\<rparr> in
     if ms_Progress s > ms_Progress r1 then r1\<lparr>ms_Progress := ms_Progress s, ms_DownloadID := ms_DownloadID s\<rparr> else r1)"

definition count_of :: "('a \<Rightarrow> bool) \<Rightarrow> 'a list \<Rightarrow> nat" where
  "count_of P xs = length (filter P xs)"

definition aggregateMediaStates :: "media_state list \<Rightarrow> bool \<Rightarrow> media_state" where
  "aggregateMediaStates states requireAll =
     (if states = [] then emptyMediaState
      else let result = fold merge_progress states emptyMediaState;
          downloaded = count_of (\<lambda>s. ms_DownloadState s = ''downloaded'') states;
          managed = count_of (\<lambda>s. ms_DownloadState s \<noteq> ''none'') states;
          watched = count_of (\<lambda>s. ms_WatchState s = ''watched'') states;
          started = count_of (\<lambda>s. ms_WatchState s \<noteq> ''unwatched'') states in
        if requireAll then
          let r1 = (if downloaded = length states then result\<lparr>ms_DownloadState := ''downloaded''\<rparr>
               else if managed > 0 then result\<lparr>ms_DownloadState := ''partial''\<rparr> else result) in
          (if watched = length states then r1\<lparr>ms_WatchState := ''watched''\<rparr>
           else if started > 0 then r1\<lparr>ms_WatchState := ''partial''\<rparr> else r1)
        else
          let r1 = (if downloaded > 0 then result\<lparr>ms_DownloadState := ''downloaded''\<rparr>
               else if managed > 0 then result\<lparr>ms_DownloadState := ''downloading''\<rparr> else result) in
          (if watched > 0 then r1\<lparr>ms_WatchState := ''watched''\<rparr>
           else if started > 0 then r1\<lparr>ms_WatchState := ''inProgress''\<rparr> else r1))"

definition aggregateSourceState :: "catalog_source list \<Rightarrow> media_state" where
  "aggregateSourceState sources = aggregateMediaStates (map cs_LibraryState sources) False"

text \<open>The state of a whole title in a list of titles.\<close>

definition partial_downloads :: "catalog_index \<Rightarrow> catalog_source list \<Rightarrow> media_state \<Rightarrow> media_state" where
  "partial_downloads ix = fold (\<lambda>source. fold (\<lambda>d r. r\<lparr>ms_DownloadState := ''partial'', ms_DownloadID := d_ID d,
      ms_Progress := max (ms_Progress r) (d_Progress d)\<rparr>) (ix_downloads ix (rel_ID (cs_Release source))))"

definition with_state :: "catalog_index \<Rightarrow> catalog_source \<Rightarrow> catalog_source" where
  "with_state ix source = source\<lparr>cs_LibraryState := sourceState ix source\<rparr>"

definition sourcesState :: "catalog_index \<Rightarrow> catalog_source list \<Rightarrow> media_state" where
  "sourcesState ix sources =
     (let result = aggregateSourceState (map (with_state ix) sources) in
      if ms_DownloadState result = ''none'' then partial_downloads ix sources result else result)"

section \<open>Episodes and seasons\<close>

record catalog_episode =
  ce_Number :: int
  ce_Title :: string
  ce_Season :: int
  ce_SourceCount :: int
  ce_Sources :: "catalog_source list"
  ce_LibraryState :: media_state

record catalog_season =
  se_Number :: int
  se_Title :: string
  se_EpisodeCount :: int
  se_Episodes :: "catalog_episode list"
  se_PackSources :: "catalog_source list"
  se_LibraryState :: media_state

definition aggregateEpisodeState :: "catalog_episode list \<Rightarrow> media_state" where
  "aggregateEpisodeState episodes = aggregateMediaStates (map ce_LibraryState episodes) True"

definition aggregateSeasonState :: "catalog_season list \<Rightarrow> media_state" where
  "aggregateSeasonState seasons = aggregateMediaStates (map se_LibraryState seasons) True"

text \<open>The files of one release among the episodes, with their weights.\<close>

definition pack_members :: "string \<Rightarrow> catalog_episode list \<Rightarrow> (media_state \<times> int64) list" where
  "pack_members releaseID episodes =
     map (\<lambda>source. (cs_LibraryState source, if cs_FileSizeBytes source \<le> 0 then 1 else cs_FileSizeBytes source))
       (filter (\<lambda>source. rel_ID (cs_Release source) = releaseID) (concat (map ce_Sources episodes)))"

definition pack_download :: "media_state \<times> int64 \<Rightarrow> media_state \<Rightarrow> media_state" where
  "pack_download m result = (let item = fst m in
     if ms_DownloadID item \<noteq> [] \<and> (ms_DownloadID result = [] \<or> ms_Progress item \<ge> ms_Progress result)
     then result\<lparr>ms_DownloadID := ms_DownloadID item\<rparr> else result)"

definition packSourceState :: "string \<Rightarrow> catalog_episode list \<Rightarrow> media_state" where
  "packSourceState releaseID episodes =
     (let members = pack_members releaseID episodes; states = map fst members in
      if states = [] then emptyMediaState
      else let result = fold pack_download members (aggregateMediaStates states True);
          counted = (\<lambda>names. count_of (\<lambda>s. ms_DownloadState s \<in> set names) states);
          totalWeight = i64 (sum_list (map snd members));
          weighted = sum_list (map (\<lambda>(s, w). ms_Progress s * of_int w) members);
          r1 = (if totalWeight > 0 then result\<lparr>ms_Progress := weighted / of_int totalWeight\<rparr> else result) in
        r1\<lparr>ms_DownloadState :=
          (if counted [''downloaded''] = length states then ''downloaded''
           else if counted [''error''] > 0 then ''error''
           else if counted [''downloading''] > 0 then ''downloading''
           else if counted [''queued''] > 0 then ''queued''
           else if counted [''downloaded'', ''error'', ''downloading'', ''queued'', ''partial''] > 0 then ''partial''
           else ''none'')\<rparr>)"

section \<open>What a sum of states says\<close>

lemma count_of_all: "count_of P xs = length xs \<longleftrightarrow> (\<forall>x\<in>set xs. P x)"
proof -
  have "filter P xs = xs \<longleftrightarrow> length (filter P xs) = length xs"
    by (metis filter_id_conv length_filter_less nat_less_le)
  then show ?thesis by (simp add: count_of_def filter_id_conv)
qed

lemma count_of_some: "0 < count_of P xs \<longleftrightarrow> (\<exists>x\<in>set xs. P x)"
  by (auto simp: count_of_def filter_empty_conv)

lemma merge_progress_rest: "ms_DownloadState (fold merge_progress xs r) = ms_DownloadState r"
  "ms_WatchState (fold merge_progress xs r) = ms_WatchState r"
  by (induction xs arbitrary: r) (auto simp: merge_progress_def Let_def)

lemma empty_state [simp]: "ms_DownloadState emptyMediaState = ''none''" "ms_WatchState emptyMediaState = ''unwatched''"
  "ms_TransferState emptyMediaState = ''idle''" "ms_Progress emptyMediaState = 0" "ms_DownloadID emptyMediaState = []"
  by (simp_all add: emptyMediaState_def zero_state_def)

lemmas agg_simps = aggregateMediaStates_def count_of_all count_of_some merge_progress_rest Let_def

lemma aggregate_all_download:
  "ms_DownloadState (aggregateMediaStates xs True) =
     (if xs \<noteq> [] \<and> (\<forall>s\<in>set xs. ms_DownloadState s = ''downloaded'') then ''downloaded''
      else if \<exists>s\<in>set xs. ms_DownloadState s \<noteq> ''none'' then ''partial'' else ''none'')"
  by (simp add: agg_simps)

lemma aggregate_all_watch:
  "ms_WatchState (aggregateMediaStates xs True) =
     (if xs \<noteq> [] \<and> (\<forall>s\<in>set xs. ms_WatchState s = ''watched'') then ''watched''
      else if \<exists>s\<in>set xs. ms_WatchState s \<noteq> ''unwatched'' then ''partial'' else ''unwatched'')"
  by (simp add: agg_simps)

lemma aggregate_any_download:
  "ms_DownloadState (aggregateMediaStates xs False) =
     (if \<exists>s\<in>set xs. ms_DownloadState s = ''downloaded'' then ''downloaded''
      else if \<exists>s\<in>set xs. ms_DownloadState s \<noteq> ''none'' then ''downloading'' else ''none'')"
  by (auto simp: agg_simps)

lemma aggregate_any_watch:
  "ms_WatchState (aggregateMediaStates xs False) =
     (if \<exists>s\<in>set xs. ms_WatchState s = ''watched'' then ''watched''
      else if \<exists>s\<in>set xs. ms_WatchState s \<noteq> ''unwatched'' then ''inProgress'' else ''unwatched'')"
  by (auto simp: agg_simps)

text \<open>The transfer state is the most urgent one.\<close>

lemma merge_priority: "priority (mergeTransferState a b) = max (priority a) (priority b)"
  by (auto simp: mergeTransferState_def)

lemma fold_priority: "priority (ms_TransferState (fold merge_progress xs r)) = fold (\<lambda>s. max (priority (ms_TransferState s))) xs (priority (ms_TransferState r))"
  by (induction xs arbitrary: r) (auto simp: merge_progress_def Let_def merge_priority max.commute)

lemma fold_max: "fold (\<lambda>x. max (f x)) xs a = Max (insert (a::'b::linorder) (f ` set xs))"
proof (induction xs rule: rev_induct)
  case (snoc x xs)
  have "Max (insert a (f ` set (xs @ [x]))) = Max (insert (f x) (insert a (f ` set xs)))" by (rule arg_cong[where f = Max]) auto
  with snoc show ?case by simp
qed simp

lemma aggregate_transfer:
  "priority (ms_TransferState (aggregateMediaStates xs b)) = Max (insert 0 ((priority \<circ> ms_TransferState) ` set xs))"
proof -
  have "ms_TransferState (aggregateMediaStates xs b) = ms_TransferState (fold merge_progress xs emptyMediaState)"
    by (simp add: aggregateMediaStates_def Let_def)
  moreover have "priority (ms_TransferState emptyMediaState) = 0" by (simp add: priority_def)
  ultimately show ?thesis
    by (simp only: fold_priority fold_max image_comp[symmetric] o_def)
qed

lemma aggregate_progress: "ms_Progress (aggregateMediaStates xs b) = Max (insert 0 (ms_Progress ` set xs))"
proof -
  have "ms_Progress (fold merge_progress xs r) = fold (\<lambda>s. max (ms_Progress s)) xs (ms_Progress r)" for r
    by (induction xs arbitrary: r) (auto simp: merge_progress_def Let_def max_def)
  moreover have "ms_Progress (aggregateMediaStates xs b) = ms_Progress (fold merge_progress xs emptyMediaState)"
    by (simp add: aggregateMediaStates_def Let_def)
  ultimately show ?thesis by (simp only: fold_max empty_state)
qed

end
