(* ===== verification/EpisodeFiles.thy ===== *)
theory EpisodeFiles
  imports Catalog
begin

text \<open>
  The files of a season pack as sources, \<open>episodeSource\<close> of \<open>application/torrentmeta.go\<close>, and what
  the preparation of a season in \<open>application/service.go\<close> asks of it.
\<close>

text \<open>
  \<open>episodeSource\<close>. The Go map from the values of the pack to the fields they fill keeps one field
  for equal values, the last one written.
\<close>

definition inherit :: "parsed_release \<Rightarrow> nat \<Rightarrow> string \<Rightarrow> string" where
  "inherit base i own =
     (let values = [pa_Resolution base, pa_Quality base, pa_VideoCodec base, pa_Audio base, pa_HDR base] in
      if own = [] \<and> values ! i \<notin> set (drop (Suc i) values) then values ! i else own)"

definition episodeSource :: "catalog_source \<Rightarrow> torrent_file \<Rightarrow> catalog_source option" where
  "episodeSource base file =
     (let release = (cs_Release base)\<lparr>rel_Name := tf_Path file, rel_SizeBytes := tf_SizeBytes file\<rparr>;
          p = ParseRelease release in
      if pa_EpisodeStart p \<le> 0 then None
      else Some \<lparr>cs_Release = cs_Release base,
          cs_Parsed = p\<lparr>pa_Resolution := inherit (cs_Parsed base) 0 (pa_Resolution p),
            pa_Quality := inherit (cs_Parsed base) 1 (pa_Quality p),
            pa_VideoCodec := inherit (cs_Parsed base) 2 (pa_VideoCodec p),
            pa_Audio := inherit (cs_Parsed base) 3 (pa_Audio p),
            pa_HDR := inherit (cs_Parsed base) 4 (pa_HDR p)\<rparr>,
          cs_FileIndex = Some (tf_Index file), cs_FilePath = tf_Path file, cs_FileSizeBytes = tf_SizeBytes file,
          cs_LibraryState = zero_state\<rparr>)"

section \<open>Seasons of releases and files\<close>

text \<open>The seasons of a release that is a series, and the season a file of it names.\<close>

definition series_span :: "torrent_release \<Rightarrow> (int \<times> int) option" where
  "series_span release = (let p = ParseRelease release in
     if pa_Kind p = MediaSeries then Some (pa_SeasonStart p, pa_SeasonEnd p) else None)"

definition release_source :: "torrent_release \<Rightarrow> catalog_source" where
  "release_source release = \<lparr>cs_Release = release, cs_Parsed = ParseRelease release, cs_FileIndex = None, cs_FilePath = [],
     cs_FileSizeBytes = 0, cs_LibraryState = zero_state\<rparr>"

definition file_season :: "torrent_release \<Rightarrow> torrent_file \<Rightarrow> int option" where
  "file_season release f = map_option (\<lambda>s. pa_SeasonStart (cs_Parsed s)) (episodeSource (release_source release) f)"

end
