(* ===== verification/TitleDetail.thy ===== *)
theory TitleDetail
  imports LibraryStates EpisodeFiles Paths "HOL-Library.AList"
begin

text \<open>
  Titles and their details, \<open>internal/application/catalog.go\<close>: a page of titles, the detail of
  one title with its seasons, episodes and season packs, and the manifests it reads. Answers of the database,
  the engine and the metadata provider are the record \<open>catalog_env\<close>; what the service
  changes is \<open>catalog_world\<close>: the stored manifests and the titles whose metadata it requests.
\<close>

section \<open>The environment\<close>

record catalog_metadata =
  md_TitleID :: string
  md_Provider :: string
  md_ProviderID :: string
  md_Title :: string
  md_OriginalTitle :: string
  md_Overview :: string
  md_PosterPath :: string
  md_BackdropPath :: string
  md_Language :: string
  md_Rating :: float64
  md_RatingVotes :: int
  md_RatingProvider :: string
  md_FetchedAt :: gotime
  md_ExpiresAt :: gotime
  md_LastError :: string

datatype catalog_error = NoRows | QueryFailed | TitleNotFound

record catalog_env =
  cv_hash :: "string \<Rightarrow> string"
  cv_prefix :: string
  cv_engine :: bool
  cv_files :: "string \<Rightarrow> torrent_file list option"
  cv_manifestFails :: "string \<Rightarrow> bool"
  cv_saveOk :: "string \<Rightarrow> bool"
  cv_downloads :: "download list option"
  cv_playback :: "playback_state list option"
  cv_metadata :: "string \<Rightarrow> catalog_error + catalog_metadata"
  cv_provider :: bool
  cv_now :: gotime
  cv_sources :: "string list \<Rightarrow> catalog_source list option"

record catalog_world =
  cw_manifests :: "string \<rightharpoonup> torrent_manifest"
  cw_requests :: "string list"

section \<open>Manifests of season packs\<close>

fun engine_manifest :: "catalog_env \<Rightarrow> string \<Rightarrow> download list \<Rightarrow> catalog_world
    \<Rightarrow> (catalog_error + torrent_manifest) \<times> catalog_world" where
  "engine_manifest env releaseID [] w = (Inl NoRows, w)"
| "engine_manifest env releaseID (d # ds) w =
     (if d_ReleaseID d \<noteq> releaseID then engine_manifest env releaseID ds w
      else case cut_prefix (d_EngineID d) (cv_prefix env) of
        None \<Rightarrow> engine_manifest env releaseID ds w
      | Some h \<Rightarrow> (case cv_files env h of
          None \<Rightarrow> engine_manifest env releaseID ds w
        | Some [] \<Rightarrow> engine_manifest env releaseID ds w
        | Some (f # fs) \<Rightarrow>
            let m = \<lparr>tm_ReleaseID = releaseID, tm_Files = f # fs, tm_FetchedAt = cv_now env\<rparr> in
            if cv_saveOk env releaseID then (Inr m, w\<lparr>cw_manifests := (cw_manifests w)(releaseID \<mapsto> m)\<rparr>)
            else (Inl QueryFailed, w)))"

definition catalogTorrentManifest :: "catalog_env \<Rightarrow> string \<Rightarrow> catalog_world
    \<Rightarrow> (catalog_error + torrent_manifest) \<times> catalog_world" where
  "catalogTorrentManifest env releaseID w =
     (if cv_manifestFails env releaseID then (Inl QueryFailed, w)
      else case cw_manifests w releaseID of
        Some m \<Rightarrow> (Inr m, w)
      | None \<Rightarrow>
          if \<not> cv_engine env then (Inl NoRows, w)
          else (case cv_downloads env of
              None \<Rightarrow> (Inl QueryFailed, w)
            | Some ds \<Rightarrow> engine_manifest env releaseID ds w))"

section \<open>Where a source is listed\<close>

datatype placement = InEpisode "int \<times> int" catalog_source | InPack int catalog_source

definition pack_seasons :: "parsed_release \<Rightarrow> int list" where
  "pack_seasons p = (let (start, stop) = (if pa_SeasonStart p = 0 then (1, 1) else (pa_SeasonStart p, pa_SeasonEnd p)) in
     [start..max start stop])"

definition episode_key :: "catalog_source \<Rightarrow> int \<times> int" where
  "episode_key s = (pa_SeasonStart (cs_Parsed s), pa_EpisodeStart (cs_Parsed s))"

definition virtual_sources :: "catalog_source \<Rightarrow> torrent_file list \<Rightarrow> catalog_source list" where
  "virtual_sources source files = List.map_filter (episodeSource source) (filter tf_Playable files)"

definition place_source :: "catalog_env \<Rightarrow> catalog_source \<Rightarrow> catalog_world \<Rightarrow> placement list \<times> catalog_world" where
  "place_source env source w =
     (let p = cs_Parsed source; packs = map (\<lambda>n. InPack n source) (pack_seasons p) in
      if pa_EpisodeStart p > 0 then ([InEpisode (episode_key source) source], w)
      else if rel_FileCount (cs_Release source) > 1 then
        (case catalogTorrentManifest env (rel_ID (cs_Release source)) w of
           (Inr m, w1) \<Rightarrow> (map (\<lambda>v. InEpisode (episode_key v) v) (virtual_sources source (tm_Files m)) @ packs, w1)
         | (Inl e, w1) \<Rightarrow> (packs, w1))
      else (packs, w))"

type_synonym 'k shelf = "('k \<times> catalog_source list) list"

definition shelf_at :: "'k shelf \<Rightarrow> 'k \<Rightarrow> catalog_source list" where
  "shelf_at m k = (case map_of m k of None \<Rightarrow> [] | Some xs \<Rightarrow> xs)"

definition shelve :: "'k \<Rightarrow> catalog_source \<Rightarrow> 'k shelf \<Rightarrow> 'k shelf" where
  "shelve k x m = AList.update k (shelf_at m k @ [x]) m"

fun put_away :: "placement \<Rightarrow> (int \<times> int) shelf \<times> int shelf \<Rightarrow> (int \<times> int) shelf \<times> int shelf" where
  "put_away (InEpisode k s) (episodes, packs) = (shelve k s episodes, packs)"
| "put_away (InPack n s) (episodes, packs) = (episodes, shelve n s packs)"

fun place_all :: "catalog_env \<Rightarrow> catalog_source list \<Rightarrow> catalog_world \<Rightarrow> placement list \<times> catalog_world" where
  "place_all env [] w = ([], w)"
| "place_all env (s # ss) w =
     (let (ps, w1) = place_source env s w; (qs, w2) = place_all env ss w1 in (ps @ qs, w2))"

section \<open>Seasons\<close>

definition episode_of :: "int \<times> int \<Rightarrow> catalog_source list \<Rightarrow> catalog_episode" where
  "episode_of k items =
     (let name = pa_EpisodeTitle (cs_Parsed (hd items)) in
      \<lparr>ce_Number = snd k, ce_Title = (if name = [] then ''Episode '' @ show_int (snd k) else name), ce_Season = fst k,
       ce_SourceCount = int (length items), ce_Sources = items, ce_LibraryState = zero_state\<rparr>)"

definition season_of :: "(int \<times> int) shelf \<Rightarrow> int shelf \<Rightarrow> int \<Rightarrow> catalog_season" where
  "season_of episodes packs n =
     (let keys = sort_key snd (filter (\<lambda>k. fst k = n) (map fst episodes));
          eps = map (\<lambda>k. episode_of k (shelf_at episodes k)) keys in
      \<lparr>se_Number = n, se_Title = ''Season '' @ show_int n, se_EpisodeCount = int (length eps), se_Episodes = eps,
       se_PackSources = shelf_at packs n, se_LibraryState = zero_state\<rparr>)"

definition season_numbers_of :: "(int \<times> int) shelf \<Rightarrow> int shelf \<Rightarrow> int list" where
  "season_numbers_of episodes packs = sort (remdups (map (fst \<circ> fst) episodes @ map fst packs))"

definition seasons_of :: "placement list \<Rightarrow> catalog_season list" where
  "seasons_of ps = (let (episodes, packs) = fold put_away ps ([], []) in
     map (season_of episodes packs) (season_numbers_of episodes packs))"

section \<open>Metadata\<close>

definition applyMetadata :: "catalog_metadata \<Rightarrow> catalog_title \<Rightarrow> catalog_title" where
  "applyMetadata m t =
     (let t1 = (if md_Title m \<noteq> [] then t\<lparr>ct_Title := md_Title m\<rparr> else t);
          t2 = t1\<lparr>ct_OriginalTitle := md_OriginalTitle m, ct_Overview := md_Overview m, ct_Rating := md_Rating m,
             ct_RatingVotes := md_RatingVotes m, ct_RatingProvider := md_RatingProvider m\<rparr>;
          t3 = (if md_PosterPath m \<noteq> [] then t2\<lparr>ct_PosterURL := ''/api/v1/artwork/'' @ ct_ID t @ ''/poster''\<rparr> else t2) in
      if md_BackdropPath m \<noteq> [] then t3\<lparr>ct_BackdropURL := ''/api/v1/artwork/'' @ ct_ID t @ ''/backdrop''\<rparr> else t3)"

definition applyMetadataOnly :: "catalog_env \<Rightarrow> catalog_title \<Rightarrow> catalog_title" where
  "applyMetadataOnly env t = (case cv_metadata env (ct_ID t) of Inr m \<Rightarrow> applyMetadata m t | Inl _ \<Rightarrow> t)"

definition applyCachedMetadata :: "catalog_env \<Rightarrow> catalog_title \<Rightarrow> catalog_world \<Rightarrow> catalog_title \<times> catalog_world" where
  "applyCachedMetadata env t w =
     (let request = (\<lambda>u. (u, if cv_provider env \<and> ct_IMDbID u \<noteq> [] then w\<lparr>cw_requests := cw_requests w @ [ct_ID u]\<rparr> else w)) in
      case cv_metadata env (ct_ID t) of
        Inr m \<Rightarrow> (let u = applyMetadata m t in if md_ExpiresAt m > cv_now env then (u, w) else request u)
      | Inl e \<Rightarrow> if e = NoRows then request t else (t, w))"

section \<open>The detail of a title\<close>

record catalog_detail =
  cd_Title :: catalog_title
  cd_Seasons :: "catalog_season list"
  cd_Sources :: "catalog_source list"

definition cleared :: "catalog_source \<Rightarrow> catalog_source" where
  "cleared s = s\<lparr>cs_LibraryState := emptyMediaState\<rparr>"

definition clear_season :: "catalog_season \<Rightarrow> catalog_season" where
  "clear_season s = s\<lparr>se_LibraryState := emptyMediaState, se_PackSources := map cleared (se_PackSources s),
     se_Episodes := map (\<lambda>e. e\<lparr>ce_LibraryState := emptyMediaState, ce_Sources := map cleared (ce_Sources e)\<rparr>) (se_Episodes s)\<rparr>"

definition clear_detail :: "catalog_detail \<Rightarrow> catalog_detail" where
  "clear_detail d = d\<lparr>cd_Title := (cd_Title d)\<lparr>ct_LibraryState := emptyMediaState, ct_Sources := map cleared (ct_Sources (cd_Title d))\<rparr>,
     cd_Sources := map cleared (cd_Sources d), cd_Seasons := map clear_season (cd_Seasons d)\<rparr>"

definition episode_state :: "catalog_index \<Rightarrow> catalog_episode \<Rightarrow> catalog_episode" where
  "episode_state ix e = (let sources = map (with_state ix) (ce_Sources e) in
     e\<lparr>ce_Sources := sources, ce_LibraryState := aggregateSourceState sources\<rparr>)"

definition season_state :: "catalog_index \<Rightarrow> catalog_season \<Rightarrow> catalog_season" where
  "season_state ix s = (let eps = map (episode_state ix) (se_Episodes s) in
     s\<lparr>se_Episodes := eps,
       se_PackSources := map (\<lambda>p. p\<lparr>cs_LibraryState := packSourceState (rel_ID (cs_Release p)) eps\<rparr>) (se_PackSources s),
       se_LibraryState := aggregateEpisodeState eps\<rparr>)"

definition applyCatalogState :: "catalog_env \<Rightarrow> catalog_detail \<Rightarrow> catalog_detail" where
  "applyCatalogState env detail =
     (let d = clear_detail detail in
      case catalogState (cv_downloads env) (cv_playback env) of
        None \<Rightarrow> d
      | Some ix \<Rightarrow>
          let seasons = map (season_state ix) (cd_Seasons d); sources = map (with_state ix) (cd_Sources d) in
          d\<lparr>cd_Seasons := seasons, cd_Sources := sources,
            cd_Title := (cd_Title d)\<lparr>ct_Sources := map (with_state ix) (ct_Sources (cd_Title d)),
              ct_LibraryState := (if ct_Kind (cd_Title d) = MediaMovie then aggregateSourceState sources
                else aggregateSeasonState seasons)\<rparr>\<rparr>)"

definition CatalogDetail :: "catalog_env \<Rightarrow> string \<Rightarrow> catalog_world \<Rightarrow> (catalog_error + catalog_detail) \<times> catalog_world" where
  "CatalogDetail env titleID w =
     (case cv_sources env [titleID] of
        None \<Rightarrow> (Inl QueryFailed, w)
      | Some matched \<Rightarrow>
          if matched = [] then (Inl TitleNotFound, w)
          else let (title, w1) = applyCachedMetadata env (hd (groupCatalog (cv_hash env) matched True)) w in
            if ct_Kind title = MediaMovie
            then (Inr (applyCatalogState env \<lparr>cd_Title = title, cd_Seasons = [], cd_Sources = matched\<rparr>), w1)
            else let (ps, w2) = place_all env matched w1 in
              (Inr (applyCatalogState env \<lparr>cd_Title = title, cd_Seasons = seasons_of ps, cd_Sources = []\<rparr>), w2))"

section \<open>A page of titles\<close>

text \<open>The ids of the page and its total come from the database.\<close>

definition CatalogTitles :: "catalog_env \<Rightarrow> (string list \<times> string \<times> int) option
    \<Rightarrow> (catalog_error + catalog_title list \<times> string \<times> int)" where
  "CatalogTitles env page =
     (case page of None \<Rightarrow> Inl QueryFailed | Some (ids, cursor, n) \<Rightarrow>
      case cv_sources env ids of None \<Rightarrow> Inl QueryFailed | Some sources \<Rightarrow>
        let state = (case catalogState (cv_downloads env) (cv_playback env) of
              None \<Rightarrow> (\<lambda>tid. emptyMediaState)
            | Some ix \<Rightarrow> (\<lambda>tid. sourcesState ix (sources_of (cv_hash env) tid sources)));
            titles = map (\<lambda>t. (applyMetadataOnly env t)\<lparr>ct_LibraryState := state (ct_ID t)\<rparr>)
              (groupCatalog (cv_hash env) sources False);
            byID = fold (\<lambda>t m. m(ct_ID t \<mapsto> t)) titles Map.empty in
        Inr (List.map_filter byID ids, cursor, n))"

section \<open>Every source has its place\<close>

fun episode_hits :: "placement list \<Rightarrow> int \<times> int \<Rightarrow> catalog_source list" where
  "episode_hits [] k = []"
| "episode_hits (InEpisode k' s # ps) k = (if k' = k then s # episode_hits ps k else episode_hits ps k)"
| "episode_hits (InPack n s # ps) k = episode_hits ps k"

fun pack_hits :: "placement list \<Rightarrow> int \<Rightarrow> catalog_source list" where
  "pack_hits [] n = []"
| "pack_hits (InPack n' s # ps) n = (if n' = n then s # pack_hits ps n else pack_hits ps n)"
| "pack_hits (InEpisode k s # ps) n = pack_hits ps n"

definition shelf_ok :: "'k shelf \<Rightarrow> bool" where
  "shelf_ok m \<longleftrightarrow> distinct (map fst m) \<and> (\<forall>k\<in>fst ` set m. shelf_at m k \<noteq> [])"

lemma shelf_at_shelve: "shelf_at (shelve k x m) k' = (if k' = k then shelf_at m k @ [x] else shelf_at m k')"
  by (simp add: shelf_at_def shelve_def update_conv)

lemma shelve_keys: "fst ` set (shelve k x m) = insert k (fst ` set m)"
  by (simp add: shelve_def dom_update)

lemma shelf_ok_shelve: "shelf_ok m \<Longrightarrow> shelf_ok (shelve k x m)"
  unfolding shelf_ok_def shelve_keys shelf_at_shelve by (simp add: shelve_def distinct_update)

lemma shelf_keys: "shelf_ok m \<Longrightarrow> fst ` set m = {k. shelf_at m k \<noteq> []}"
  by (auto simp: shelf_ok_def shelf_at_def split: option.splits dest: map_of_SomeD) (force dest: map_of_SomeD)

lemma fold_put:
  assumes "shelf_ok e" "shelf_ok p" "fold put_away ps (e, p) = (e', p')"
  shows "shelf_ok e' \<and> shelf_ok p' \<and> shelf_at e' k = shelf_at e k @ episode_hits ps k \<and> shelf_at p' n = shelf_at p n @ pack_hits ps n"
  using assms
proof (induction ps arbitrary: e p)
  case (Cons q ps)
  show ?case
  proof (cases q)
    case (InEpisode k' s)
    with Cons.prems Cons.IH[of "shelve k' s e" p] show ?thesis by (auto simp: shelf_ok_shelve shelf_at_shelve)
  next
    case (InPack n' s)
    with Cons.prems Cons.IH[of e "shelve n' s p"] show ?thesis by (auto simp: shelf_ok_shelve shelf_at_shelve)
  qed
qed simp

text \<open>The shelves of a run of placements.\<close>

lemma shelves_of:
  assumes "fold put_away ps ([], []) = (e, p)"
  shows "shelf_ok e" "shelf_ok p" "shelf_at e k = episode_hits ps k" "shelf_at p n = pack_hits ps n"
  using fold_put[of "[]" "[]" ps e p k n] assms by (auto simp: shelf_ok_def shelf_at_def)

definition season_wf :: "catalog_season \<Rightarrow> bool" where
  "season_wf s \<longleftrightarrow> sorted_wrt (<) (map ce_Number (se_Episodes s)) \<and> se_EpisodeCount s = int (length (se_Episodes s))
     \<and> (se_Episodes s \<noteq> [] \<or> se_PackSources s \<noteq> [])
     \<and> list_all (\<lambda>e. ce_Season e = se_Number s \<and> ce_Sources e \<noteq> [] \<and> ce_SourceCount e = int (length (ce_Sources e))) (se_Episodes s)"

definition seasons_wf :: "catalog_season list \<Rightarrow> bool" where
  "seasons_wf ss \<longleftrightarrow> sorted_wrt (<) (map se_Number ss) \<and> list_all season_wf ss"

lemma strict_of_distinct: "sorted xs \<Longrightarrow> distinct xs \<Longrightarrow> sorted_wrt (<) (xs :: int list)"
  by (induction xs) (auto simp: order_less_le)

lemma season_keys:
  assumes "distinct (map fst (episodes :: (int \<times> int) shelf))"
  shows "sorted_wrt (<) (map snd (sort_key snd (filter (\<lambda>k. fst k = n) (map fst episodes))))"
proof (rule strict_of_distinct)
  let ?ks = "filter (\<lambda>k. fst k = n) (map fst episodes)"
  have d: "distinct ?ks" using assms by (rule distinct_filter)
  have "inj_on snd (set (sort_key snd ?ks))" by (rule inj_onI) (auto simp: prod_eq_iff)
  then show "distinct (map snd (sort_key snd ?ks))" using d by (simp add: distinct_map distinct_sort)
qed (rule sorted_sort_key)

lemma seasons_of_wf: "seasons_wf (seasons_of ps)"
proof -
  obtain e p where f: "fold put_away ps ([], []) = (e, p)" by fastforce
  note sh = shelves_of[OF f]
  have wf: "season_wf (season_of e p n)" if n: "n \<in> set (season_numbers_of e p)" for n
  proof -
    have d: "distinct (map fst e)" using sh(1) by (simp add: shelf_ok_def)
    have ne: "shelf_at e k \<noteq> []" if "k \<in> fst ` set e" for k using sh(1) that unfolding shelf_ok_def by blast
    let ?ks = "sort_key snd (filter (\<lambda>k. fst k = n) (map fst e))"
    have ks: "set ?ks = {k \<in> fst ` set e. fst k = n}" by auto
    have eps: "se_Episodes (season_of e p n) = map (\<lambda>k. episode_of k (shelf_at e k)) ?ks" "se_Number (season_of e p n) = n"
      "se_PackSources (season_of e p n) = shelf_at p n" "se_EpisodeCount (season_of e p n) = int (length ?ks)"
      by (simp_all add: season_of_def Let_def)
    have "n \<in> fst ` fst ` set e \<or> n \<in> fst ` set p" using n by (auto simp: season_numbers_of_def image_image)
    moreover have "n \<in> fst ` fst ` set e \<Longrightarrow> set ?ks \<noteq> {}" unfolding ks by blast
    moreover have "n \<in> fst ` set p \<Longrightarrow> shelf_at p n \<noteq> []" using sh(2) unfolding shelf_ok_def by blast
    ultimately have "set ?ks \<noteq> {} \<or> shelf_at p n \<noteq> []" by blast
    then have "?ks \<noteq> [] \<or> shelf_at p n \<noteq> []" by (metis set_empty)
    moreover have "map ce_Number (map (\<lambda>k. episode_of k (shelf_at e k)) ?ks) = map snd ?ks"
      by (simp add: episode_of_def Let_def)
    moreover have "list_all (\<lambda>e. ce_Season e = n \<and> ce_Sources e \<noteq> [] \<and> ce_SourceCount e = int (length (ce_Sources e)))
        (map (\<lambda>k. episode_of k (shelf_at e k)) ?ks)"
      unfolding list_all_iff using ks ne by (auto simp: episode_of_def Let_def)
    ultimately show ?thesis
      unfolding season_wf_def eps using season_keys[OF d, of n] by (simp only: length_map map_is_Nil_conv simp_thms)
  qed
  have "map se_Number (seasons_of ps) = season_numbers_of e p"
    by (simp add: seasons_of_def f season_of_def Let_def o_def)
  moreover have "sorted_wrt (<) (season_numbers_of e p)"
    by (rule strict_of_distinct) (simp_all add: season_numbers_of_def)
  ultimately show ?thesis using wf by (auto simp: seasons_wf_def list_all_iff seasons_of_def f)
qed

text \<open>The states are written over a detail without moving anything in it.\<close>

definition same_source :: "catalog_source \<Rightarrow> catalog_source \<Rightarrow> bool" where
  "same_source s s' \<longleftrightarrow> (\<exists>st. s' = s\<lparr>cs_LibraryState := st\<rparr>)"

definition same_episode :: "catalog_episode \<Rightarrow> catalog_episode \<Rightarrow> bool" where
  "same_episode e e' \<longleftrightarrow> ce_Number e' = ce_Number e \<and> ce_Season e' = ce_Season e \<and> ce_SourceCount e' = ce_SourceCount e
     \<and> list_all2 same_source (ce_Sources e) (ce_Sources e')"

definition same_season :: "catalog_season \<Rightarrow> catalog_season \<Rightarrow> bool" where
  "same_season s s' \<longleftrightarrow> se_Number s' = se_Number s \<and> se_EpisodeCount s' = se_EpisodeCount s
     \<and> list_all2 same_source (se_PackSources s) (se_PackSources s') \<and> list_all2 same_episode (se_Episodes s) (se_Episodes s')"

definition same_detail :: "catalog_detail \<Rightarrow> catalog_detail \<Rightarrow> bool" where
  "same_detail d d' \<longleftrightarrow> ct_Kind (cd_Title d') = ct_Kind (cd_Title d) \<and> list_all2 same_source (cd_Sources d) (cd_Sources d')
     \<and> list_all2 same_season (cd_Seasons d) (cd_Seasons d')"

lemma list_all2_mapI: "(\<And>x. P x (f x)) \<Longrightarrow> list_all2 P xs (map f xs)"
  by (simp add: list_all2_conv_all_nth)

lemma same_source_state: "same_source s (cleared s)" "same_source s (with_state ix (cleared s))"
  "same_source s ((cleared s)\<lparr>cs_LibraryState := st\<rparr>)"
  by (auto simp: same_source_def cleared_def with_state_def)

lemma applyCatalogState_same: "same_detail d (applyCatalogState env d)"
proof (cases "catalogState (cv_downloads env) (cv_playback env)")
  case None
  then show ?thesis
    by (auto simp: applyCatalogState_def clear_detail_def clear_season_def same_detail_def same_season_def same_episode_def
        intro!: list_all2_mapI same_source_state)
next
  case (Some ix)
  then show ?thesis
    by (auto simp: applyCatalogState_def clear_detail_def clear_season_def same_detail_def same_season_def same_episode_def
        season_state_def episode_state_def Let_def o_def intro!: list_all2_mapI same_source_state)
qed

lemma list_all2_Nil: "list_all2 P xs ys \<Longrightarrow> (ys = []) = (xs = [])"
  by (cases xs; cases ys) auto

lemma same_numbers: "list_all2 same_season ss ss' \<Longrightarrow> map se_Number ss' = map se_Number ss"
  by (induction rule: list_all2_induct) (auto simp: same_season_def)

lemma same_season_wf: "same_season s s' \<Longrightarrow> season_wf s \<Longrightarrow> season_wf s'"
proof -
  assume s: "same_season s s'" and wf: "season_wf s"
  then have eps: "list_all2 same_episode (se_Episodes s) (se_Episodes s')" by (simp add: same_season_def)
  have n: "map ce_Number (se_Episodes s') = map ce_Number (se_Episodes s)"
    using eps by (induction rule: list_all2_induct) (auto simp: same_episode_def)
  have "list_all (\<lambda>e. ce_Season e = m \<and> ce_Sources e \<noteq> [] \<and> ce_SourceCount e = int (length (ce_Sources e))) (se_Episodes s')"
    if "list_all (\<lambda>e. ce_Season e = m \<and> ce_Sources e \<noteq> [] \<and> ce_SourceCount e = int (length (ce_Sources e))) (se_Episodes s)" for m
    using eps that by (induction rule: list_all2_induct) (auto simp: same_episode_def list_all2_lengthD dest: list_all2_Nil)
  then show ?thesis
    using s wf n list_all2_lengthD[OF eps] list_all2_Nil[OF eps] list_all2_Nil[of same_source "se_PackSources s" "se_PackSources s'"]
    by (simp add: season_wf_def same_season_def)
qed

lemma same_seasons_wf: "list_all2 same_season ss ss' \<Longrightarrow> seasons_wf ss \<Longrightarrow> seasons_wf ss'"
proof -
  assume l: "list_all2 same_season ss ss'" and wf: "seasons_wf ss"
  have "list_all season_wf ss'" if "list_all season_wf ss"
    using l that by (induction rule: list_all2_induct) (auto dest: same_season_wf)
  with wf same_numbers[OF l] show ?thesis by (simp add: seasons_wf_def)
qed

definition lists :: "catalog_source list \<Rightarrow> catalog_source \<Rightarrow> bool" where
  "lists xs s \<longleftrightarrow> list_ex (same_source s) xs"

text \<open>Where a reader of the detail finds a source.\<close>

definition in_episode :: "catalog_season list \<Rightarrow> int \<Rightarrow> int \<Rightarrow> catalog_source \<Rightarrow> bool" where
  "in_episode ss n k s \<longleftrightarrow> list_ex (\<lambda>season. se_Number season = n
     \<and> list_ex (\<lambda>e. ce_Number e = k \<and> lists (ce_Sources e) s) (se_Episodes season)) ss"

definition in_pack :: "catalog_season list \<Rightarrow> int \<Rightarrow> catalog_source \<Rightarrow> bool" where
  "in_pack ss n s \<longleftrightarrow> list_ex (\<lambda>season. se_Number season = n \<and> lists (se_PackSources season) s) ss"

definition listed :: "catalog_detail \<Rightarrow> catalog_source \<Rightarrow> bool" where
  "listed d s = (let p = cs_Parsed s in
     if ct_Kind (cd_Title d) = MediaMovie then lists (cd_Sources d) s
     else if pa_EpisodeStart p > 0 then in_episode (cd_Seasons d) (pa_SeasonStart p) (pa_EpisodeStart p) s
     else list_all (\<lambda>n. in_pack (cd_Seasons d) n s) (pack_seasons p))"

lemma list_ex_all2: "list_ex P xs \<Longrightarrow> list_all2 R xs ys \<Longrightarrow> (\<And>x y. R x y \<Longrightarrow> P x \<Longrightarrow> Q y) \<Longrightarrow> list_ex Q ys"
  by (rotate_tac, induction rule: list_all2_induct) auto

lemma lists_same: "lists xs s \<Longrightarrow> list_all2 same_source xs ys \<Longrightarrow> lists ys s"
  unfolding lists_def by (erule list_ex_all2, assumption) (auto simp: same_source_def)

lemma in_episode_same: "in_episode ss n k s \<Longrightarrow> list_all2 same_season ss ss' \<Longrightarrow> in_episode ss' n k s"
  unfolding in_episode_def
  by (erule list_ex_all2, assumption)
    (auto simp: same_season_def elim!: list_ex_all2 simp: same_episode_def intro: lists_same)

lemma in_pack_same: "in_pack ss n s \<Longrightarrow> list_all2 same_season ss ss' \<Longrightarrow> in_pack ss' n s"
  unfolding in_pack_def by (erule list_ex_all2, assumption) (auto simp: same_season_def intro: lists_same)

lemma listed_same: "listed d s \<Longrightarrow> same_detail d d' \<Longrightarrow> listed d' s"
  using in_pack_same[of "cd_Seasons d" _ s "cd_Seasons d'"]
  by (auto simp: listed_def same_detail_def Let_def list_all_iff intro: lists_same in_episode_same)

lemma set_hits: "s \<in> set (episode_hits ps k) \<longleftrightarrow> InEpisode k s \<in> set ps"
  by (induction ps k rule: episode_hits.induct) auto

lemma set_pack_hits: "s \<in> set (pack_hits ps n) \<longleftrightarrow> InPack n s \<in> set ps"
  by (induction ps n rule: pack_hits.induct) auto

lemma same_source_refl: "same_source s s"
  unfolding same_source_def by (rule exI[of _ "cs_LibraryState s"]) simp

lemma lists_member: "s \<in> set xs \<Longrightarrow> lists xs s"
  by (auto simp: lists_def list_ex_iff intro: same_source_refl)

lemma seasons_of_episode: "InEpisode (a, b) s \<in> set ps \<Longrightarrow> in_episode (seasons_of ps) a b s"
proof -
  assume i: "InEpisode (a, b) s \<in> set ps"
  obtain e p where f: "fold put_away ps ([], []) = (e, p)" by fastforce
  note sh = shelves_of[OF f]
  have s: "s \<in> set (shelf_at e (a, b))" using i by (simp add: sh(3) set_hits)
  then have k: "(a, b) \<in> fst ` set e" using shelf_keys[OF sh(1)] by auto
  then have "a \<in> set (season_numbers_of e p)" by (force simp: season_numbers_of_def)
  moreover have "(a, b) \<in> set (sort_key snd (filter (\<lambda>k. fst k = a) (map fst e)))" using k by auto
  ultimately have "season_of e p a \<in> set (seasons_of ps)" "episode_of (a, b) (shelf_at e (a, b)) \<in> set (se_Episodes (season_of e p a))"
    by (simp_all add: seasons_of_def f season_of_def Let_def)
  moreover have "se_Number (season_of e p a) = a" by (simp add: season_of_def Let_def)
  moreover have "ce_Number (episode_of (a, b) xs) = b" "ce_Sources (episode_of (a, b) xs) = xs" for xs
    by (simp_all add: episode_of_def Let_def)
  ultimately show ?thesis using lists_member[OF s] unfolding in_episode_def list_ex_iff by metis
qed

lemma seasons_of_pack: "InPack n s \<in> set ps \<Longrightarrow> in_pack (seasons_of ps) n s"
proof -
  assume i: "InPack n s \<in> set ps"
  obtain e p where f: "fold put_away ps ([], []) = (e, p)" by fastforce
  note sh = shelves_of[OF f]
  have s: "s \<in> set (shelf_at p n)" using i by (simp add: sh(4) set_pack_hits)
  then have "n \<in> fst ` set p" using shelf_keys[OF sh(2)] by auto
  then have "n \<in> set (season_numbers_of e p)" by (auto simp: season_numbers_of_def)
  then have "season_of e p n \<in> set (seasons_of ps)" by (simp add: seasons_of_def f)
  moreover have "se_Number (season_of e p n) = n" "se_PackSources (season_of e p n) = shelf_at p n" by (simp_all add: season_of_def Let_def)
  ultimately show ?thesis using lists_member[OF s] unfolding in_pack_def list_ex_iff by metis
qed

definition placed :: "placement list \<Rightarrow> catalog_source \<Rightarrow> bool" where
  "placed ps s \<longleftrightarrow> (if pa_EpisodeStart (cs_Parsed s) > 0 then InEpisode (episode_key s) s \<in> set ps
     else (\<forall>n\<in>set (pack_seasons (cs_Parsed s)). InPack n s \<in> set ps))"

lemma place_source_placed: "place_source env s w = (ps, w') \<Longrightarrow> placed ps s"
  by (auto simp: place_source_def placed_def Let_def split: if_splits prod.splits sum.splits)

lemma place_all_placed: "place_all env ss w = (ps, w') \<Longrightarrow> s \<in> set ss \<Longrightarrow> placed ps s"
proof (induction env ss w arbitrary: ps w' rule: place_all.induct)
  case (2 env x ss w)
  obtain qs w1 where q: "place_source env x w = (qs, w1)" by fastforce
  obtain rs w2 where r: "place_all env ss w1 = (rs, w2)" by fastforce
  have ps: "ps = qs @ rs" using "2.prems" q r by simp
  show ?case
  proof (cases "s = x")
    case True
    then show ?thesis using place_source_placed[OF q] by (auto simp: placed_def ps split: if_splits)
  next
    case False
    then have "placed rs s" using "2.IH"[OF refl q[symmetric] r] "2.prems" q r by auto
    then show ?thesis by (auto simp: placed_def ps split: if_splits)
  qed
qed simp

text \<open>
  Property C27. (\<open>CatalogDetail\<close>) Whatever the database, the manifests and the engine answer, a
  detail that is returned has strictly ascending seasons and episodes without empty ones,
  and every source of the title is listed where its name says: a movie in the list of
  sources, an episode in its season, a pack in each of its seasons.
\<close>

theorem detail_lists_every_source:
  assumes "CatalogDetail env titleID w = (Inr d, w')" "cv_sources env [titleID] = Some matched"
  shows "seasons_wf (cd_Seasons d) \<and> list_all (listed d) matched"
proof -
  have ne: "matched \<noteq> []" using assms by (auto simp: CatalogDetail_def)
  obtain title w1 where t: "applyCachedMetadata env (hd (groupCatalog (cv_hash env) matched True)) w = (title, w1)" by fastforce
  show ?thesis
  proof (cases "ct_Kind title = MediaMovie")
    case True
    let ?d = "\<lparr>cd_Title = title, cd_Seasons = [], cd_Sources = matched\<rparr>"
    have d: "d = applyCatalogState env ?d" using assms ne t True by (auto simp: CatalogDetail_def)
    have "list_all (listed ?d) matched" using True by (auto simp: list_all_iff listed_def Let_def intro: lists_member)
    then show ?thesis
      using listed_same[OF _ applyCatalogState_same[of ?d env]] same_seasons_wf[of "[]"] applyCatalogState_same[of ?d env]
      by (auto simp: d list_all_iff same_detail_def seasons_wf_def)
  next
    case False
    obtain ps w2 where ps: "place_all env matched w1 = (ps, w2)" by fastforce
    let ?d = "\<lparr>cd_Title = title, cd_Seasons = seasons_of ps, cd_Sources = []\<rparr>"
    have d: "d = applyCatalogState env ?d" using assms ne t False ps by (auto simp: CatalogDetail_def)
    have "listed ?d s" if "s \<in> set matched" for s
      using place_all_placed[OF ps that] False seasons_of_episode seasons_of_pack
      by (auto simp: listed_def Let_def placed_def episode_key_def list_all_iff split: if_splits)
    then show ?thesis
      using listed_same[OF _ applyCatalogState_same[of ?d env]] same_seasons_wf[OF _ seasons_of_wf] applyCatalogState_same[of ?d env]
      by (auto simp: d list_all_iff same_detail_def)
  qed
qed

section \<open>What the states of a detail mean\<close>

abbreviation downloaded :: "media_state \<Rightarrow> bool" where "downloaded st \<equiv> ms_DownloadState st = ''downloaded''"
abbreviation watched :: "media_state \<Rightarrow> bool" where "watched st \<equiv> ms_WatchState st = ''watched''"

text \<open>
  The documented meaning: a season is complete when each of its episodes has one complete
  version, a title when each of its seasons is, and the state of a version comes from the
  downloads and the playback of the household alone.
\<close>

definition all_of :: "('a \<Rightarrow> bool) \<Rightarrow> 'a list \<Rightarrow> bool" where
  "all_of P xs \<longleftrightarrow> xs \<noteq> [] \<and> list_all P xs"

definition season_rolled_up :: "catalog_index \<Rightarrow> catalog_season \<Rightarrow> bool" where
  "season_rolled_up ix s \<longleftrightarrow>
     (downloaded (se_LibraryState s) \<longleftrightarrow> all_of (\<lambda>e. list_ex (\<lambda>v. downloaded (sourceState ix v)) (ce_Sources e)) (se_Episodes s))
     \<and> (watched (se_LibraryState s) \<longleftrightarrow> all_of (\<lambda>e. list_ex (\<lambda>v. watched (sourceState ix v)) (ce_Sources e)) (se_Episodes s))"

definition rolled_up :: "catalog_index \<Rightarrow> catalog_detail \<Rightarrow> bool" where
  "rolled_up ix d \<longleftrightarrow> list_all (season_rolled_up ix) (cd_Seasons d)
     \<and> (downloaded (ct_LibraryState (cd_Title d)) \<longleftrightarrow> all_of (\<lambda>s. downloaded (se_LibraryState s)) (cd_Seasons d))
     \<and> (watched (ct_LibraryState (cd_Title d)) \<longleftrightarrow> all_of (\<lambda>s. watched (se_LibraryState s)) (cd_Seasons d))"

lemma all_of_map [simp]: "all_of P (map f xs) = all_of (\<lambda>x. P (f x)) xs"
  by (simp add: all_of_def list_all_iff)

lemma aggregate_all: "downloaded (aggregateMediaStates (map f xs) True) \<longleftrightarrow> all_of (\<lambda>x. downloaded (f x)) xs"
  "watched (aggregateMediaStates (map f xs) True) \<longleftrightarrow> all_of (\<lambda>x. watched (f x)) xs"
  by (auto simp: aggregate_all_download aggregate_all_watch all_of_def list_all_iff)

lemma aggregate_sources: "downloaded (aggregateSourceState xs) \<longleftrightarrow> list_ex (\<lambda>x. downloaded (cs_LibraryState x)) xs"
  "watched (aggregateSourceState xs) \<longleftrightarrow> list_ex (\<lambda>x. watched (cs_LibraryState x)) xs"
  by (auto simp: aggregateSourceState_def aggregate_any_download aggregate_any_watch list_ex_iff)

lemma sourceState_ignores: "sourceState ix (s\<lparr>cs_LibraryState := st\<rparr>) = sourceState ix s"
proof -
  have "eligible (s\<lparr>cs_LibraryState := st\<rparr>) = eligible s" by (auto simp: eligible_def fun_eq_iff split: option.splits)
  moreover have "release_playback (s\<lparr>cs_LibraryState := st\<rparr>) ps u = release_playback s ps u" for ps u
    by (induction s ps u rule: release_playback.induct) (simp_all add: Let_def)
  ultimately show ?thesis by (simp add: sourceState_def selected_download_def Let_def)
qed

lemma with_state_source [simp]: "cs_LibraryState (with_state ix s) = sourceState ix s" "sourceState ix (with_state ix s) = sourceState ix s"
  by (simp_all add: with_state_def sourceState_ignores)

lemma season_state_rolled_up: "season_rolled_up ix (season_state ix s)"
  by (simp add: season_rolled_up_def season_state_def aggregateEpisodeState_def aggregate_all Let_def episode_state_def aggregate_sources
      list_ex_iff all_of_def list_all_iff)

lemma applyCatalogState_rolled_up:
  assumes "catalogState (cv_downloads env) (cv_playback env) = Some ix" "ct_Kind (cd_Title d) \<noteq> MediaMovie"
  shows "rolled_up ix (applyCatalogState env d)"
proof -
  have "ct_Kind (cd_Title (clear_detail d)) \<noteq> MediaMovie" using assms by (simp add: clear_detail_def)
  then show ?thesis
    using assms(1) season_state_rolled_up[of ix]
    by (simp add: applyCatalogState_def Let_def rolled_up_def aggregateSeasonState_def aggregate_all list_all_iff)
qed

lemma detail_of:
  assumes "CatalogDetail env titleID w = (Inr d, w')" obtains d0 where "d = applyCatalogState env d0"
  using assms by (auto simp: CatalogDetail_def Let_def split: option.splits if_splits prod.splits)

text \<open>
  Property C28. (\<open>applyCatalogState\<close>) In the detail of a series a season is downloaded or watched
  exactly when each of its episodes has a version that is, and the series exactly when each
  of its seasons is.
\<close>

theorem detail_states_roll_up:
  assumes "CatalogDetail env titleID w = (Inr d, w')" "catalogState (cv_downloads env) (cv_playback env) = Some ix"
    "ct_Kind (cd_Title d) \<noteq> MediaMovie"
  shows "rolled_up ix d"
proof -
  obtain d0 where d: "d = applyCatalogState env d0" using detail_of[OF assms(1)] .
  have "ct_Kind (cd_Title d0) \<noteq> MediaMovie" using assms(3) applyCatalogState_same[of d0 env] by (simp add: d same_detail_def)
  then show ?thesis unfolding d by (rule applyCatalogState_rolled_up[OF assms(2)])
qed

section \<open>Season packs\<close>

lemma pack_members_release:
  "pack_members r eps = pack_members r (map (\<lambda>e. e\<lparr>ce_Sources := filter (\<lambda>s. rel_ID (cs_Release s) = r) (ce_Sources e)\<rparr>) eps)"
  by (simp add: pack_members_def filter_concat o_def)

lemma pack_download_keeps: "ms_Progress (fold pack_download ms r) = ms_Progress r" "ms_DownloadState (fold pack_download ms r) = ms_DownloadState r"
  by (induction ms arbitrary: r) (auto simp: pack_download_def Let_def)

definition pack_sources :: "string \<Rightarrow> catalog_episode list \<Rightarrow> catalog_source list" where
  "pack_sources r eps = filter (\<lambda>s. rel_ID (cs_Release s) = r) (concat (map ce_Sources eps))"

definition weight_of :: "catalog_source \<Rightarrow> int64" where
  "weight_of s = (if cs_FileSizeBytes s \<le> 0 then 1 else cs_FileSizeBytes s)"

text \<open>The mean of the progress over the files of a release, by size.\<close>

definition mean_progress :: "catalog_source list \<Rightarrow> float64" where
  "mean_progress ss = (\<Sum>s\<leftarrow>ss. ms_Progress (cs_LibraryState s) * of_int (weight_of s)) / of_int (\<Sum>s\<leftarrow>ss. weight_of s)"

lemma weights_positive: "ss \<noteq> [] \<Longrightarrow> 0 < (\<Sum>s\<leftarrow>ss. weight_of s)"
proof (induction ss)
  case (Cons s ss)
  have "0 < weight_of s" by (simp add: weight_of_def)
  moreover have "0 \<le> (\<Sum>s\<leftarrow>ss. weight_of s)" by (rule sum_list_nonneg) (auto simp: weight_of_def)
  ultimately show ?case by simp
qed simp

lemma mean_bounds:
  assumes "ss \<noteq> []" "\<And>s. s \<in> set ss \<Longrightarrow> 0 \<le> ms_Progress (cs_LibraryState s) \<and> ms_Progress (cs_LibraryState s) \<le> 1"
  shows "0 \<le> mean_progress ss \<and> mean_progress ss \<le> 1"
proof -
  have w: "(0::rat) \<le> of_int (weight_of s)" for s by (simp add: weight_of_def)
  have "0 \<le> (\<Sum>s\<leftarrow>ss. ms_Progress (cs_LibraryState s) * of_int (weight_of s))"
    by (rule sum_list_nonneg) (use assms(2) w in \<open>auto intro!: mult_nonneg_nonneg\<close>)
  moreover have "(\<Sum>s\<leftarrow>ss. ms_Progress (cs_LibraryState s) * of_int (weight_of s)) \<le> (\<Sum>s\<leftarrow>ss. of_int (weight_of s))"
    by (rule sum_list_mono) (use assms(2) w in \<open>simp add: mult_left_le_one_le mult_left_le\<close>)
  moreover have "(\<Sum>s\<leftarrow>ss. (of_int (weight_of s) :: rat)) = of_int (\<Sum>s\<leftarrow>ss. weight_of s)" by (induction ss) simp_all
  ultimately show ?thesis using weights_positive[OF assms(1)] by (simp add: mean_progress_def divide_le_eq)
qed

definition pack_spec :: "string \<Rightarrow> catalog_episode list \<Rightarrow> bool" where
  "pack_spec r eps \<longleftrightarrow> (let ss = pack_sources r eps; st = packSourceState r eps in
     if ss = [] then st = emptyMediaState
     else (downloaded st \<longleftrightarrow> list_all (\<lambda>s. downloaded (cs_LibraryState s)) ss) \<and> ms_Progress st = mean_progress ss
       \<and> (list_all (\<lambda>s. 0 \<le> ms_Progress (cs_LibraryState s) \<and> ms_Progress (cs_LibraryState s) \<le> 1) ss
           \<longrightarrow> 0 \<le> ms_Progress st \<and> ms_Progress st \<le> 1))"

lemma packSourceState_spec:
  assumes "(\<Sum>s\<leftarrow>pack_sources r eps. weight_of s) < 2 ^ 63"
  shows "pack_spec r eps"
proof (cases "pack_sources r eps = []")
  case True
  then have "pack_members r eps = []" by (simp add: pack_members_def pack_sources_def)
  with True show ?thesis by (simp add: pack_spec_def packSourceState_def Let_def)
next
  case False
  let ?ss = "pack_sources r eps"
  have m: "pack_members r eps = map (\<lambda>s. (cs_LibraryState s, weight_of s)) ?ss"
    by (simp add: pack_members_def pack_sources_def weight_of_def)
  have w: "i64 (\<Sum>s\<leftarrow>?ss. weight_of s) = (\<Sum>s\<leftarrow>?ss. weight_of s)"
    using assms weights_positive[OF False] by (intro i64_small) simp_all
  have c: "count_of (\<lambda>s. ms_DownloadState s = ''downloaded'') (map cs_LibraryState ?ss) = length ?ss
      \<longleftrightarrow> list_all (\<lambda>s. downloaded (cs_LibraryState s)) ?ss"
    using count_of_all[of "\<lambda>s. ms_DownloadState s = ''downloaded''" "map cs_LibraryState ?ss"] by (simp add: list_all_iff)
  have p: "ms_Progress (packSourceState r eps) = mean_progress ?ss"
    using False weights_positive[OF False] by (simp add: packSourceState_def Let_def m o_def w mean_progress_def split_def)
  have d: "downloaded (packSourceState r eps) \<longleftrightarrow> list_all (\<lambda>s. downloaded (cs_LibraryState s)) ?ss"
    using False c by (simp add: packSourceState_def Let_def m o_def)
  show ?thesis
    using False c mean_bounds[OF False] p by (auto simp: pack_spec_def Let_def d list_all_iff)
qed

text \<open>
  (\<open>packSourceState\<close>) The state of a season pack is that of its own files: no other
  release changes it, it is downloaded exactly when all of them are, and its progress is
  their mean by size, so it stays between 0 and 1.
\<close>

theorem pack_state_own_files:
  assumes "(\<Sum>s\<leftarrow>pack_sources r eps. weight_of s) < 2 ^ 63"
  shows "pack_spec r eps
    \<and> packSourceState r eps = packSourceState r (map (\<lambda>e. e\<lparr>ce_Sources := filter (\<lambda>s. rel_ID (cs_Release s) = r) (ce_Sources e)\<rparr>) eps)"
  using packSourceState_spec[OF assms] pack_members_release[of r eps] by (simp add: packSourceState_def)

section \<open>A page of titles\<close>

definition list_title :: "catalog_env \<Rightarrow> catalog_source list \<Rightarrow> string \<Rightarrow> catalog_title" where
  "list_title env sources tid = (let own = sources_of (cv_hash env) tid sources in
     (applyMetadataOnly env (title_of False tid own))\<lparr>ct_LibraryState :=
       (case catalogState (cv_downloads env) (cv_playback env) of None \<Rightarrow> emptyMediaState | Some ix \<Rightarrow> sourcesState ix own)\<rparr>)"

lemma applyMetadata_id: "ct_ID (applyMetadata m t) = ct_ID t"
  by (simp add: applyMetadata_def Let_def)

lemma list_title_id: "ct_ID (list_title env sources tid) = tid" "ct_ID (applyMetadataOnly env t) = ct_ID t"
  by (simp_all add: list_title_def applyMetadataOnly_def applyMetadata_id title_of_def new_group_def Let_def split: sum.splits)

lemma fold_by_id:
  assumes "\<And>i. ct_ID (f i) = i"
  shows "fold (\<lambda>t m. m(ct_ID t \<mapsto> t)) (map f xs) m = (\<lambda>i. if i \<in> set xs then Some (f i) else m i)"
  by (induction xs arbitrary: m) (auto simp: assms fun_eq_iff)

text \<open>
  (\<open>CatalogTitles\<close>) A page lists the titles the query chose, in its order and without
  those that lost their sources, each counted over exactly its own sources and with the
  state of the household.
\<close>

theorem CatalogTitles_page:
  assumes "cv_sources env ids = Some sources"
  shows "CatalogTitles env (Some (ids, cursor, n)) =
    Inr (map (list_title env sources) (filter (\<lambda>tid. tid \<in> set (first_ids (cv_hash env) sources)) ids), cursor, n)"
proof -
  let ?st = "case catalogState (cv_downloads env) (cv_playback env) of
      None \<Rightarrow> (\<lambda>tid. emptyMediaState) | Some ix \<Rightarrow> (\<lambda>tid. sourcesState ix (sources_of (cv_hash env) tid sources))"
  have t: "(applyMetadataOnly env (title_of False tid (sources_of (cv_hash env) tid sources)))\<lparr>ct_LibraryState := ?st tid\<rparr>
      = list_title env sources tid" for tid
    by (simp add: list_title_def Let_def split: option.splits)
  have "ct_ID (title_of False tid xs) = tid" for tid xs by (simp add: title_of_def new_group_def)
  then have titles: "map (\<lambda>t. (applyMetadataOnly env t)\<lparr>ct_LibraryState := ?st (ct_ID t)\<rparr>) (groupCatalog (cv_hash env) sources False)
      = map (list_title env sources) (first_ids (cv_hash env) sources)"
    by (simp add: groupCatalog_grouped o_def t)
  have m: "List.map_filter (\<lambda>i. if i \<in> S then Some (f i) else None) is = map f (filter (\<lambda>i. i \<in> S) is)" for S and f :: "string \<Rightarrow> catalog_title" and "is"
    by (induction "is") (simp_all add: map_filter_simps)
  show ?thesis
    unfolding CatalogTitles_def
    by (simp add: assms titles fold_by_id[OF list_title_id(1)] m Let_def)
qed

section \<open>Concrete titles\<close>

definition sample_source :: "string \<Rightarrow> int \<Rightarrow> int \<Rightarrow> catalog_source" where
  "sample_source rid season episode =
     \<lparr>cs_Release = (named ''Show'')\<lparr>rel_ID := rid\<rparr>,
      cs_Parsed = no_release\<lparr>pa_Kind := MediaSeries, pa_SortTitle := ''show'', pa_SeasonStart := season, pa_SeasonEnd := season,
        pa_EpisodeStart := episode, pa_EpisodeEnd := episode\<rparr>,
      cs_FileIndex = None, cs_FilePath = [], cs_FileSizeBytes = 0, cs_LibraryState = zero_state\<rparr>"

definition sample_download :: "string \<Rightarrow> download" where
  "sample_download rid = \<lparr>d_ID = ''d'', d_ReleaseID = rid, d_EngineID = ''native:1'', d_FilePath = [], d_AbsolutePath = [],
     d_State = ''seeding'', d_FileIndex = 0, d_SizeBytes = 1, d_FileOffset = 0, d_PieceSize = 1, d_BufferedBytes = 1,
     d_DownloadedBytes = 1, d_SpeedBytesPerSecond = 0, d_ETASeconds = 0, d_Peers = 0, d_Seeds = 0,
     d_UploadSpeedBytesPerSecond = 0, d_Progress = 1, d_Leased = False, d_CreatedAt = 0, d_UpdatedAt = 0, d_Error = []\<rparr>"

text \<open>A series with two episodes, the first of them downloaded.\<close>

definition sample_env :: catalog_env where
  "sample_env = \<lparr>cv_hash = (\<lambda>k. k), cv_prefix = ''native:'', cv_engine = False, cv_files = (\<lambda>_. None),
     cv_manifestFails = (\<lambda>_. False), cv_saveOk = (\<lambda>_. True), cv_downloads = Some [sample_download ''1''],
     cv_playback = Some [], cv_metadata = (\<lambda>_. Inl NoRows), cv_provider = False, cv_now = 0,
     cv_sources = (\<lambda>_. Some [sample_source ''1'' 1 1, sample_source ''2'' 1 2])\<rparr>"

definition sample_world :: catalog_world where
  "sample_world = \<lparr>cw_manifests = Map.empty, cw_requests = []\<rparr>"

definition sample_detail :: catalog_detail where
  "sample_detail = projr (fst (CatalogDetail sample_env ''show'' sample_world))"

definition sample_after :: catalog_world where
  "sample_after = snd (CatalogDetail sample_env ''show'' sample_world)"

lemma sample_detail_run: "CatalogDetail sample_env ''show'' sample_world = (Inr sample_detail, sample_after)"
proof -
  have "\<not> isl (fst (CatalogDetail sample_env ''show'' sample_world))" by code_simp
  then have "fst (CatalogDetail sample_env ''show'' sample_world) = Inr sample_detail"
    unfolding sample_detail_def by (metis sum.collapse(2))
  then show ?thesis by (simp add: sample_after_def prod_eq_iff)
qed

lemma detail_lists_every_source_witness:
  "seasons_wf (cd_Seasons sample_detail) \<and> list_all (listed sample_detail) [sample_source ''1'' 1 1, sample_source ''2'' 1 2]"
  by (rule detail_lists_every_source[OF sample_detail_run]) (simp add: sample_env_def)

definition sample_index :: catalog_index where
  "sample_index = the (catalogState (cv_downloads sample_env) (cv_playback sample_env))"

lemma detail_states_roll_up_witness: "rolled_up sample_index sample_detail"
proof (rule detail_states_roll_up[OF sample_detail_run])
  show "catalogState (cv_downloads sample_env) (cv_playback sample_env) = Some sample_index"
    by (simp add: sample_index_def catalogState_def sample_env_def)
  have "ct_Kind (cd_Title (projr (fst (CatalogDetail sample_env ''show'' sample_world)))) = MediaSeries" by code_simp
  then show "ct_Kind (cd_Title sample_detail) \<noteq> MediaMovie" by (simp add: sample_detail_def MediaSeries_def MediaMovie_def)
qed

lemma pack_state_own_files_witness:
  "pack_spec ''1'' [] \<and> packSourceState ''1'' [episode_of (1, 1) [sample_source ''1'' 1 1, sample_source ''2'' 1 1]]
     = packSourceState ''1'' (map (\<lambda>e. e\<lparr>ce_Sources := filter (\<lambda>s. rel_ID (cs_Release s) = ''1'') (ce_Sources e)\<rparr>)
         [episode_of (1, 1) [sample_source ''1'' 1 1, sample_source ''2'' 1 1]])"
proof
  show "pack_spec ''1'' []" by (rule conjunct1[OF pack_state_own_files]) (simp add: pack_sources_def)
  have "(\<Sum>s\<leftarrow>pack_sources ''1'' [episode_of (1, 1) [sample_source ''1'' 1 1, sample_source ''2'' 1 1]]. weight_of s) < 2 ^ 63" by code_simp
  from conjunct2[OF pack_state_own_files[OF this]]
  show "packSourceState ''1'' [episode_of (1, 1) [sample_source ''1'' 1 1, sample_source ''2'' 1 1]]
     = packSourceState ''1'' (map (\<lambda>e. e\<lparr>ce_Sources := filter (\<lambda>s. rel_ID (cs_Release s) = ''1'') (ce_Sources e)\<rparr>)
         [episode_of (1, 1) [sample_source ''1'' 1 1, sample_source ''2'' 1 1]])" .
qed

lemma CatalogTitles_page_witness:
  "\<exists>sources. CatalogTitles sample_env (Some ([''series''], [], 1)) =
     Inr (map (list_title sample_env sources) (filter (\<lambda>tid. tid \<in> set (first_ids (cv_hash sample_env) sources)) [''series'']), [], 1)"
  by (rule exI, rule CatalogTitles_page) (simp add: sample_env_def)

text \<open>
  (\<open>sourcesState\<close>) The list of titles takes any downloaded version for the whole title,
  whatever its kind: a series of two episodes, one of them downloaded, is downloaded in the
  list and partly downloaded in its detail.
\<close>

theorem list_and_detail_disagree:
  "map (\<lambda>t. ms_DownloadState (ct_LibraryState t))
     (fst (projr (CatalogTitles sample_env (Some ([title_key (named ''Show'') (cs_Parsed (sample_source ''1'' 1 1))], [], 1)))))
     = [''downloaded'']
   \<and> ms_DownloadState (ct_LibraryState (cd_Title (projr (fst (CatalogDetail sample_env ''show'' sample_world))))) = ''partial''"
  by code_simp

lemma ParseRelease_episode:
  assumes "leading_group (trim_space (rel_Name r)) = (g, name)"
  shows "pa_EpisodeStart (ParseRelease r) = pa_EpisodeStart (fst (parse_numbers name (no_release\<lparr>pa_ReleaseGroup := g\<rparr>)))"
proof -
  have "pa_EpisodeStart (fst (parse_year name q)) = pa_EpisodeStart (fst q)" for q
    by (cases q) (simp add: parse_year_def split: option.splits)
  then show ?thesis by (simp add: ParseRelease_def assms Let_def split_def)
qed

lemma episodeSource_None: "episodeSource base f = None \<longleftrightarrow> pa_EpisodeStart (ParseRelease (named (tf_Path f))) \<le> 0"
proof -
  have "ParseRelease ((cs_Release base)\<lparr>rel_Name := tf_Path f, rel_SizeBytes := tf_SizeBytes f\<rparr>) = ParseRelease (named (tf_Path f))"
    by (simp add: ParseRelease_def named_def)
  then show ?thesis by (simp add: episodeSource_def Let_def)
qed

text \<open>
  (\<open>episodeSource\<close>) The name of a file in a torrent is its path, and the patterns know
  no slash: an episode at the top is found, the same file in a directory is not.
\<close>

theorem nested_episode_missed:
  "let file = \<lambda>path. \<lparr>tf_Index = 0, tf_Path = path, tf_SizeBytes = 1, tf_Progress = 0, tf_Priority = 1, tf_Offset = 0, tf_Playable = True\<rparr>
   in episodeSource (sample_source ''1'' 1 0) (file ''S01E02.mkv'') \<noteq> None
     \<and> episodeSource (sample_source ''1'' 1 0) (file ''S1/S01E02.mkv'') = None"
proof -
  have "find episodeRE ''S01E02.mkv'' = Some (0, 7, [(2, 4, 6), (1, 1, 3)])" by code_simp
  moreover have "atoi (group_text [(2, 4, 6), (1, 1, 3)] 2 ''S01E02.mkv'') = 2" by code_simp
  moreover have "leading_group (trim_space (rel_Name (named ''S01E02.mkv''))) = ([], ''S01E02.mkv'')" by code_simp
  ultimately have "pa_EpisodeStart (ParseRelease (named ''S01E02.mkv'')) = 2"
    by (simp add: ParseRelease_episode parse_numbers_def episode_numbers_def)
  moreover have "find episodeRE ''S1/S01E02.mkv'' = None" "find episodeAltRE ''S1/S01E02.mkv'' = None"
    "find seasonRE ''S1/S01E02.mkv'' = None" "find seasonWordRE ''S1/S01E02.mkv'' = None" by code_simp+
  moreover have "leading_group (trim_space (rel_Name (named ''S1/S01E02.mkv''))) = ([], ''S1/S01E02.mkv'')" by code_simp
  ultimately show ?thesis
    by (simp add: Let_def episodeSource_None ParseRelease_episode parse_numbers_def no_release_def)
qed

end
