(* ===== verification/Artwork.thy ===== *)
theory Artwork
  imports TitleDetail
begin

text \<open>
  The artwork cache, \<open>Service.Artwork\<close> of \<open>internal/application/catalog.go\<close>: a poster or backdrop is
  fetched once and kept in the cache directory, written to a temporary name and renamed.
  The disk is a table of names over numbered files, because a rename moves a file that
  another request may still have open.
\<close>

section \<open>The disk\<close>

record artwork_disk =
  ad_names :: "string \<rightharpoonup> nat"
  ad_data :: "nat \<rightharpoonup> string"
  ad_next :: nat
  ad_handles :: "nat \<rightharpoonup> nat \<times> nat"

text \<open>\<open>ad_handles\<close> has the open file and the offset of a request.\<close>

datatype artwork_op = OpenTmp string | WriteBytes string | RenameTo string string | RemoveName string

definition write_at :: "nat \<Rightarrow> string \<Rightarrow> string \<Rightarrow> string" where
  "write_at off new old = take off old @ replicate (off - length old) (CHR 0x00) @ new @ drop (off + length new) old"

fun disk_op :: "nat \<Rightarrow> artwork_op \<Rightarrow> artwork_disk \<Rightarrow> artwork_disk" where
  "disk_op t (OpenTmp n) d =
     (case ad_names d n of
        Some i \<Rightarrow> d\<lparr>ad_data := (ad_data d)(i \<mapsto> []), ad_handles := (ad_handles d)(t \<mapsto> (i, 0))\<rparr>
      | None \<Rightarrow> (let i = ad_next d in d\<lparr>ad_names := (ad_names d)(n \<mapsto> i), ad_data := (ad_data d)(i \<mapsto> []), ad_next := Suc i,
          ad_handles := (ad_handles d)(t \<mapsto> (i, 0))\<rparr>))"
| "disk_op t (WriteBytes s) d =
     (case ad_handles d t of
        None \<Rightarrow> d
      | Some (i, off) \<Rightarrow> d\<lparr>ad_data := (ad_data d)(i \<mapsto> write_at off s (case ad_data d i of None \<Rightarrow> [] | Some b \<Rightarrow> b)),
          ad_handles := (ad_handles d)(t \<mapsto> (i, off + length s))\<rparr>)"
| "disk_op t (RenameTo a b) d =
     (case ad_names d a of None \<Rightarrow> d | Some i \<Rightarrow> d\<lparr>ad_names := (ad_names d)(a := None, b \<mapsto> i)\<rparr>)"
| "disk_op t (RemoveName n) d = d\<lparr>ad_names := (ad_names d)(n := None)\<rparr>"

definition content :: "artwork_disk \<Rightarrow> string \<Rightarrow> string option" where
  "content d n = (case ad_names d n of None \<Rightarrow> None | Some i \<Rightarrow> ad_data d i)"

definition run_ops :: "(nat \<times> artwork_op) list \<Rightarrow> artwork_disk \<Rightarrow> artwork_disk" where
  "run_ops ops d = fold (\<lambda>(t, a). disk_op t a) ops d"

section \<open>One request\<close>

datatype artwork_error = InvalidKind | MetadataError | ArtworkUnavailable | DownloadError | CacheError | ArtworkTooLarge

text \<open>
  The body as the provider delivers it, its content type and whether the stream then breaks;
  the outcomes of the calls on the disk.
\<close>

record artwork_env =
  aw_hash :: "string \<Rightarrow> string"
  aw_root :: string
  aw_metadata :: "string \<Rightarrow> catalog_metadata option"
  aw_provider :: bool
  aw_open :: "(string \<times> string \<times> bool) option"
  aw_mkdirOk :: bool
  aw_createOk :: bool
  aw_closeOk :: bool
  aw_renameOk :: bool
  aw_removeOk :: bool

definition artwork_limit :: int where "artwork_limit = 16 * 1024 * 1024"

definition mime_of :: "string \<Rightarrow> string" where
  "mime_of ext = (if ext = ''.jpg'' then ''image/jpeg'' else if ext = ''.png'' then ''image/png'' else ''image/webp'')"

definition artwork_ext :: "string \<Rightarrow> string" where
  "artwork_ext contentType = (if contains_str contentType ''png'' then ''.png''
     else if contains_str contentType ''webp'' then ''.webp'' else ''.jpg'')"

definition artwork_base :: "artwork_env \<Rightarrow> string \<Rightarrow> string \<Rightarrow> string \<Rightarrow> string" where
  "artwork_base env titleID kind remote = aw_hash env (titleID @ [CHR 0x00] @ kind @ [CHR 0x00] @ remote)"

definition artwork_path :: "artwork_env \<Rightarrow> string \<Rightarrow> string \<Rightarrow> string" where
  "artwork_path env base ext = path_join [aw_root env, base @ ext]"

text \<open>
  The part after the download: what is done to the disk and what is answered. The copy stops
  one byte behind the limit.
\<close>

definition save_artwork :: "artwork_env \<Rightarrow> string \<Rightarrow> string \<Rightarrow> string \<Rightarrow> bool \<Rightarrow> artwork_op list \<times> (artwork_error + string \<times> string)" where
  "save_artwork env path contentType body broken =
     (let tmp = path @ ''.tmp''; bytes = read_limited (artwork_limit + 1) body; copyErr = (broken \<and> int (length body) \<le> artwork_limit);
          remove = (if aw_removeOk env then [RemoveName tmp] else []) in
      if \<not> aw_mkdirOk env \<or> \<not> aw_createOk env then ([], Inl CacheError)
      else if copyErr \<or> \<not> aw_closeOk env \<or> int (length bytes) > artwork_limit
      then ([OpenTmp tmp, WriteBytes bytes] @ remove,
        Inl (if copyErr then DownloadError else if \<not> aw_closeOk env then CacheError else ArtworkTooLarge))
      else if \<not> aw_renameOk env then ([OpenTmp tmp, WriteBytes bytes] @ remove, Inl CacheError)
      else ([OpenTmp tmp, WriteBytes bytes, RenameTo tmp path], Inr (path, contentType)))"

definition remote_path :: "string \<Rightarrow> catalog_metadata \<Rightarrow> string" where
  "remote_path kind m = (if kind = ''backdrop'' then md_BackdropPath m else md_PosterPath m)"

definition cached_artwork :: "artwork_env \<Rightarrow> string \<Rightarrow> artwork_disk \<Rightarrow> (string \<times> string) option" where
  "cached_artwork env base d = map_option (\<lambda>ext. (artwork_path env base ext, mime_of ext))
     (List.find (\<lambda>ext. ad_names d (artwork_path env base ext) \<noteq> None) [''.jpg'', ''.png'', ''.webp''])"

definition Artwork :: "artwork_env \<Rightarrow> string \<Rightarrow> string \<Rightarrow> artwork_disk \<Rightarrow> artwork_op list \<times> (artwork_error + string \<times> string)" where
  "Artwork env titleID kind d =
     (if kind \<noteq> ''poster'' \<and> kind \<noteq> ''backdrop'' then ([], Inl InvalidKind)
      else case aw_metadata env titleID of
        None \<Rightarrow> ([], Inl MetadataError)
      | Some m \<Rightarrow>
          if remote_path kind m = [] \<or> \<not> aw_provider env then ([], Inl ArtworkUnavailable)
          else let base = artwork_base env titleID kind (remote_path kind m) in
            (case cached_artwork env base d of
               Some hit \<Rightarrow> ([], Inr hit)
             | None \<Rightarrow> (case aw_open env of
                 None \<Rightarrow> ([], Inl DownloadError)
               | Some (body, contentType, broken) \<Rightarrow>
                   save_artwork env (artwork_path env base (artwork_ext contentType)) contentType body broken)))"

section \<open>What a request leaves in the cache\<close>

definition disk_ok :: "artwork_disk \<Rightarrow> bool" where
  "disk_ok d \<longleftrightarrow> inj_on (ad_names d) (dom (ad_names d)) \<and> (\<forall>i\<in>ran (ad_names d). i < ad_next d \<and> ad_data d i \<noteq> None)"

lemma write_new: "write_at 0 s [] = s"
  by (simp add: write_at_def)

lemma disk_okD: "disk_ok d \<Longrightarrow> ad_names d n = Some i \<Longrightarrow> ad_names d n' = Some i \<Longrightarrow> n' = n"
  by (force simp: disk_ok_def inj_on_def dom_def)

text \<open>Opening and filling the temporary file.\<close>

definition filled :: "nat \<Rightarrow> string \<Rightarrow> string \<Rightarrow> artwork_disk \<Rightarrow> artwork_disk" where
  "filled t n s d = run_ops [(t, OpenTmp n), (t, WriteBytes s)] d"

lemma fill_tmp:
  assumes "disk_ok d"
  shows "content (filled t n s d) n = Some s" "n' \<noteq> n \<Longrightarrow> content (filled t n s d) n' = content d n'"
    "n' \<noteq> n \<Longrightarrow> ad_names (filled t n s d) n' = ad_names d n'" "disk_ok (filled t n s d)"
proof -
  have fresh: "i < ad_next d" if "ad_names d m = Some i" for m i using assms that by (force simp: disk_ok_def ran_def)
  have data: "ad_data d i \<noteq> None" if "ad_names d m = Some i" for m i using assms that by (force simp: disk_ok_def ran_def)
  show "content (filled t n s d) n = Some s"
    by (cases "ad_names d n") (simp_all add: filled_def run_ops_def content_def write_new Let_def)
  show "ad_names (filled t n s d) n' = ad_names d n'" if "n' \<noteq> n"
    using that by (cases "ad_names d n") (simp_all add: filled_def run_ops_def Let_def)
  show "content (filled t n s d) n' = content d n'" if "n' \<noteq> n"
  proof (cases "ad_names d n")
    case None
    then show ?thesis using that fresh[of n'] by (auto simp: filled_def run_ops_def content_def Let_def split: option.splits)
  next
    case (Some i)
    then have "ad_names d n' \<noteq> Some i" using disk_okD[OF assms, of n i n'] that by auto
    with Some show ?thesis using that by (auto simp: filled_def run_ops_def content_def split: option.splits)
  qed
  show "disk_ok (filled t n s d)"
  proof (cases "ad_names d n")
    case None
    let ?f = "(ad_names d)(n \<mapsto> ad_next d)"
    have "inj_on ?f (dom ?f)"
    proof (rule inj_onI)
      fix a b assume e: "a \<in> dom ?f" "b \<in> dom ?f" "?f a = ?f b"
      then show "a = b" using disk_okD[OF assms] fresh by (auto split: if_splits) (metis less_irrefl)+
    qed
    moreover have "\<forall>i\<in>ran ?f. i < Suc (ad_next d) \<and> ((ad_data d)(ad_next d \<mapsto> s)) i \<noteq> None"
      using fresh data by (auto simp: ran_def less_SucI split: if_splits)
    ultimately show ?thesis using None by (simp add: filled_def run_ops_def disk_ok_def Let_def write_new)
  next
    case (Some i)
    then show ?thesis using assms by (auto simp: filled_def run_ops_def disk_ok_def)
  qed
qed

lemma disk_ok_remove: "disk_ok d \<Longrightarrow> disk_ok (disk_op t (RemoveName n) d)"
  by (auto simp: disk_ok_def inj_on_def ran_def dom_def split: if_splits)

lemma disk_ok_rename: "disk_ok d \<Longrightarrow> disk_ok (disk_op t (RenameTo a b) d)"
proof (cases "ad_names d a")
  case (Some i)
  assume ok: "disk_ok d"
  let ?f = "(ad_names d)(a := None, b \<mapsto> i)"
  have "inj_on ?f (dom ?f)"
  proof (rule inj_onI)
    fix x y assume "x \<in> dom ?f" "y \<in> dom ?f" "?f x = ?f y"
    then show "x = y" using disk_okD[OF ok] Some by (auto split: if_splits)
  qed
  moreover have "ran ?f \<subseteq> ran (ad_names d)" using Some by (auto simp: ran_def split: if_splits)
  ultimately show ?thesis using ok Some by (auto simp: disk_ok_def)
qed simp

text \<open>
  What may be found behind a name after a request: what was there before, the temporary file,
  or a whole image that the request reports.
\<close>

definition artwork_kept :: "artwork_env \<Rightarrow> artwork_disk \<Rightarrow> artwork_disk \<Rightarrow> (artwork_error + string \<times> string) \<Rightarrow> bool" where
  "artwork_kept env d d' r \<longleftrightarrow>
     (\<forall>n. content d' n = content d n \<or> has_suffix n ''.tmp''
        \<or> (\<exists>body ct. aw_open env = Some (body, ct, False) \<and> int (length body) \<le> artwork_limit
             \<and> r = Inr (n, ct) \<and> content d' n = Some body))
     \<and> (case r of Inr (path, _) \<Rightarrow> ad_names d' path \<noteq> None | Inl _ \<Rightarrow> True)"

lemma tmp_suffix: "has_suffix (p @ ''.tmp'') ''.tmp''"
  by (auto simp: has_suffix_def suffix_def)

lemma content_remove: "n' \<noteq> n \<Longrightarrow> content (disk_op t (RemoveName n) d) n' = content d n'"
  by (simp add: content_def split: option.splits)

lemma content_rename:
  assumes "ad_names d a = Some i" "a \<noteq> b"
  shows "content (disk_op t (RenameTo a b) d) b = content d a" "n \<noteq> a \<Longrightarrow> n \<noteq> b \<Longrightarrow> content (disk_op t (RenameTo a b) d) n = content d n"
    "ad_names (disk_op t (RenameTo a b) d) b = Some i"
  using assms by (simp_all add: content_def split: option.splits)

lemma run_fill: "run_ops (map (Pair t) ([OpenTmp n, WriteBytes s] @ ops)) d = run_ops (map (Pair t) ops) (filled t n s d)"
  by (simp add: run_ops_def filled_def)

lemma fill_remove:
  assumes "disk_ok d" "ops = [] \<or> ops = [RemoveName (p @ ''.tmp'')]"
  shows "artwork_kept env d (run_ops (map (Pair t) ([OpenTmp (p @ ''.tmp''), WriteBytes s] @ ops)) d) (Inl e)
    \<and> disk_ok (run_ops (map (Pair t) ([OpenTmp (p @ ''.tmp''), WriteBytes s] @ ops)) d)"
proof -
  let ?n = "p @ ''.tmp''" and ?f = "filled t (p @ ''.tmp'') s d"
  have f: "content ?f n = content d n \<or> has_suffix n ''.tmp''" for n
    using fill_tmp(2)[OF assms(1), of n ?n t s] tmp_suffix[of p] by (cases "n = ?n") simp_all
  from assms(2) show ?thesis
  proof
    assume "ops = []"
    then show ?thesis unfolding run_fill using f fill_tmp(4)[OF assms(1)] by (simp add: artwork_kept_def run_ops_def)
  next
    assume o: "ops = [RemoveName ?n]"
    have "content (disk_op t (RemoveName ?n) ?f) n = content d n \<or> has_suffix n ''.tmp''" for n
      using f[of n] content_remove[of n ?n t ?f] tmp_suffix[of p] by (cases "n = ?n") simp_all
    then show ?thesis unfolding run_fill o using disk_ok_remove[OF fill_tmp(4)[OF assms(1)]]
      by (simp add: artwork_kept_def run_ops_def)
  qed
qed

lemma two_ways:
  assumes "(if p then ([], Inl e) else if q then (xs, Inl e') else z) = (ops, r)" "p \<or> q"
    "\<And>e. ops = [] \<and> r = Inl e \<or> ops = xs \<and> r = Inl e \<Longrightarrow> thesis"
  shows thesis
  using assms by (cases p; cases q) auto

lemma save_artwork_kept:
  assumes "disk_ok d" "aw_open env = Some (body, ct, broken)" "save_artwork env path ct body broken = (ops, r)"
  shows "artwork_kept env d (run_ops (map (Pair t) ops) d) r \<and> disk_ok (run_ops (map (Pair t) ops) d)"
proof -
  let ?tmp = "path @ ''.tmp''" and ?bytes = "read_limited (artwork_limit + 1) body"
  have idle: "artwork_kept env d (run_ops (map (Pair t) []) d) (Inl e) \<and> disk_ok (run_ops (map (Pair t) []) d)" for e
    using assms(1) by (simp add: artwork_kept_def run_ops_def)
  let ?rm = "if aw_removeOk env then [RemoveName ?tmp] else []"
  have drop: "artwork_kept env d (run_ops (map (Pair t) ([OpenTmp ?tmp, WriteBytes ?bytes] @ ?rm)) d) (Inl e)
      \<and> disk_ok (run_ops (map (Pair t) ([OpenTmp ?tmp, WriteBytes ?bytes] @ ?rm)) d)" for e
    by (rule fill_remove[OF assms(1)]) simp
  have ops: "save_artwork env path ct body broken =
     (if \<not> aw_mkdirOk env \<or> \<not> aw_createOk env then ([], Inl CacheError)
      else if (broken \<and> int (length body) \<le> artwork_limit) \<or> \<not> aw_closeOk env \<or> int (length ?bytes) > artwork_limit \<or> \<not> aw_renameOk env
      then ([OpenTmp ?tmp, WriteBytes ?bytes] @ ?rm, Inl (if broken \<and> int (length body) \<le> artwork_limit then DownloadError
        else if \<not> aw_closeOk env then CacheError else if int (length ?bytes) > artwork_limit then ArtworkTooLarge else CacheError))
      else ([OpenTmp ?tmp, WriteBytes ?bytes] @ [RenameTo ?tmp path], Inr (path, ct)))"
    by (auto simp: save_artwork_def Let_def)
  show ?thesis
  proof (cases "\<not> aw_mkdirOk env \<or> \<not> aw_createOk env \<or> (broken \<and> int (length body) \<le> artwork_limit) \<or> \<not> aw_closeOk env
      \<or> int (length ?bytes) > artwork_limit \<or> \<not> aw_renameOk env")
    case True
    then obtain e where "ops = [] \<and> r = Inl e \<or> ops = [OpenTmp ?tmp, WriteBytes ?bytes] @ ?rm \<and> r = Inl e"
      using two_ways[OF assms(3)[unfolded ops]] by blast
    then show ?thesis
    proof
      assume "ops = [] \<and> r = Inl e"
      then have o: "ops = []" "r = Inl e" by blast+
      show ?thesis unfolding o by (rule idle)
    next
      assume "ops = [OpenTmp ?tmp, WriteBytes ?bytes] @ ?rm \<and> r = Inl e"
      then show ?thesis using drop[of e] by (elim conjE) (simp only:)
    qed
  next
    case False
    then have "int (length ?bytes) \<le> artwork_limit" by auto
    then have len: "int (length body) \<le> artwork_limit" by (auto simp: read_limited_def artwork_limit_def split: if_splits)
    with False have b: "\<not> broken" by auto
    have bytes: "?bytes = body" using len by (simp add: read_limited_def)
    have r: "ops = [OpenTmp ?tmp, WriteBytes ?bytes] @ [RenameTo ?tmp path]" "r = Inr (path, ct)"
      using assms(3) False unfolding ops by auto
    let ?f = "filled t ?tmp body d"
    note f = fill_tmp[OF assms(1)]
    obtain i where i: "ad_names ?f ?tmp = Some i" using f(1)[of t ?tmp body] by (auto simp: content_def split: option.splits)
    have ne: "?tmp \<noteq> path" by simp
    note c = content_rename[OF i ne, where t = t]
    have "content (disk_op t (RenameTo ?tmp path) ?f) n = content d n \<or> has_suffix n ''.tmp''
        \<or> n = path \<and> content (disk_op t (RenameTo ?tmp path) ?f) n = Some body" for n
      using c(1) c(2)[of n] f(1)[of t ?tmp body] f(2)[of n ?tmp t body] tmp_suffix[of path] by (cases "n = ?tmp"; cases "n = path") auto
    then show ?thesis
      unfolding r run_fill bytes using c(3) disk_ok_rename[OF f(4)[of t ?tmp body]] len b assms(2)
      by (auto simp: artwork_kept_def run_ops_def)
  qed
qed

text \<open>
  Property C29. (\<open>Artwork\<close>) A request on its own leaves behind every name of the cache what was there
  before or the whole image it reports, at most 16 MiB of it, whatever fails on the way;
  a broken or oversized download never becomes an entry.
\<close>

theorem artwork_cache_complete:
  assumes "disk_ok d" "Artwork env titleID kind d = (ops, r)"
  shows "artwork_kept env d (run_ops (map (Pair t) ops) d) r \<and> disk_ok (run_ops (map (Pair t) ops) d)"
proof -
  have fails: "artwork_kept env d (run_ops (map (Pair t) []) d) (Inl e) \<and> disk_ok (run_ops (map (Pair t) []) d)" for e
    using assms(1) by (simp add: artwork_kept_def run_ops_def)
  have hit: "artwork_kept env d (run_ops (map (Pair t) []) d) (Inr h) \<and> disk_ok (run_ops (map (Pair t) []) d)"
    if "cached_artwork env base d = Some h" for base h
    using that assms(1) by (auto simp: artwork_kept_def run_ops_def cached_artwork_def split: if_splits)
  have all: "artwork_kept env d (run_ops (map (Pair t) (fst x)) d) (snd x) \<and> disk_ok (run_ops (map (Pair t) (fst x)) d)"
    if "x = Artwork env titleID kind d" for x
    unfolding that Artwork_def Let_def
    using fails hit save_artwork_kept[OF assms(1) _ prod.collapse[symmetric]]
    by (simp split: option.splits prod.splits)
  show ?thesis using all[OF assms(2)[symmetric]] by simp
qed

section \<open>Two requests for one image\<close>

definition empty_disk :: artwork_disk where
  "empty_disk = \<lparr>ad_names = Map.empty, ad_data = Map.empty, ad_next = 0, ad_handles = Map.empty\<rparr>"

definition sample_artwork :: "string \<Rightarrow> bool \<Rightarrow> artwork_env" where
  "sample_artwork body broken = \<lparr>aw_hash = (\<lambda>_. ''k''), aw_root = ''/c'',
     aw_metadata = (\<lambda>_. Some \<lparr>md_TitleID = ''t'', md_Provider = [], md_ProviderID = [], md_Title = [], md_OriginalTitle = [],
       md_Overview = [], md_PosterPath = ''/p.jpg'', md_BackdropPath = [], md_Language = [], md_Rating = 0, md_RatingVotes = 0,
       md_RatingProvider = [], md_FetchedAt = 0, md_ExpiresAt = 0, md_LastError = []\<rparr>),
     aw_provider = True, aw_open = Some (body, ''image/jpeg'', broken), aw_mkdirOk = True, aw_createOk = True, aw_closeOk = True,
     aw_renameOk = True, aw_removeOk = True\<rparr>"

lemma artwork_cache_complete_witness:
  "let env = sample_artwork ''img'' False; run = Artwork env ''t'' ''poster'' empty_disk; d' = run_ops (map (Pair 0) (fst run)) empty_disk
   in artwork_kept env empty_disk d' (snd run) \<and> disk_ok d'"
  unfolding Let_def
  by (rule artwork_cache_complete[of empty_disk _ "''t''" "''poster''"]) (simp_all add: empty_disk_def disk_ok_def)

text \<open>The operations of two requests in some order of the scheduler.\<close>

fun interleaved :: "artwork_op list \<Rightarrow> artwork_op list \<Rightarrow> (nat \<times> artwork_op) list \<Rightarrow> bool" where
  "interleaved as bs [] \<longleftrightarrow> as = [] \<and> bs = []"
| "interleaved as bs ((t, a) # ops) \<longleftrightarrow>
     (t = 0 \<and> as \<noteq> [] \<and> hd as = a \<and> interleaved (tl as) bs ops) \<or> (t = 1 \<and> bs \<noteq> [] \<and> hd bs = a \<and> interleaved as (tl bs) ops)"

definition race_order :: "(nat \<times> artwork_op) list" where
  "race_order = [(0, OpenTmp ''/c/k.jpg.tmp''), (0, WriteBytes ''img''), (1, OpenTmp ''/c/k.jpg.tmp''), (0, RenameTo ''/c/k.jpg.tmp'' ''/c/k.jpg''),
     (1, WriteBytes []), (1, RemoveName ''/c/k.jpg.tmp'')]"


end
