(* ===== verification/Settings.thy ===== *)
theory Settings
  imports Paths Strconv EvictionRules
begin

text \<open>
  The settings store, \<open>internal/platform/config\<close>: \<open>config.go\<close> (defaults, environment
  overlay, path anchoring, validation, \<open>LoadAt\<close> and \<open>Save\<close>), the required keys of
  \<open>onboarding.go\<close>, and the redacted view of \<open>internal/adapters/httpapi/schema.go\<close>.

  The store is the record \<open>store\<close>, with the settings its file holds beside the fields of
  \<open>Store\<close>. The process environment and the parsers of the standard library that only
  accept or reject (\<open>netip.ParsePrefix\<close>, \<open>url.Parse\<close>, \<open>strconv.ParseFloat\<close>) are the record
  \<open>process\<close>. JSON decoding of the file over the defaults is an input of \<open>LoadAt\<close>. Floats
  are finite: the NaN and infinities that \<open>ParseFloat\<close> reads and \<open>validate\<close> rejects are
  rejected by the parser here.
\<close>

section \<open>The settings\<close>

definition MiB :: int where "MiB = 1048576"

record settings =
  cf_InstanceName :: string
  cf_ListenAddress :: string
  cf_TrustedCIDRs :: "string list"
  cf_DatabasePath :: string
  cf_DownloadRoot :: string
  cf_FileListURL :: string
  cf_FileListUsername :: string
  cf_FileListPasskey :: string
  cf_QBittorrentURL :: string
  cf_QBittorrentUsername :: string
  cf_QBittorrentPassword :: string
  cf_DownloadEngine :: string
  cf_TorrentPeerPort :: int64
  cf_TorrentSessionDir :: string
  cf_InitialBufferBytes :: int64
  cf_ReadAheadBytes :: int64
  cf_PieceWaitTimeoutSeconds :: int64
  cf_StreamStartBytes :: int64
  cf_CatalogMaxAgeHours :: int64
  cf_AllocationGB :: float64
  cf_ReserveGB :: float64
  cf_EvictionRules :: "string list"
  cf_ProtectIncomplete :: bool
  cf_ProtectLeased :: bool
  cf_ProtectFavorites :: bool
  cf_ProtectNeverWatched :: bool
  cf_PreferredSubtitleLanguage :: string
  cf_FallbackSubtitleLanguage :: string
  cf_PreferredAudioLanguage :: string
  cf_TMDBAPIKey :: string
  cf_MetadataLanguage :: string
  cf_MetadataFallbackLanguage :: string
  cf_ArtworkCachePath :: string
  cf_ArtworkCacheMaxBytes :: int64
  cf_SubDLURL :: string
  cf_SubDLAPIKey :: string
  cf_SubtitleCachePath :: string
  cf_SubtitleCacheMaxBytes :: int64
  cf_FFprobePath :: string
  cf_FFmpegPath :: string
  cf_WatchedThresholdPercent :: int64
  cf_MaxConcurrentJobs :: int64
  cf_TitleRefreshTimeoutMinutes :: int64
  cf_PortalAPIKey :: string

definition Defaults :: settings where
  "Defaults = \<lparr>cf_InstanceName = ''FileList Streaming'', cf_ListenAddress = '':8097'',
     cf_TrustedCIDRs = [''127.0.0.0/8'', ''::1/128'', ''10.0.0.0/8'', ''172.16.0.0/12'', ''192.168.0.0/16''],
     cf_DatabasePath = ''data/filelist.db'', cf_DownloadRoot = ''data/downloads'',
     cf_FileListURL = ''https://filelist.io'', cf_FileListUsername = [],
     cf_FileListPasskey = [], cf_QBittorrentURL = ''http://127.0.0.1:8080'',
     cf_QBittorrentUsername = [], cf_QBittorrentPassword = [], cf_DownloadEngine = ''native'',
     cf_TorrentPeerPort = 42069, cf_TorrentSessionDir = ''data/torrent-session'',
     cf_InitialBufferBytes = 128 * MiB, cf_ReadAheadBytes = 256 * MiB,
     cf_PieceWaitTimeoutSeconds = 600, cf_StreamStartBytes = 2 * MiB,
     cf_CatalogMaxAgeHours = 24, cf_AllocationGB = 15, cf_ReserveGB = 8,
     cf_EvictionRules = [''oldest-completed''], cf_ProtectIncomplete = True,
     cf_ProtectLeased = True, cf_ProtectFavorites = False, cf_ProtectNeverWatched = False,
     cf_PreferredSubtitleLanguage = ''ro'', cf_FallbackSubtitleLanguage = ''en'',
     cf_PreferredAudioLanguage = ''en'', cf_TMDBAPIKey = [], cf_MetadataLanguage = ''ro-RO'',
     cf_MetadataFallbackLanguage = ''en-US'', cf_ArtworkCachePath = ''data/artwork'',
     cf_ArtworkCacheMaxBytes = 512 * MiB, cf_SubDLURL = ''https://api.subdl.com'',
     cf_SubDLAPIKey = [], cf_SubtitleCachePath = ''data/subtitles'',
     cf_SubtitleCacheMaxBytes = 256 * MiB, cf_FFprobePath = ''/usr/bin/ffprobe'',
     cf_FFmpegPath = ''/usr/bin/ffmpeg'', cf_WatchedThresholdPercent = 90,
     cf_MaxConcurrentJobs = 10, cf_TitleRefreshTimeoutMinutes = 30, cf_PortalAPIKey = []\<rparr>"

text \<open>
  The reflection over the struct: each field's JSON key with its kind, its value and its
  assignment, in the order of declaration.
\<close>

datatype setting_field =
    StringField "settings \<Rightarrow> string" "string \<Rightarrow> settings \<Rightarrow> settings"
  | IntField "settings \<Rightarrow> int64" "int64 \<Rightarrow> settings \<Rightarrow> settings"
  | BoolField "settings \<Rightarrow> bool" "bool \<Rightarrow> settings \<Rightarrow> settings"
  | FloatField "settings \<Rightarrow> float64" "float64 \<Rightarrow> settings \<Rightarrow> settings"
  | ListField "settings \<Rightarrow> string list" "string list \<Rightarrow> settings \<Rightarrow> settings"

definition setting_fields :: "(string \<times> setting_field) list" where
  "setting_fields = [
     (''instanceName'', StringField cf_InstanceName (\<lambda>v. cf_InstanceName_update (\<lambda>_. v))),
     (''listenAddress'', StringField cf_ListenAddress (\<lambda>v. cf_ListenAddress_update (\<lambda>_. v))),
     (''trustedCidrs'', ListField cf_TrustedCIDRs (\<lambda>v. cf_TrustedCIDRs_update (\<lambda>_. v))),
     (''databasePath'', StringField cf_DatabasePath (\<lambda>v. cf_DatabasePath_update (\<lambda>_. v))),
     (''downloadRoot'', StringField cf_DownloadRoot (\<lambda>v. cf_DownloadRoot_update (\<lambda>_. v))),
     (''fileListUrl'', StringField cf_FileListURL (\<lambda>v. cf_FileListURL_update (\<lambda>_. v))),
     (''fileListUsername'', StringField cf_FileListUsername (\<lambda>v. cf_FileListUsername_update (\<lambda>_. v))),
     (''fileListPasskey'', StringField cf_FileListPasskey (\<lambda>v. cf_FileListPasskey_update (\<lambda>_. v))),
     (''qbittorrentUrl'', StringField cf_QBittorrentURL (\<lambda>v. cf_QBittorrentURL_update (\<lambda>_. v))),
     (''qbittorrentUsername'', StringField cf_QBittorrentUsername (\<lambda>v. cf_QBittorrentUsername_update (\<lambda>_. v))),
     (''qbittorrentPassword'', StringField cf_QBittorrentPassword (\<lambda>v. cf_QBittorrentPassword_update (\<lambda>_. v))),
     (''downloadEngine'', StringField cf_DownloadEngine (\<lambda>v. cf_DownloadEngine_update (\<lambda>_. v))),
     (''torrentPeerPort'', IntField cf_TorrentPeerPort (\<lambda>v. cf_TorrentPeerPort_update (\<lambda>_. v))),
     (''torrentSessionDir'', StringField cf_TorrentSessionDir (\<lambda>v. cf_TorrentSessionDir_update (\<lambda>_. v))),
     (''initialBufferBytes'', IntField cf_InitialBufferBytes (\<lambda>v. cf_InitialBufferBytes_update (\<lambda>_. v))),
     (''readAheadBytes'', IntField cf_ReadAheadBytes (\<lambda>v. cf_ReadAheadBytes_update (\<lambda>_. v))),
     (''pieceWaitTimeoutSeconds'', IntField cf_PieceWaitTimeoutSeconds (\<lambda>v. cf_PieceWaitTimeoutSeconds_update (\<lambda>_. v))),
     (''streamStartBytes'', IntField cf_StreamStartBytes (\<lambda>v. cf_StreamStartBytes_update (\<lambda>_. v))),
     (''catalogMaxAgeHours'', IntField cf_CatalogMaxAgeHours (\<lambda>v. cf_CatalogMaxAgeHours_update (\<lambda>_. v))),
     (''allocationGb'', FloatField cf_AllocationGB (\<lambda>v. cf_AllocationGB_update (\<lambda>_. v))),
     (''reserveGb'', FloatField cf_ReserveGB (\<lambda>v. cf_ReserveGB_update (\<lambda>_. v))),
     (''evictionRules'', ListField cf_EvictionRules (\<lambda>v. cf_EvictionRules_update (\<lambda>_. v))),
     (''protectIncomplete'', BoolField cf_ProtectIncomplete (\<lambda>v. cf_ProtectIncomplete_update (\<lambda>_. v))),
     (''protectLeased'', BoolField cf_ProtectLeased (\<lambda>v. cf_ProtectLeased_update (\<lambda>_. v))),
     (''protectFavorites'', BoolField cf_ProtectFavorites (\<lambda>v. cf_ProtectFavorites_update (\<lambda>_. v))),
     (''protectNeverWatched'', BoolField cf_ProtectNeverWatched (\<lambda>v. cf_ProtectNeverWatched_update (\<lambda>_. v))),
     (''preferredSubtitleLanguage'', StringField cf_PreferredSubtitleLanguage (\<lambda>v. cf_PreferredSubtitleLanguage_update (\<lambda>_. v))),
     (''fallbackSubtitleLanguage'', StringField cf_FallbackSubtitleLanguage (\<lambda>v. cf_FallbackSubtitleLanguage_update (\<lambda>_. v))),
     (''preferredAudioLanguage'', StringField cf_PreferredAudioLanguage (\<lambda>v. cf_PreferredAudioLanguage_update (\<lambda>_. v))),
     (''tmdbApiKey'', StringField cf_TMDBAPIKey (\<lambda>v. cf_TMDBAPIKey_update (\<lambda>_. v))),
     (''metadataLanguage'', StringField cf_MetadataLanguage (\<lambda>v. cf_MetadataLanguage_update (\<lambda>_. v))),
     (''metadataFallbackLanguage'', StringField cf_MetadataFallbackLanguage (\<lambda>v. cf_MetadataFallbackLanguage_update (\<lambda>_. v))),
     (''artworkCachePath'', StringField cf_ArtworkCachePath (\<lambda>v. cf_ArtworkCachePath_update (\<lambda>_. v))),
     (''artworkCacheMaxBytes'', IntField cf_ArtworkCacheMaxBytes (\<lambda>v. cf_ArtworkCacheMaxBytes_update (\<lambda>_. v))),
     (''subDLUrl'', StringField cf_SubDLURL (\<lambda>v. cf_SubDLURL_update (\<lambda>_. v))),
     (''subDLApiKey'', StringField cf_SubDLAPIKey (\<lambda>v. cf_SubDLAPIKey_update (\<lambda>_. v))),
     (''subtitleCachePath'', StringField cf_SubtitleCachePath (\<lambda>v. cf_SubtitleCachePath_update (\<lambda>_. v))),
     (''subtitleCacheMaxBytes'', IntField cf_SubtitleCacheMaxBytes (\<lambda>v. cf_SubtitleCacheMaxBytes_update (\<lambda>_. v))),
     (''ffprobePath'', StringField cf_FFprobePath (\<lambda>v. cf_FFprobePath_update (\<lambda>_. v))),
     (''ffmpegPath'', StringField cf_FFmpegPath (\<lambda>v. cf_FFmpegPath_update (\<lambda>_. v))),
     (''watchedThresholdPercent'', IntField cf_WatchedThresholdPercent (\<lambda>v. cf_WatchedThresholdPercent_update (\<lambda>_. v))),
     (''maxConcurrentJobs'', IntField cf_MaxConcurrentJobs (\<lambda>v. cf_MaxConcurrentJobs_update (\<lambda>_. v))),
     (''titleRefreshTimeoutMinutes'', IntField cf_TitleRefreshTimeoutMinutes (\<lambda>v. cf_TitleRefreshTimeoutMinutes_update (\<lambda>_. v))),
     (''portalAPIKey'', StringField cf_PortalAPIKey (\<lambda>v. cf_PortalAPIKey_update (\<lambda>_. v)))]"

section \<open>The environment overlay\<close>

record process =
  pr_env :: "string \<Rightarrow> string option"
  pr_float :: "string \<Rightarrow> float64 option"
  pr_prefix :: "string \<Rightarrow> bool"
  pr_absURL :: "string \<Rightarrow> bool"
  pr_cwd :: "string option"

definition EnvironmentPrefix :: string where
  "EnvironmentPrefix = ''FILELIST_STREAMING_''"

definition is_upper :: "char \<Rightarrow> bool" where
  "is_upper c \<longleftrightarrow> (let n = (of_char c :: int) in 65 \<le> n \<and> n \<le> 90)"

definition camelToEnvironment :: "string \<Rightarrow> string" where
  "camelToEnvironment value = (case value of
       [] \<Rightarrow> []
     | c # cs \<Rightarrow> ascii_upper c # concat (map (\<lambda>r. if is_upper r then [CHR ''_'', r] else [ascii_upper r]) cs))"

text \<open>\<open>strconv.ParseBool\<close>.\<close>

definition parse_bool :: "string \<Rightarrow> bool option" where
  "parse_bool s =
     (if s \<in> set [''1'', ''t'', ''T'', ''true'', ''TRUE'', ''True''] then Some True
      else if s \<in> set [''0'', ''f'', ''F'', ''false'', ''FALSE'', ''False''] then Some False
      else None)"

definition parse_items :: "string \<Rightarrow> string list" where
  "parse_items raw = filter (\<lambda>x. x \<noteq> []) (map trim_space (split_on (CHR '','') raw))"

definition set_field :: "process \<Rightarrow> setting_field \<Rightarrow> string \<Rightarrow> settings \<Rightarrow> settings option" where
  "set_field pr f raw s = (case f of
       StringField _ put \<Rightarrow> Some (put raw s)
     | IntField _ put \<Rightarrow> map_option (\<lambda>n. put n s) (parse_int64 (trim_space raw))
     | BoolField _ put \<Rightarrow> map_option (\<lambda>b. put b s) (parse_bool (trim_space raw))
     | FloatField _ put \<Rightarrow> map_option (\<lambda>x. put x s) (pr_float pr (trim_space raw))
     | ListField _ put \<Rightarrow> Some (put (parse_items raw) s))"

text \<open>The loop over the fields; the error is the variable that cannot be read.\<close>

fun apply_fields ::
  "process \<Rightarrow> (string \<times> setting_field) list \<Rightarrow> settings \<Rightarrow> string list \<Rightarrow> string + settings \<times> string list" where
  "apply_fields pr [] s managed = Inr (s, managed)"
| "apply_fields pr ((key, f) # fs) s managed =
     (let name = EnvironmentPrefix @ camelToEnvironment key in
      case pr_env pr name of
        None \<Rightarrow> apply_fields pr fs s managed
      | Some raw \<Rightarrow>
          (case set_field pr f raw s of
             None \<Rightarrow> Inl name
           | Some s' \<Rightarrow> apply_fields pr fs s' (managed @ [key])))"

definition applyEnvironment :: "process \<Rightarrow> settings \<Rightarrow> string + settings \<times> string list" where
  "applyEnvironment pr s = apply_fields pr setting_fields s []"

definition copy_field :: "setting_field \<Rightarrow> settings \<Rightarrow> settings \<Rightarrow> settings" where
  "copy_field f base s = (case f of
       StringField get put \<Rightarrow> put (get base) s
     | IntField get put \<Rightarrow> put (get base) s
     | BoolField get put \<Rightarrow> put (get base) s
     | FloatField get put \<Rightarrow> put (get base) s
     | ListField get put \<Rightarrow> put (get base) s)"

definition restoreManagedFields :: "settings \<Rightarrow> settings \<Rightarrow> string list \<Rightarrow> settings" where
  "restoreManagedFields target base managed =
     fold (\<lambda>(key, f) s. if key \<in> set managed then copy_field f base s else s) setting_fields target"

definition mergeSecrets :: "settings \<Rightarrow> settings \<Rightarrow> settings" where
  "mergeSecrets nxt old = nxt\<lparr>
     cf_FileListPasskey := (if cf_FileListPasskey nxt = [] then cf_FileListPasskey old else cf_FileListPasskey nxt),
     cf_QBittorrentPassword := (if cf_QBittorrentPassword nxt = [] then cf_QBittorrentPassword old else cf_QBittorrentPassword nxt),
     cf_TMDBAPIKey := (if cf_TMDBAPIKey nxt = [] then cf_TMDBAPIKey old else cf_TMDBAPIKey nxt),
     cf_SubDLAPIKey := (if cf_SubDLAPIKey nxt = [] then cf_SubDLAPIKey old else cf_SubDLAPIKey nxt),
     cf_PortalAPIKey := (if cf_PortalAPIKey nxt = [] then cf_PortalAPIKey old else cf_PortalAPIKey nxt)\<rparr>"

section \<open>Paths\<close>

definition anchor_path :: "string \<Rightarrow> string \<Rightarrow> string" where
  "anchor_path dir path =
     (if path = [] \<or> is_abs path then path
      else let cleaned = path_clean path in
        path_join [dir, (case cut_prefix cleaned ''data/'' of
            Some rest \<Rightarrow> rest
          | None \<Rightarrow> if cleaned = ''data'' then ''.'' else cleaned)])"

definition anchorNativePaths :: "settings \<Rightarrow> string list \<Rightarrow> string \<Rightarrow> settings" where
  "anchorNativePaths v managed dir =
     (let anchor = (\<lambda>key path. if key \<in> set managed then path else anchor_path dir path) in
      v\<lparr>cf_DatabasePath := anchor ''databasePath'' (cf_DatabasePath v),
        cf_DownloadRoot := anchor ''downloadRoot'' (cf_DownloadRoot v),
        cf_TorrentSessionDir := anchor ''torrentSessionDir'' (cf_TorrentSessionDir v),
        cf_ArtworkCachePath := anchor ''artworkCachePath'' (cf_ArtworkCachePath v),
        cf_SubtitleCachePath := anchor ''subtitleCachePath'' (cf_SubtitleCachePath v)\<rparr>)"

section \<open>Validation\<close>

definition validateRetentionGB :: "string \<Rightarrow> float64 \<Rightarrow> string option" where
  "validateRetentionGB key v =
     (if v < 0 \<or> (v \<noteq> 0 \<and> (v < 1 / 10 \<or> v > 100000)) then Some key else None)"

text \<open>\<open>validate\<close> with the setting it complains about first.\<close>

definition validate :: "process \<Rightarrow> settings \<Rightarrow> string option" where
  "validate pr v =
     (if trim_space (cf_InstanceName v) = [] \<or> cf_ListenAddress v = [] \<or> cf_DatabasePath v = [] \<or> cf_DownloadRoot v = []
        then Some ''required''
      else if cf_InitialBufferBytes v < 16 * MiB \<or> cf_InitialBufferBytes v > 2048 * MiB then Some ''initialBufferBytes''
      else if cf_ReadAheadBytes v < cf_InitialBufferBytes v \<or> cf_ReadAheadBytes v > 2048 * MiB then Some ''readAheadBytes''
      else if cf_StreamStartBytes v < 262144 \<or> cf_StreamStartBytes v > 64 * MiB then Some ''streamStartBytes''
      else if cf_PieceWaitTimeoutSeconds v < 1 then Some ''pieceWaitTimeoutSeconds''
      else if validateRetentionGB ''allocationGb'' (cf_AllocationGB v) \<noteq> None then Some ''allocationGb''
      else if validateRetentionGB ''reserveGb'' (cf_ReserveGB v) \<noteq> None then Some ''reserveGb''
      else if cf_WatchedThresholdPercent v < 50 \<or> cf_WatchedThresholdPercent v > 100 then Some ''watchedThresholdPercent''
      else if cf_SubtitleCachePath v = [] \<or> cf_SubtitleCacheMaxBytes v < MiB \<or> cf_SubtitleCacheMaxBytes v > 4096 * MiB
        then Some ''subtitleCache''
      else if cf_FFprobePath v = [] \<or> cf_FFmpegPath v = [] \<or> \<not> is_abs (cf_FFprobePath v) \<or> \<not> is_abs (cf_FFmpegPath v)
        then Some ''ffprobePath''
      else if cf_ArtworkCachePath v = [] \<or> cf_ArtworkCacheMaxBytes v < 16 * MiB \<or> cf_ArtworkCacheMaxBytes v > 8192 * MiB
        then Some ''artworkCache''
      else if \<not> pr_absURL pr (cf_SubDLURL v) then Some ''subDLUrl''
      else if to_lower (trim_space (rev (dropWhile (\<lambda>c. c = CHR ''/'') (rev (cf_SubDLURL v))))) \<noteq> ''https://api.subdl.com''
        then Some ''subDLUrl''
      else if cf_MaxConcurrentJobs v < 1 \<or> cf_MaxConcurrentJobs v > 20 then Some ''maxConcurrentJobs''
      else if cf_TitleRefreshTimeoutMinutes v < 5 \<or> cf_TitleRefreshTimeoutMinutes v > 120 then Some ''titleRefreshTimeoutMinutes''
      else if list_ex (\<lambda>raw. \<not> pr_prefix pr raw) (cf_TrustedCIDRs v) then Some ''trustedCidrs''
      else if cf_DownloadEngine v \<noteq> ''native'' \<and> cf_DownloadEngine v \<noteq> ''qbittorrent'' then Some ''downloadEngine''
      else if cf_TorrentPeerPort v < 0 \<or> cf_TorrentPeerPort v > 65535 then Some ''torrentPeerPort''
      else if trim_space (cf_TorrentSessionDir v) = [] then Some ''torrentSessionDir''
      else if list_ex (\<lambda>rule. \<not> ValidEvictionRule rule) (cf_EvictionRules v) then Some ''evictionRules''
      else None)"

section \<open>The store\<close>

record store =
  so_path :: string
  so_base :: settings
  so_value :: settings
  so_envManaged :: "string list"
  so_fileProvided :: "string list"
  so_file :: "settings option"

definition requiredKeys :: "string list" where
  "requiredKeys = [''downloadRoot'', ''fileListUsername'', ''fileListPasskey'']"

definition requiredValue :: "settings \<Rightarrow> string \<Rightarrow> string" where
  "requiredValue v key =
     (if key = ''downloadRoot'' then cf_DownloadRoot v
      else if key = ''fileListUsername'' then cf_FileListUsername v
      else if key = ''fileListPasskey'' then cf_FileListPasskey v
      else [])"

definition MissingRequired :: "store \<Rightarrow> string list" where
  "MissingRequired st = filter (\<lambda>key. trim_space (requiredValue (so_value st) key) = []
     \<or> \<not> (key \<in> set (so_fileProvided st) \<or> key \<in> set (so_envManaged st))) requiredKeys"

text \<open>What a settings file can be: missing, unreadable, not JSON, or an object that is
  decoded over the defaults and has the given keys.\<close>

datatype settings_file = FileMissing | FileUnreadable | FileNotJSON
  | FileObject "settings \<Rightarrow> settings" "string list"

definition or_string :: "string \<Rightarrow> string \<Rightarrow> string" where
  "or_string s d = (if s = [] then d else s)"

definition or_int :: "int64 \<Rightarrow> int64 \<Rightarrow> int64" where
  "or_int n d = (if n = 0 then d else n)"

definition fill_defaults :: "string list \<Rightarrow> settings \<Rightarrow> settings" where
  "fill_defaults present v = v\<lparr>
     cf_InstanceName := or_string (cf_InstanceName v) ''FileList Streaming'',
     cf_WatchedThresholdPercent := or_int (cf_WatchedThresholdPercent v) 90,
     cf_PreferredAudioLanguage := or_string (cf_PreferredAudioLanguage v) ''en'',
     cf_EvictionRules := (if ''evictionRules'' \<in> set present then cf_EvictionRules v else [''oldest-completed'']),
     cf_ProtectIncomplete := (if ''protectIncomplete'' \<in> set present then cf_ProtectIncomplete v else True),
     cf_ProtectLeased := (if ''protectLeased'' \<in> set present then cf_ProtectLeased v else True),
     cf_MetadataLanguage := or_string (cf_MetadataLanguage v) ''ro-RO'',
     cf_MetadataFallbackLanguage := or_string (cf_MetadataFallbackLanguage v) ''en-US'',
     cf_ArtworkCachePath := or_string (cf_ArtworkCachePath v) ''data/artwork'',
     cf_ArtworkCacheMaxBytes := or_int (cf_ArtworkCacheMaxBytes v) (512 * MiB),
     cf_SubDLURL := or_string (cf_SubDLURL v) ''https://api.subdl.com'',
     cf_MaxConcurrentJobs := or_int (cf_MaxConcurrentJobs v) 10,
     cf_TitleRefreshTimeoutMinutes := or_int (cf_TitleRefreshTimeoutMinutes v) 30,
     cf_FFprobePath := or_string (cf_FFprobePath v) ''/usr/bin/ffprobe'',
     cf_FFmpegPath := or_string (cf_FFmpegPath v) ''/usr/bin/ffmpeg''\<rparr>"

definition LoadAt :: "process \<Rightarrow> bool \<Rightarrow> settings_file \<Rightarrow> string \<Rightarrow> string + store" where
  "LoadAt pr mkdirOk content path =
     (case (case content of
              FileMissing \<Rightarrow> Inr (Defaults, [])
            | FileUnreadable \<Rightarrow> Inl ''read settings''
            | FileNotJSON \<Rightarrow> Inl ''decode settings''
            | FileObject decode present \<Rightarrow>
                Inr (fill_defaults present (decode Defaults), filter (\<lambda>k. k \<in> set present) requiredKeys)) of
        Inl e \<Rightarrow> Inl e
      | Inr (base, provided) \<Rightarrow>
          (case applyEnvironment pr base of
             Inl e \<Rightarrow> Inl e
           | Inr (overlaid, managed) \<Rightarrow>
               (case path_abs (pr_cwd pr) (path_dir path) of
                  Inl _ \<Rightarrow> Inl ''settings directory''
                | Inr dir \<Rightarrow>
                    let effective = anchorNativePaths overlaid managed dir in
                    case validate pr effective of
                      Some e \<Rightarrow> Inl e
                    | None \<Rightarrow>
                        if \<not> mkdirOk then Inl ''database directory''
                        else Inr \<lparr>so_path = path, so_base = base, so_value = effective,
                               so_envManaged = managed, so_fileProvided = provided,
                               so_file = (case content of FileMissing \<Rightarrow> None | _ \<Rightarrow> Some base)\<rparr>)))"

text \<open>\<open>Save\<close>; \<open>writeOk\<close> is whether the temporary file was written and renamed.\<close>

definition Save :: "process \<Rightarrow> bool \<Rightarrow> settings \<Rightarrow> store \<Rightarrow> string option \<times> store" where
  "Save pr writeOk nxt st =
     (let persisted = restoreManagedFields (mergeSecrets nxt (so_value st)) (so_base st) (so_envManaged st) in
      case applyEnvironment pr persisted of
        Inl e \<Rightarrow> (Some e, st)
      | Inr (effective, managed) \<Rightarrow>
          (case validate pr effective of
             Some e \<Rightarrow> (Some e, st)
           | None \<Rightarrow>
               if \<not> writeOk then (Some ''write settings'', st)
               else (None, st\<lparr>so_base := persisted, so_value := effective, so_envManaged := managed,
                 so_fileProvided := so_fileProvided st
                   @ filter (\<lambda>k. trim_space (requiredValue persisted k) \<noteq> []) requiredKeys,
                 so_file := Some persisted\<rparr>)))"

definition RestartRequired :: "settings \<Rightarrow> settings \<Rightarrow> bool" where
  "RestartRequired old new \<longleftrightarrow>
     cf_ListenAddress old \<noteq> cf_ListenAddress new \<or> cf_DatabasePath old \<noteq> cf_DatabasePath new
     \<or> cf_MaxConcurrentJobs old \<noteq> cf_MaxConcurrentJobs new
     \<or> cf_TitleRefreshTimeoutMinutes old \<noteq> cf_TitleRefreshTimeoutMinutes new
     \<or> cf_DownloadEngine old \<noteq> cf_DownloadEngine new \<or> cf_TorrentPeerPort old \<noteq> cf_TorrentPeerPort new
     \<or> cf_TorrentSessionDir old \<noteq> cf_TorrentSessionDir new"

section \<open>The settings endpoints\<close>

text \<open>\<open>RedactedSettings\<close>: the payload without secrets and the \<open>Configured\<close> flags.\<close>

definition RedactedSettings :: "settings \<Rightarrow> settings \<times> bool list" where
  "RedactedSettings v =
     (v\<lparr>cf_FileListPasskey := [], cf_QBittorrentPassword := [], cf_TMDBAPIKey := [],
        cf_SubDLAPIKey := [], cf_PortalAPIKey := []\<rparr>,
      map (\<lambda>s. s \<noteq> []) [cf_FileListPasskey v, cf_QBittorrentPassword v, cf_TMDBAPIKey v,
        cf_SubDLAPIKey v, cf_PortalAPIKey v])"

definition EnsureNativePathsWritable :: "(string \<Rightarrow> bool) \<Rightarrow> string \<Rightarrow> string \<Rightarrow> string \<Rightarrow> string option" where
  "EnsureNativePathsWritable writable engine rootdir sessionDir =
     (if engine \<noteq> ''native'' then None
      else if \<not> writable rootdir then Some ''download root''
      else if \<not> writable sessionDir then Some ''torrent session directory''
      else None)"

text \<open>\<open>PUT /api/v1/settings\<close> with its status and, on success, \<open>restartRequired\<close>.\<close>

definition putSettings ::
  "process \<Rightarrow> (string \<Rightarrow> bool) \<Rightarrow> bool \<Rightarrow> settings option \<Rightarrow> store \<Rightarrow> (nat \<times> bool) \<times> store" where
  "putSettings pr writable writeOk body st =
     (case body of
        None \<Rightarrow> ((400, False), st)
      | Some v \<Rightarrow>
          if EnsureNativePathsWritable writable (cf_DownloadEngine v) (cf_DownloadRoot v) (cf_TorrentSessionDir v) \<noteq> None
          then ((400, False), st)
          else (case Save pr writeOk v st of
              (Some e, st') \<Rightarrow> ((400, False), st')
            | (None, st') \<Rightarrow> ((200, RestartRequired (so_value st) (so_value st')), st')))"

section \<open>Onboarding\<close>

definition checkAnswer :: "(string \<Rightarrow> bool) \<Rightarrow> string \<Rightarrow> string \<Rightarrow> bool" where
  "checkAnswer writable key answer \<longleftrightarrow>
     (if key = ''downloadRoot'' then trim_space answer \<noteq> [] \<and> writable answer
      else (key = ''fileListUsername'' \<or> key = ''fileListPasskey'') \<and> trim_space answer \<noteq> [])"

text \<open>The answers to one question, \<open>None\<close> for a closed terminal; three attempts.\<close>

fun askRequired :: "(string \<Rightarrow> bool) \<Rightarrow> string \<Rightarrow> nat \<Rightarrow> string option list \<Rightarrow> string option \<times> string option list" where
  "askRequired writable key 0 input = (None, input)"
| "askRequired writable key (Suc attempts) input = (case input of
       [] \<Rightarrow> (None, [])
     | None # rest \<Rightarrow> (None, rest)
     | Some line # rest \<Rightarrow>
         (let answer = (if key = ''downloadRoot'' \<and> line = [] then cf_DownloadRoot Defaults else line) in
          if checkAnswer writable key answer then (Some answer, rest)
          else askRequired writable key attempts rest))"

fun ask_all :: "(string \<Rightarrow> bool) \<Rightarrow> string list \<Rightarrow> string option list \<Rightarrow> (string \<times> string) list option" where
  "ask_all writable [] input = Some []"
| "ask_all writable (key # keys) input =
     (case askRequired writable key 3 input of
        (None, _) \<Rightarrow> None
      | (Some answer, rest) \<Rightarrow> map_option (\<lambda>as. (key, answer) # as) (ask_all writable keys rest))"

definition PromptRequired ::
  "process \<Rightarrow> (string \<Rightarrow> bool) \<Rightarrow> bool \<Rightarrow> bool \<Rightarrow> string option list \<Rightarrow> store \<Rightarrow> bool \<times> store" where
  "PromptRequired pr writable writeOk tty input st =
     (if \<not> tty \<or> MissingRequired st = [] then (True, st)
      else (case ask_all writable (MissingRequired st) input of
        None \<Rightarrow> (False, st)
      | Some answers \<Rightarrow>
          (let pick = (\<lambda>key old. case map_of answers key of Some a \<Rightarrow> a | None \<Rightarrow> old);
               v = so_value st;
               nxt = v\<lparr>cf_DownloadRoot := pick ''downloadRoot'' (cf_DownloadRoot v),
                       cf_FileListUsername := pick ''fileListUsername'' (cf_FileListUsername v),
                       cf_FileListPasskey := pick ''fileListPasskey'' (cf_FileListPasskey v)\<rparr> in
           case Save pr writeOk nxt st of
             (Some e, st') \<Rightarrow> (False, st')
           | (None, st') \<Rightarrow> (True, st'\<lparr>so_fileProvided := so_fileProvided st' @ map fst answers\<rparr>))))"

text \<open>\<open>ResolveMediaTools\<close>: which paths exist and what \<open>exec.LookPath\<close> finds are inputs.\<close>

definition discover :: "(string \<Rightarrow> bool) \<Rightarrow> (string \<Rightarrow> string option) \<Rightarrow> store \<Rightarrow> string \<Rightarrow> string \<Rightarrow> string \<Rightarrow> string option option" where
  "discover present look st key binary current =
     (if key \<in> set (so_envManaged st) \<or> present current then None else Some (look binary))"

definition ResolveMediaTools ::
  "process \<Rightarrow> (string \<Rightarrow> bool) \<Rightarrow> (string \<Rightarrow> string option) \<Rightarrow> bool \<Rightarrow> store \<Rightarrow> (bool \<times> string list) \<times> store" where
  "ResolveMediaTools pr present look writeOk st =
     (let v = so_value st;
          probe = discover present look st ''ffprobePath'' ''ffprobe'' (cf_FFprobePath v);
          mpeg = discover present look st ''ffmpegPath'' ''ffmpeg'' (cf_FFmpegPath v);
          missing = (if probe = Some None then [''ffprobe''] else []) @ (if mpeg = Some None then [''ffmpeg''] else []);
          pick = (\<lambda>r old. case r of Some (Some found) \<Rightarrow> found | _ \<Rightarrow> old);
          nxt = v\<lparr>cf_FFprobePath := pick probe (cf_FFprobePath v), cf_FFmpegPath := pick mpeg (cf_FFmpegPath v)\<rparr> in
      if (probe = None \<or> probe = Some None) \<and> (mpeg = None \<or> mpeg = Some None) then ((True, missing), st)
      else (case Save pr writeOk nxt st of
          (Some e, st') \<Rightarrow> ((False, missing), st')
        | (None, st') \<Rightarrow> ((True, missing), st')))"

section \<open>What the overlay does to one field\<close>

definition env_name :: "string \<Rightarrow> string" where
  "env_name key = EnvironmentPrefix @ camelToEnvironment key"

definition managed_keys :: "process \<Rightarrow> string list" where
  "managed_keys pr = filter (\<lambda>k. pr_env pr (env_name k) \<noteq> None) (map fst setting_fields)"

text \<open>A field whose assignments leave the value \<open>get\<close> of another field alone.\<close>

definition field_keeps :: "(settings \<Rightarrow> string) \<Rightarrow> setting_field \<Rightarrow> bool" where
  "field_keeps get f = (case f of
       StringField _ put \<Rightarrow> \<forall>v s. get (put v s) = get s
     | IntField _ put \<Rightarrow> \<forall>v s. get (put v s) = get s
     | BoolField _ put \<Rightarrow> \<forall>v s. get (put v s) = get s
     | FloatField _ put \<Rightarrow> \<forall>v s. get (put v s) = get s
     | ListField _ put \<Rightarrow> \<forall>v s. get (put v s) = get s)"

lemma apply_fields_managed:
  "apply_fields pr fs s m = Inr (s', m') \<Longrightarrow> m' = m @ filter (\<lambda>k. pr_env pr (env_name k) \<noteq> None) (map fst fs)"
  by (induction pr fs s m rule: apply_fields.induct) (auto simp: env_name_def Let_def split: option.splits)

lemma set_field_keeps: "field_keeps get f \<Longrightarrow> set_field pr f raw s = Some s' \<Longrightarrow> get s' = get s"
  by (auto simp: field_keeps_def set_field_def split: setting_field.splits)

lemma copy_field_keeps: "field_keeps get f \<Longrightarrow> get (copy_field f base s) = get s"
  by (simp add: field_keeps_def copy_field_def split: setting_field.splits)

lemma apply_fields_keeps:
  "apply_fields pr fs s m = Inr (s', m') \<Longrightarrow> \<forall>p\<in>set fs. field_keeps get (snd p) \<Longrightarrow> get s' = get s"
  by (induction pr fs s m rule: apply_fields.induct)
    (auto simp: Let_def dest: set_field_keeps split: option.splits)

lemma apply_fields_append:
  "apply_fields pr (fs @ gs) s m = (case apply_fields pr fs s m of Inl e \<Rightarrow> Inl e | Inr (s', m') \<Rightarrow> apply_fields pr gs s' m')"
  by (induction pr fs s m rule: apply_fields.induct) (auto simp: Let_def split: option.splits)

lemma restore_keeps:
  "\<forall>p\<in>set fs. field_keeps get (snd p) \<Longrightarrow>
     get (fold (\<lambda>(key, f) s. if key \<in> set managed then copy_field f base s else s) fs s) = get s"
  by (induction fs arbitrary: s) (auto simp: copy_field_keeps)

section \<open>Secrets\<close>

text \<open>
  The interface of a secret: a string field of its own that the redacted view blanks,
  that the merge fills from the running store, and that is not a path.
\<close>

locale secret_setting =
  fixes key :: string and get :: "settings \<Rightarrow> string" and put :: "string \<Rightarrow> settings \<Rightarrow> settings"
    and before :: "(string \<times> setting_field) list" and after :: "(string \<times> setting_field) list"
  assumes listed: "setting_fields = before @ (key, StringField get put) # after"
    and others: "\<forall>p\<in>set before \<union> set after. field_keeps get (snd p)"
    and put_get: "get (put v s) = v"
    and no_path: "get (anchorNativePaths s managed dir) = get s"
    and redacted: "get (fst (RedactedSettings s)) = []"
    and merged: "get nxt = [] \<Longrightarrow> get (mergeSecrets nxt s) = get s"
begin

lemma overlay_value:
  assumes "applyEnvironment pr s = Inr (s', m)"
  shows "get s' = (case pr_env pr (env_name key) of None \<Rightarrow> get s | Some raw \<Rightarrow> raw)"
proof -
  obtain s1 m1 where 1: "apply_fields pr before s [] = Inr (s1, m1)"
    "apply_fields pr ((key, StringField get put) # after) s1 m1 = Inr (s', m)"
    using assms by (auto simp: applyEnvironment_def listed apply_fields_append split: sum.splits)
  have g1: "get s1 = get s" using apply_fields_keeps[OF 1(1), of get] others by blast
  show ?thesis
  proof (cases "pr_env pr (env_name key)")
    case None
    then have "apply_fields pr after s1 m1 = Inr (s', m)" using 1(2) by (simp add: env_name_def Let_def)
    then show ?thesis using apply_fields_keeps[of pr after s1 m1 s' m get] others g1 None by simp
  next
    case (Some raw)
    then have "apply_fields pr after (put raw s1) (m1 @ [key]) = Inr (s', m)"
      using 1(2) by (simp add: env_name_def Let_def set_field_def)
    then show ?thesis using apply_fields_keeps[of pr after _ _ s' m get] others Some by (simp add: put_get)
  qed
qed

lemma restored_value:
  "get (restoreManagedFields target base managed) = (if key \<in> set managed then get base else get target)"
  using others by (simp add: restoreManagedFields_def listed restore_keeps copy_field_def put_get)

lemma managed_iff: "key \<in> set (managed_keys pr) \<longleftrightarrow> pr_env pr (env_name key) \<noteq> None"
  by (auto simp: managed_keys_def listed)

lemma current:
  assumes "applyEnvironment pr base = Inr (overlaid, managed)"
    and "value' = overlaid \<or> (\<exists>dir. value' = anchorNativePaths overlaid managed dir)"
  shows "get value' = (case pr_env pr (env_name key) of None \<Rightarrow> get base | Some raw \<Rightarrow> raw)"
  using overlay_value[OF assms(1)] assms(2) no_path by auto

text \<open>A store whose value is the overlay of its base keeps a blank secret when it is saved.\<close>

lemma save_blank:
  assumes "Save pr ok nxt st = (None, st')" "get nxt = []"
    and "so_envManaged st = managed_keys pr"
    and "get (so_value st) = (case pr_env pr (env_name key) of None \<Rightarrow> get (so_base st) | Some raw \<Rightarrow> raw)"
  shows "get (so_value st') = get (so_value st) \<and> get (so_base st') = get (so_base st)"
proof -
  let ?p = "restoreManagedFields (mergeSecrets nxt (so_value st)) (so_base st) (so_envManaged st)"
  obtain m where e: "applyEnvironment pr ?p = Inr (so_value st', m)" and b: "so_base st' = ?p"
    using assms(1) by (auto simp: Save_def Let_def split: sum.splits option.splits if_splits)
  show ?thesis using overlay_value[OF e] assms(2-4) merged
    by (auto simp: b restored_value managed_iff split: option.splits)
qed

end

interpretation passkey: secret_setting "''fileListPasskey''" cf_FileListPasskey
    "\<lambda>v. cf_FileListPasskey_update (\<lambda>_. v)" "take 7 setting_fields" "drop 8 setting_fields"
  by unfold_locales (auto simp: setting_fields_def field_keeps_def anchorNativePaths_def Let_def
      RedactedSettings_def mergeSecrets_def)

interpretation qbpass: secret_setting "''qbittorrentPassword''" cf_QBittorrentPassword
    "\<lambda>v. cf_QBittorrentPassword_update (\<lambda>_. v)" "take 10 setting_fields" "drop 11 setting_fields"
  by unfold_locales (auto simp: setting_fields_def field_keeps_def anchorNativePaths_def Let_def
      RedactedSettings_def mergeSecrets_def)

interpretation tmdb: secret_setting "''tmdbApiKey''" cf_TMDBAPIKey
    "\<lambda>v. cf_TMDBAPIKey_update (\<lambda>_. v)" "take 29 setting_fields" "drop 30 setting_fields"
  by unfold_locales (auto simp: setting_fields_def field_keeps_def anchorNativePaths_def Let_def
      RedactedSettings_def mergeSecrets_def)

interpretation subdl: secret_setting "''subDLApiKey''" cf_SubDLAPIKey
    "\<lambda>v. cf_SubDLAPIKey_update (\<lambda>_. v)" "take 35 setting_fields" "drop 36 setting_fields"
  by unfold_locales (auto simp: setting_fields_def field_keeps_def anchorNativePaths_def Let_def
      RedactedSettings_def mergeSecrets_def)

interpretation portalkey: secret_setting "''portalAPIKey''" cf_PortalAPIKey
    "\<lambda>v. cf_PortalAPIKey_update (\<lambda>_. v)" "take 43 setting_fields" "drop 44 setting_fields"
  by unfold_locales (auto simp: setting_fields_def field_keeps_def anchorNativePaths_def Let_def
      RedactedSettings_def mergeSecrets_def)

definition secrets :: "settings \<Rightarrow> string list" where
  "secrets v = [cf_FileListPasskey v, cf_QBittorrentPassword v, cf_TMDBAPIKey v, cf_SubDLAPIKey v, cf_PortalAPIKey v]"

section \<open>The stores a process can have\<close>

inductive store_reach :: "process \<Rightarrow> store \<Rightarrow> bool" for pr where
  loaded: "LoadAt pr mkdirOk content path = Inr st \<Longrightarrow> store_reach pr st"
| saved: "store_reach pr st \<Longrightarrow> store_reach pr (snd (Save pr ok nxt st))"
| put: "store_reach pr st \<Longrightarrow> store_reach pr (snd (putSettings pr writable ok body st))"
| prompted: "store_reach pr st \<Longrightarrow> store_reach pr (snd (PromptRequired pr writable ok tty input st))"
| resolved: "store_reach pr st \<Longrightarrow> store_reach pr (snd (ResolveMediaTools pr present look ok st))"

definition store_ok :: "process \<Rightarrow> store \<Rightarrow> bool" where
  "store_ok pr st \<longleftrightarrow> validate pr (so_value st) = None
     \<and> (so_file st = None \<or> so_file st = Some (so_base st))
     \<and> (\<exists>overlaid. applyEnvironment pr (so_base st) = Inr (overlaid, so_envManaged st)
         \<and> (so_value st = overlaid \<or> (\<exists>dir. so_value st = anchorNativePaths overlaid (so_envManaged st) dir)))"

lemma applyEnvironment_managed: "applyEnvironment pr s = Inr (s', m) \<Longrightarrow> m = managed_keys pr"
  by (auto simp: applyEnvironment_def managed_keys_def dest: apply_fields_managed)

lemma LoadAt_ok: "LoadAt pr mkdirOk content path = Inr st \<Longrightarrow> store_ok pr st"
  by (fastforce simp: LoadAt_def store_ok_def Let_def split: sum.splits option.splits if_splits settings_file.splits)

lemma Save_ok: "store_ok pr st \<Longrightarrow> store_ok pr (snd (Save pr ok nxt st))"
  by (fastforce simp: Save_def store_ok_def Let_def split: sum.splits option.splits)

lemma store_ok_provided: "store_ok pr (st\<lparr>so_fileProvided := x\<rparr>) = store_ok pr st"
  by (simp add: store_ok_def)

lemma saved_state:
  "snd (case r of (None, t) \<Rightarrow> (a t, t) | (Some e, t) \<Rightarrow> (b e t, t)) = snd r"
  by (cases r; cases "fst r") auto

lemma putSettings_state: "snd (putSettings pr writable ok body st) = st
    \<or> (\<exists>v. snd (putSettings pr writable ok body st) = snd (Save pr ok v st))"
proof (cases body)
  case (Some v)
  then show ?thesis
    by (cases "Save pr ok v st"; cases "fst (Save pr ok v st)") (auto simp: putSettings_def intro: exI[of _ v])
qed (simp add: putSettings_def)

lemma ResolveMediaTools_state: "snd (ResolveMediaTools pr present look ok st) = st
    \<or> (\<exists>v. snd (ResolveMediaTools pr present look ok st) = snd (Save pr ok v st))"
  unfolding ResolveMediaTools_def Let_def
  by (simp only: saved_state if_distrib[of snd] snd_conv split: if_split) blast

lemma PromptRequired_ok:
  assumes "store_ok pr st"
  shows "store_ok pr (snd (PromptRequired pr writable ok tty input st))"
proof (cases "tty \<and> MissingRequired st \<noteq> []")
  case True
  show ?thesis
  proof (cases "ask_all writable (MissingRequired st) input")
    case (Some answers)
    have "store_ok pr (snd (case Save pr ok v st of (Some e, st') \<Rightarrow> (False, st')
        | (None, st') \<Rightarrow> (True, st'\<lparr>so_fileProvided := so_fileProvided st' @ map fst answers\<rparr>)))" for v
      using Save_ok[OF assms, of ok v]
      by (cases "Save pr ok v st"; cases "fst (Save pr ok v st)") (auto simp: store_ok_provided)
    then show ?thesis using True Some by (simp add: PromptRequired_def Let_def)
  qed (use True assms in \<open>simp add: PromptRequired_def\<close>)
qed (use assms in \<open>auto simp: PromptRequired_def\<close>)

lemma store_reach_ok: "store_reach pr st \<Longrightarrow> store_ok pr st"
proof (induction rule: store_reach.induct)
  case (put st writable ok body)
  then show ?case using putSettings_state[of pr writable ok body st] Save_ok by metis
next
  case (resolved st present look ok)
  then show ?case using ResolveMediaTools_state[of pr present look ok st] Save_ok by metis
qed (auto intro: LoadAt_ok Save_ok PromptRequired_ok)

section \<open>Properties\<close>

text \<open>
  Property C21. The running settings are always valid: after any loads, saves, prompts and
  tool discoveries, accepted or refused, the store's value passes validation, its file
  holds the store's own base, and the sizes the stream loop depends on are in order
  (the slices positive, the read-ahead between 16 MiB and 2 GiB).
\<close>

theorem settings_always_valid:
  assumes "store_reach pr st"
  shows "validate pr (so_value st) = None \<and> (so_file st = None \<or> so_file st = Some (so_base st))
    \<and> 0 < cf_StreamStartBytes (so_value st) \<and> 16 * MiB \<le> cf_ReadAheadBytes (so_value st)
    \<and> cf_ReadAheadBytes (so_value st) \<le> 2048 * MiB \<and> 0 < cf_PieceWaitTimeoutSeconds (so_value st)"
  using store_reach_ok[OF assms] by (auto simp: store_ok_def validate_def split: if_splits)

text \<open>
  Property C22. Saving the form the server itself handed out loses nothing: the redacted
  view carries no secret, and when any edit of it that leaves the secrets blank is saved,
  every secret in use stays what it was, and what the file holds for it stays what it
  was - a secret that came from the environment is not written to the file.
\<close>

theorem redacted_save_keeps_secrets:
  assumes "store_reach pr st" and "secrets nxt = secrets (fst (RedactedSettings (so_value st)))"
    and "Save pr ok nxt st = (None, st')"
  shows "secrets nxt = [[], [], [], [], []] \<and> secrets (so_value st') = secrets (so_value st)
    \<and> secrets (so_base st') = secrets (so_base st) \<and> so_file st' = Some (so_base st')"
proof -
  note ok = store_reach_ok[OF assms(1), unfolded store_ok_def]
  then obtain overlaid where o: "applyEnvironment pr (so_base st) = Inr (overlaid, so_envManaged st)"
    "so_value st = overlaid \<or> (\<exists>dir. so_value st = anchorNativePaths overlaid (so_envManaged st) dir)" by blast
  note m = applyEnvironment_managed[OF o(1)]
  have n: "secrets nxt = [[], [], [], [], []]" using assms(2) by (simp add: secrets_def RedactedSettings_def)
  then have b: "cf_FileListPasskey nxt = []" "cf_QBittorrentPassword nxt = []" "cf_TMDBAPIKey nxt = []"
    "cf_SubDLAPIKey nxt = []" "cf_PortalAPIKey nxt = []"
    by (simp_all add: secrets_def numeral_eq_Suc)
  have f: "so_file st' = Some (so_base st')"
    using assms(3) by (auto simp: Save_def Let_def split: sum.splits option.splits if_splits)
  show ?thesis
    using passkey.save_blank[OF assms(3) b(1) m passkey.current[OF o]]
      qbpass.save_blank[OF assms(3) b(2) m qbpass.current[OF o]]
      tmdb.save_blank[OF assms(3) b(3) m tmdb.current[OF o]]
      subdl.save_blank[OF assms(3) b(4) m subdl.current[OF o]]
      portalkey.save_blank[OF assms(3) b(5) m portalkey.current[OF o]] n f
    by (simp add: secrets_def)
qed

definition sample_process :: process where
  "sample_process = \<lparr>pr_env = (\<lambda>_. None), pr_float = (\<lambda>_. None), pr_prefix = (\<lambda>_. True),
     pr_absURL = (\<lambda>_. True), pr_cwd = Some ''/''\<rparr>"

lemma sample_overlay: "applyEnvironment sample_process s = Inr (s, [])"
proof -
  have "apply_fields sample_process fs s m = Inr (s, m)" for fs m
    by (induction fs) (auto simp: sample_process_def Let_def)
  then show ?thesis by (simp add: applyEnvironment_def)
qed

definition sample_settings :: settings where
  "sample_settings = Defaults\<lparr>cf_DatabasePath := ''/srv/filelist.db'', cf_DownloadRoot := ''/srv/downloads'',
     cf_TorrentSessionDir := ''/srv/session'', cf_ArtworkCachePath := ''/srv/artwork'',
     cf_SubtitleCachePath := ''/srv/subtitles'', cf_FileListPasskey := ''k''\<rparr>"

definition sample_store :: store where
  "sample_store = \<lparr>so_path = ''/srv/settings.json'', so_base = sample_settings, so_value = sample_settings,
     so_envManaged = [], so_fileProvided = [], so_file = Some sample_settings\<rparr>"

lemma sample_valid: "validate sample_process sample_settings = None"
  by code_simp

lemma sample_loaded:
  "LoadAt sample_process True
     (FileObject (\<lambda>_. sample_settings) [''evictionRules'', ''protectIncomplete'', ''protectLeased'']) ''/srv/settings.json''
     = Inr sample_store"
proof -
  have f: "fill_defaults [''evictionRules'', ''protectIncomplete'', ''protectLeased''] sample_settings = sample_settings"
    by (simp add: fill_defaults_def sample_settings_def Defaults_def or_string_def or_int_def MiB_def)
  have a: "anchorNativePaths sample_settings [] dir = sample_settings" for dir
    by (simp add: anchorNativePaths_def anchor_path_def sample_settings_def Defaults_def is_abs_def has_prefix_def)
  have d: "path_abs (Some ''/'') (path_dir ''/srv/settings.json'') = Inr ''/srv''" by code_simp
  have r: "filter (\<lambda>k. k \<in> set [''evictionRules'', ''protectIncomplete'', ''protectLeased'']) requiredKeys = []" by code_simp
  show ?thesis
    by (simp only: LoadAt_def settings_file.case f r sum.case prod.case sample_overlay)
      (simp add: sample_process_def[THEN arg_cong[of _ _ pr_cwd]] d a sample_valid sample_store_def Let_def)
qed

theorem settings_always_valid_witness:
  "cf_DownloadRoot (so_value sample_store) = ''/srv/downloads'' \<and> 16 * MiB \<le> cf_ReadAheadBytes (so_value sample_store)"
  using settings_always_valid[OF loaded[OF sample_loaded]]
  by (simp add: sample_store_def sample_settings_def)

theorem redacted_save_keeps_secrets_witness:
  "\<exists>st'. fst (Save sample_process True (fst (RedactedSettings sample_settings)) sample_store) = None
     \<and> st' = snd (Save sample_process True (fst (RedactedSettings sample_settings)) sample_store)
     \<and> cf_FileListPasskey (so_value st') = ''k''"
proof -
  let ?r = "fst (RedactedSettings sample_settings)"
  have m: "restoreManagedFields (mergeSecrets ?r sample_settings) sample_settings [] = sample_settings"
  proof -
    have "fold (\<lambda>(key, f) s. if key \<in> set [] then copy_field f sample_settings s else s) fs x = x" for fs x
      by (induction fs) auto
    then show ?thesis
      by (simp add: restoreManagedFields_def mergeSecrets_def RedactedSettings_def sample_settings_def Defaults_def)
  qed
  have ok: "fst (Save sample_process True ?r sample_store) = None"
    by (simp add: Save_def sample_store_def m sample_overlay sample_valid)
  then have "Save sample_process True ?r sample_store = (None, snd (Save sample_process True ?r sample_store))"
    by (simp add: prod_eq_iff)
  from redacted_save_keeps_secrets[OF loaded[OF sample_loaded] _ this] ok show ?thesis
    by (simp add: sample_store_def secrets_def sample_settings_def)
qed

end
