(* ===== verification/Streaming.thy ===== *)
theory Streaming
  imports Domain Settings
begin

text \<open>
  Serving media bytes: the range header and the stream handler of
  \<open>internal/adapters/httpapi/api.go\<close> (\<open>parseRange\<close>, \<open>stream\<close>, \<open>copyRange\<close>), the playback
  strategies of \<open>internal/application/streaming.go\<close>, \<open>WaitRange\<close> of \<open>service.go\<close>, the audio
  window of \<open>anchor.go\<close> and \<open>parseStartQuery\<close> of \<open>browserstream.go\<close>.

  What the engine, the disk and the client do is sampled: a wait is a list of polls, and
  each poll says how the select behind it continues. Sizes and offsets are \<open>int64\<close>.
\<close>

section \<open>The range header\<close>

text \<open>\<open>strings.SplitN(s, "-", 2)\<close>.\<close>

fun split_dash :: "string \<Rightarrow> (string \<times> string) option" where
  "split_dash [] = None"
| "split_dash (c # cs) =
     (if c = CHR ''-'' then Some ([], cs)
      else map_option (\<lambda>(a, b). (c # a, b)) (split_dash cs))"

text \<open>Start, end, whether the answer is partial, and whether the header is acceptable.\<close>

definition parseRange :: "string \<Rightarrow> int64 \<Rightarrow> int64 \<times> int64 \<times> bool \<times> bool" where
  "parseRange h len =
     (let bad = (0, 0, True, False) in
      if len \<le> 0 then (0, 0, False, False)
      else if h = [] then (0, len - 1, False, True)
      else if \<not> has_prefix (to_lower h) ''bytes='' \<or> CHR '','' \<in> set h then bad
      else (case split_dash (drop 6 h) of
        None \<Rightarrow> bad
      | Some (a, b) \<Rightarrow>
          if a = [] then
            (case parse_int64 b of
               None \<Rightarrow> bad
             | Some n \<Rightarrow> if n \<le> 0 then bad
                 else let n' = (if n > len then len else n) in (i64 (len - n'), len - 1, True, True))
          else
            (case parse_int64 a of
               None \<Rightarrow> bad
             | Some start \<Rightarrow>
                 if start < 0 \<or> start \<ge> len then bad
                 else if b = [] then (start, len - 1, True, True)
                 else (case parse_int64 b of
                   None \<Rightarrow> bad
                 | Some e \<Rightarrow> if e < start then bad
                     else (start, (if e \<ge> len then len - 1 else e), True, True)))))"

lemma parseRange_within:
  assumes "parseRange h len = (s, e, partial, True)" "in_i64 len"
  shows "0 \<le> s \<and> s \<le> e \<and> e < len"
  using assms i64_small[of "len - x" for x]
  by (auto simp: parseRange_def Let_def in_i64_def i64_small split: if_splits option.splits)

section \<open>Playback strategies\<close>

datatype file_info = FileInfo (fi_dir: bool) (fi_size: int64)

definition completedLocalFile :: "(string \<Rightarrow> file_info option) \<Rightarrow> download \<Rightarrow> bool" where
  "completedLocalFile stat d \<longleftrightarrow>
     \<not> (d_Progress d < 1 \<or> d_AbsolutePath d = [] \<or> d_SizeBytes d \<le> 0)
     \<and> (case stat (d_AbsolutePath d) of None \<Rightarrow> False | Some f \<Rightarrow> \<not> fi_dir f \<and> fi_size f \<ge> d_SizeBytes d)"

datatype stream_error = OutsideFile | BadPath path_error | Unavailable | Shorter | BadRoute
  | EngineError string | NoPieceSize | Cancelled | PieceTimeout int64 int64 | NotReadable

text \<open>The range check both strategies share; the sum wraps.\<close>

definition range_ok :: "download \<Rightarrow> int64 \<Rightarrow> int64 \<Rightarrow> bool" where
  "range_ok d start count \<longleftrightarrow> \<not> (count \<le> 0 \<or> start < 0 \<or> i64 (start + count) > d_SizeBytes d)"

definition localReadablePath ::
  "string option \<Rightarrow> string \<Rightarrow> (string \<Rightarrow> file_info option) \<Rightarrow> download \<Rightarrow> int64 \<Rightarrow> int64 \<Rightarrow> stream_error + string" where
  "localReadablePath cwd rootdir stat d start count =
     (case ValidateSourcePath cwd rootdir d of
        Inl e \<Rightarrow> Inl (BadPath e)
      | Inr _ \<Rightarrow>
          if \<not> range_ok d start count then Inl OutsideFile
          else (case stat (d_AbsolutePath d) of
              None \<Rightarrow> Inl Unavailable
            | Some f \<Rightarrow>
                if fi_dir f \<or> fi_size f < i64 (start + count) then Inl Shorter
                else Inr (d_AbsolutePath d)))"

subsection \<open>Waiting for pieces\<close>

text \<open>How the select at the end of a pass continues.\<close>

datatype pass_end = ContextDone | Deadline | Tick

definition piece_span :: "download \<Rightarrow> int64 \<Rightarrow> int64 \<Rightarrow> int64 \<Rightarrow> int64 \<times> int64" where
  "piece_span d pieceSize start count =
     (go_div (i64 (d_FileOffset d + start)) pieceSize,
      go_div (i64 (d_FileOffset d + start + count - 1)) pieceSize)"

definition pieces_ready :: "int list \<Rightarrow> int64 \<Rightarrow> int64 \<Rightarrow> bool" where
  "pieces_ready states lo hi \<longleftrightarrow>
     lo \<ge> 0 \<and> hi < int (length states) \<and> (\<forall>i\<in>set [lo..hi]. states ! nat i = 2)"

text \<open>One pass: an error or piece map of the engine, and the select behind it.\<close>

fun wait_passes :: "download \<Rightarrow> int64 \<Rightarrow> int64 \<Rightarrow> ((string + piece_map) \<times> pass_end) list \<Rightarrow> stream_error option" where
  "wait_passes d start count [] = Some Cancelled"
| "wait_passes d start count ((answer, stop) # passes) =
     (case answer of
        Inl e \<Rightarrow> Some (EngineError e)
      | Inr pieces \<Rightarrow>
          (let pieceSize = (if pm_PieceSize pieces \<le> 0 then d_PieceSize d else pm_PieceSize pieces) in
           if pieceSize \<le> 0 then Some NoPieceSize
           else
             let (lo, hi) = piece_span d pieceSize start count in
             if pieces_ready (pm_States pieces) lo hi then None
             else (case stop of
                 ContextDone \<Rightarrow> Some Cancelled
               | Deadline \<Rightarrow> Some (PieceTimeout lo hi)
               | Tick \<Rightarrow> wait_passes d start count passes)))"

definition WaitRange ::
  "string \<Rightarrow> download \<Rightarrow> int64 \<Rightarrow> int64 \<Rightarrow> ((string + piece_map) \<times> pass_end) list \<Rightarrow> stream_error option" where
  "WaitRange pfx d start count passes =
     (case cut_prefix (d_EngineID d) pfx of
        None \<Rightarrow> Some BadRoute
      | Some hash \<Rightarrow> wait_passes d start count passes)"

subsection \<open>The progressive strategy\<close>

text \<open>
  One try to read the last byte of the range: which paths can be opened and read there,
  the status the engine reports behind a failed try, and the select.
\<close>

record read_try =
  ry_readable :: "string \<Rightarrow> bool"
  ry_status :: "download_status option"
  ry_stop :: pass_end

fun open_tries :: "string option \<Rightarrow> string \<Rightarrow> string \<Rightarrow> string \<Rightarrow> read_try list \<Rightarrow> stream_error + string" where
  "open_tries cwd rootdir name path [] = Inl Cancelled"
| "open_tries cwd rootdir name path (t # ts) =
     (if ry_readable t path then Inr path
      else
        let path' = (case ry_status t of
              None \<Rightarrow> path
            | Some status \<Rightarrow>
                (case safeQBContentPath cwd rootdir status name of Inl _ \<Rightarrow> path | Inr candidate \<Rightarrow> candidate)) in
        (case ry_stop t of
           ContextDone \<Rightarrow> Inl Cancelled
         | Deadline \<Rightarrow> Inl NotReadable
         | Tick \<Rightarrow> open_tries cwd rootdir name path' ts))"

record engine_answers =
  ea_status :: "string + download_status"
  ea_prepare :: "string option"
  ea_passes :: "((string + piece_map) \<times> pass_end) list"
  ea_tries :: "read_try list"

definition progressiveReadablePath ::
  "string \<Rightarrow> string option \<Rightarrow> string \<Rightarrow> engine_answers \<Rightarrow> download \<Rightarrow> int64 \<Rightarrow> int64 \<Rightarrow> stream_error + string" where
  "progressiveReadablePath pfx cwd rootdir a d start count =
     (if \<not> range_ok d start count then Inl OutsideFile
      else (case cut_prefix (d_EngineID d) pfx of
        None \<Rightarrow> Inl BadRoute
      | Some hash \<Rightarrow>
          (case ea_status a of
             Inl e \<Rightarrow> Inl (EngineError e)
           | Inr status \<Rightarrow>
               (case safeQBContentPath cwd rootdir status (d_FilePath d) of
                  Inl e \<Rightarrow> Inl (BadPath e)
                | Inr path \<Rightarrow>
                    (case ea_prepare a of
                       Some e \<Rightarrow> Inl (EngineError e)
                     | None \<Rightarrow>
                         (case WaitRange pfx d start count (ea_passes a) of
                            Some e \<Rightarrow> Inl e
                          | None \<Rightarrow> open_tries cwd rootdir (d_FilePath d) path (ea_tries a)))))))"

definition ReadableRangePath ::
  "string \<Rightarrow> string option \<Rightarrow> string \<Rightarrow> (string \<Rightarrow> file_info option) \<Rightarrow> engine_answers
     \<Rightarrow> download \<Rightarrow> int64 \<Rightarrow> int64 \<Rightarrow> stream_error + string" where
  "ReadableRangePath pfx cwd rootdir stat a d start count =
     (if completedLocalFile stat d then localReadablePath cwd rootdir stat d start count
      else progressiveReadablePath pfx cwd rootdir a d start count)"

section \<open>Copying\<close>

text \<open>
  \<open>copyRange\<close> on the bytes of the file from the offset on, in blocks of 1 MiB. A block can
  find the context done, or the client can take only some bytes of it.
\<close>

datatype block_event = BlockOk | BlockCancelled | BlockWritten nat

function copy_blocks :: "(nat \<Rightarrow> block_event) \<Rightarrow> nat \<Rightarrow> string \<Rightarrow> int64 \<Rightarrow> string \<Rightarrow> string \<times> bool" where
  "copy_blocks ev k rest remaining out =
     (if remaining \<le> 0 then (out, True)
      else (case ev k of
        BlockCancelled \<Rightarrow> (out, False)
      | BlockWritten n \<Rightarrow> (out @ take n (take (nat (min MiB remaining)) rest), False)
      | BlockOk \<Rightarrow>
          (let got = take (nat (min MiB remaining)) rest in
           if int (length got) < min MiB remaining then (out @ got, False)
           else copy_blocks ev (Suc k) (drop (length got) rest) (remaining - int (length got)) (out @ got))))"
  by pat_completeness auto
termination
  by (relation "measure (\<lambda>(ev, k, rest, remaining, out). nat remaining)") (auto simp: MiB_def)

declare copy_blocks.simps [simp del]

definition copyRange ::
  "(string \<Rightarrow> string option) \<Rightarrow> (nat \<Rightarrow> block_event) \<Rightarrow> string \<Rightarrow> int64 \<Rightarrow> int64 \<Rightarrow> string \<times> bool" where
  "copyRange files ev path offset count =
     (case files path of
        None \<Rightarrow> ([], False)
      | Some content \<Rightarrow> copy_blocks ev 0 (drop (nat offset) content) count [])"

section \<open>The stream handler\<close>

text \<open>
  The loop over the chunks behind the header. What the service answers for the chunk at a
  position, the files and the client's behaviour while it is copied are functions of the
  position. \<open>None\<close> would be a loop that never ends.
\<close>

record stream_world =
  sw_path :: "int64 \<Rightarrow> int64 \<Rightarrow> stream_error + string"
  sw_files :: "int64 \<Rightarrow> string \<Rightarrow> string option"
  sw_blocks :: "int64 \<Rightarrow> nat \<Rightarrow> block_event"

partial_function (option) chunk_loop ::
  "stream_world \<Rightarrow> int64 \<Rightarrow> int64 \<Rightarrow> int64 \<Rightarrow> string \<Rightarrow> int64 \<Rightarrow> int64 \<Rightarrow> string \<Rightarrow> string option" where
  "chunk_loop w readAhead start e path position chunkSize out =
     (if position > e then Some out
      else
        let c1 = (if chunkSize > readAhead then readAhead else chunkSize);
            remaining = e - position + 1;
            chunk = (if c1 > remaining then remaining else c1) in
        (case (if position = start then Inr path else sw_path w position chunk) of
           Inl err \<Rightarrow> Some out
         | Inr current \<Rightarrow>
             (case copyRange (sw_files w position) (sw_blocks w position) current position chunk of
                (bytes, ok) \<Rightarrow>
                  if \<not> ok then Some (out @ bytes)
                  else chunk_loop w readAhead start e current (i64 (position + chunk)) (i64 (chunk * 2)) (out @ bytes))))"

record response =
  rp_status :: nat
  rp_length :: int64
  rp_range :: "(int64 \<times> int64 \<times> int64) option"
  rp_body :: string

definition failure :: "nat \<Rightarrow> response" where
  "failure status = \<lparr>rp_status = status, rp_length = 0, rp_range = None, rp_body = []\<rparr>"

text \<open>
  \<open>stream\<close>. \<open>acquired\<close> is the answer of \<open>Acquire\<close>: a missing source, another error, or the
  leased row; the outer \<open>None\<close> is the loop's.
\<close>

datatype acquire_error = NoRows | AcquireFailed

definition stream ::
  "string option \<Rightarrow> settings \<Rightarrow> stream_world \<Rightarrow> bool \<Rightarrow> string \<Rightarrow> acquire_error + download \<Rightarrow> response option" where
  "stream cwd st w isHead header acquired =
     (case acquired of
        Inl NoRows \<Rightarrow> Some (failure 404)
      | Inl AcquireFailed \<Rightarrow> Some (failure 503)
      | Inr d \<Rightarrow>
          (case parseRange header (d_SizeBytes d) of (start, e, partial, ok) \<Rightarrow>
             if \<not> ok then Some (failure 416)
             else
               let remaining = e - start + 1;
                   firstChunk = (if cf_StreamStartBytes st > remaining then remaining else cf_StreamStartBytes st);
                   reply = (\<lambda>body. \<lparr>rp_status = (if partial then 206 else 200), rp_length = remaining,
                     rp_range = (if partial then Some (start, e, d_SizeBytes d) else None), rp_body = body\<rparr>) in
               (case ValidateSourcePath cwd (cf_DownloadRoot st) d of
                  Inl _ \<Rightarrow> Some (failure 409)
                | Inr _ \<Rightarrow>
                    if isHead then Some (reply [])
                    else (case sw_path w start firstChunk of
                        Inl _ \<Rightarrow> Some (failure 503)
                      | Inr path \<Rightarrow>
                          map_option reply
                            (chunk_loop w (cf_ReadAheadBytes st) start e path start firstChunk [])))))"

section \<open>Audio windows, seek targets and playback modes\<close>

definition AudioHeaderBytes :: int64 where "AudioHeaderBytes = 2 * MiB"
definition maxAudioWindowBytes :: int64 where "maxAudioWindowBytes = 16 * MiB"

datatype audio_error = NoProbe | NoSpanProbe | InvalidAudioWindow int64 int64 | NoSource | StillDownloading
  | AudioPath path_error | ProbeFailed

text \<open>The result carries the retry flag. \<open>probe\<close> is \<open>None\<close> without a media probe, and
  \<open>Some None\<close> for one that cannot measure spans.\<close>

definition AudioSpan ::
  "(string \<Rightarrow> int64 \<Rightarrow> int64 \<Rightarrow> int \<Rightarrow> int64 \<Rightarrow> 'span option) option option \<Rightarrow> string option \<Rightarrow> string
     \<Rightarrow> (string \<Rightarrow> file_info option) \<Rightarrow> download option \<Rightarrow> int64 \<Rightarrow> int64 \<Rightarrow> int \<Rightarrow> (audio_error + 'span) \<times> bool" where
  "AudioSpan probe cwd rootdir stat source startByte lengthBytes streamIndex =
     (case probe of
        None \<Rightarrow> (Inl NoProbe, False)
      | Some None \<Rightarrow> (Inl NoSpanProbe, False)
      | Some (Some measure_span) \<Rightarrow>
          if startByte < 0 \<or> streamIndex < 0 \<or> lengthBytes < 1 \<or> lengthBytes > maxAudioWindowBytes
          then (Inl (InvalidAudioWindow startByte lengthBytes), False)
          else
            let fromByte = (if startByte < AudioHeaderBytes then 0 else startByte) in
            (case source of
               None \<Rightarrow> (Inl NoSource, False)
             | Some d \<Rightarrow>
                 if \<not> completedLocalFile stat d then (Inl StillDownloading, True)
                 else (case ValidateSourcePath cwd rootdir d of
                     Inl e \<Rightarrow> (Inl (AudioPath e), False)
                   | Inr _ \<Rightarrow>
                       (case measure_span (d_AbsolutePath d) fromByte lengthBytes streamIndex AudioHeaderBytes of
                          None \<Rightarrow> (Inl ProbeFailed, False)
                        | Some r \<Rightarrow> (Inr r, False)))))"

definition parseStartQuery :: "string \<Rightarrow> int64 \<Rightarrow> int64" where
  "parseStartQuery requested durationMS =
     (if requested = [] then 0
      else (case parse_int64 requested of
        None \<Rightarrow> 0
      | Some v \<Rightarrow> if v < 0 then 0 else if durationMS > 0 \<and> v \<ge> durationMS then 0 else v))"

definition playbackMode :: "download \<Rightarrow> string" where
  "playbackMode d =
     (let state = to_lower (d_State d) in
      if d_Progress d \<ge> 1 \<or> state = StateSeeding \<or> has_suffix state ''up'' \<or> state = ''completed''
      then ''local'' else ''progressive'')"

section \<open>Waiting covers the range\<close>

lemma wait_passes_ready:
  "wait_passes d start count passes = None \<Longrightarrow> \<exists>pm stop ps. (Inr pm, stop) \<in> set passes \<and> 0 < ps
     \<and> ps = (if pm_PieceSize pm \<le> 0 then d_PieceSize d else pm_PieceSize pm)
     \<and> (case piece_span d ps start count of (lo, hi) \<Rightarrow> pieces_ready (pm_States pm) lo hi)"
proof (induction passes)
  case (Cons x passes)
  obtain answer stop where x: "x = (answer, stop)" by fastforce
  with Cons.prems obtain pm where a: "answer = Inr pm" by (cases answer) auto
  let ?ps = "if pm_PieceSize pm \<le> 0 then d_PieceSize d else pm_PieceSize pm"
  have ps: "0 < ?ps" using Cons.prems x a by (auto simp: Let_def split: if_splits)
  show ?case
  proof (cases "case piece_span d ?ps start count of (lo, hi) \<Rightarrow> pieces_ready (pm_States pm) lo hi")
    case True
    then show ?thesis using ps x a by fastforce
  next
    case False
    then have "wait_passes d start count passes = None"
      using Cons.prems x a ps by (cases stop) (auto simp: Let_def split: prod.splits if_splits)
    then show ?thesis using Cons.IH by auto
  qed
qed simp

text \<open>
  Property C19. When the wait for a range succeeds, some piece map the engine returned has
  every byte of the range in a piece that is complete (state 2), whatever the alignment
  of the file and of the range with the pieces.
\<close>

theorem WaitRange_covers:
  assumes "WaitRange pfx d start count passes = None"
    and "0 \<le> d_FileOffset d" "0 \<le> start" "0 < count" "d_FileOffset d + start + count < 2 ^ 63"
  shows "\<exists>pm stop ps. (Inr pm, stop) \<in> set passes \<and> 0 < ps
    \<and> ps = (if pm_PieceSize pm \<le> 0 then d_PieceSize d else pm_PieceSize pm)
    \<and> (\<forall>b\<in>{d_FileOffset d + start..<d_FileOffset d + start + count}.
         nat (b div ps) < length (pm_States pm) \<and> pm_States pm ! nat (b div ps) = 2)"
proof -
  let ?lo = "d_FileOffset d + start" and ?n = "d_FileOffset d + start + count"
  have w: "wait_passes d start count passes = None"
    using assms(1) by (simp add: WaitRange_def split: option.splits)
  from wait_passes_ready[OF w] obtain pm stop ps where m: "(Inr pm, stop) \<in> set passes" "0 < ps"
    "ps = (if pm_PieceSize pm \<le> 0 then d_PieceSize d else pm_PieceSize pm)"
    and r: "case piece_span d ps start count of (lo, hi) \<Rightarrow> pieces_ready (pm_States pm) lo hi"
    by (elim exE conjE) (rule that)
  have "piece_span d ps start count = (?lo div ps, (?n - 1) div ps)"
    using assms m(2) by (simp add: piece_span_def i64_small go_div_nonneg)
  with r have c: "(?n - 1) div ps < int (length (pm_States pm))"
    "\<forall>i. ?lo div ps \<le> i \<and> i \<le> (?n - 1) div ps \<longrightarrow> pm_States pm ! nat i = 2"
    by (auto simp: pieces_ready_def)
  have "nat (b div ps) < length (pm_States pm) \<and> pm_States pm ! nat (b div ps) = 2"
    if "?lo \<le> b" "b < ?n" for b
  proof -
    have "?lo div ps \<le> b div ps" "b div ps \<le> (?n - 1) div ps" "0 \<le> b div ps"
      using that m(2) assms(2,3) by (auto intro: zdiv_mono1 simp: pos_imp_zdiv_nonneg_iff)
    then show ?thesis using c by auto
  qed
  then show ?thesis using m by (metis atLeastLessThan_iff)
qed

definition sample_row :: download where
  "sample_row = \<lparr>d_ID = ''s'', d_ReleaseID = ''r'', d_EngineID = ''qb:h'', d_FilePath = ''a.mkv'',
     d_AbsolutePath = ''/srv/a.mkv'', d_State = ''downloading'', d_FileIndex = 0, d_SizeBytes = 6,
     d_FileOffset = 2, d_PieceSize = 4, d_BufferedBytes = 0, d_DownloadedBytes = 0,
     d_SpeedBytesPerSecond = 0, d_ETASeconds = 0, d_Peers = 0, d_Seeds = 0,
     d_UploadSpeedBytesPerSecond = 0, d_Progress = 1, d_Leased = False, d_CreatedAt = 0,
     d_UpdatedAt = 0, d_Error = []\<rparr>"

definition sample_passes :: "((string + piece_map) \<times> pass_end) list" where
  "sample_passes = [(Inr \<lparr>pm_States = [2, 1], pm_PieceSize = 0\<rparr>, Tick), (Inr \<lparr>pm_States = [2, 2], pm_PieceSize = 0\<rparr>, Tick)]"

theorem WaitRange_covers_witness:
  "\<exists>pm stop. (Inr pm, stop) \<in> set sample_passes \<and> pm_States pm ! 1 = 2"
proof -
  have "WaitRange ''qb:'' sample_row 1 3 sample_passes = None" by code_simp
  from WaitRange_covers[OF this] obtain pm stop ps where m: "(Inr pm, stop) \<in> set sample_passes"
    "ps = (if pm_PieceSize pm \<le> 0 then d_PieceSize sample_row else pm_PieceSize pm)"
    "\<forall>b\<in>{d_FileOffset sample_row + 1..<d_FileOffset sample_row + 1 + 3}. pm_States pm ! nat (b div ps) = 2"
    by (auto simp: sample_row_def)
  then have "ps = 4" "\<forall>b\<in>{3..<6}. pm_States pm ! nat (b div ps) = 2"
    by (auto simp: sample_row_def sample_passes_def)
  then have "pm_States pm ! nat (5 div ps) = 2" by (intro bspec[where P = "\<lambda>b. pm_States pm ! nat (b div ps) = 2"]) auto
  then have "pm_States pm ! 1 = 2" using \<open>ps = 4\<close> by simp
  with m show ?thesis by blast
qed

section \<open>The header is honoured\<close>

lemma split_dash_digits: "CHR ''-'' \<notin> set a \<Longrightarrow> split_dash (a @ CHR ''-'' # b) = Some (a, b)"
  by (induction a) auto

lemma show_nat_plain: "CHR ''-'' \<notin> set (show_nat n)" "CHR '','' \<notin> set (show_nat n)"
  using show_nat_facts[of n] by (auto simp: list_all_iff is_digit_def Let_def)

lemma parseRange_pair:
  assumes "0 < len" "CHR '','' \<notin> set a" "CHR '','' \<notin> set b" "CHR ''-'' \<notin> set a"
  shows "parseRange (''bytes='' @ a @ ''-'' @ b) len =
    (if a = [] then (case parse_int64 b of None \<Rightarrow> (0, 0, True, False)
        | Some n \<Rightarrow> if n \<le> 0 then (0, 0, True, False) else (i64 (len - (if n > len then len else n)), len - 1, True, True))
     else (case parse_int64 a of None \<Rightarrow> (0, 0, True, False)
        | Some start \<Rightarrow> if start < 0 \<or> start \<ge> len then (0, 0, True, False)
            else if b = [] then (start, len - 1, True, True)
            else (case parse_int64 b of None \<Rightarrow> (0, 0, True, False)
              | Some e \<Rightarrow> if e < start then (0, 0, True, False) else (start, (if e \<ge> len then len - 1 else e), True, True))))"
proof -
  have "has_prefix (to_lower (''bytes='' @ a @ ''-'' @ b)) ''bytes=''"
    by (simp add: has_prefix_def to_lower_def ascii_lower_def Let_def)
  then show ?thesis using assms split_dash_digits[of a b]
    unfolding parseRange_def Let_def by simp
qed

text \<open>
  A range header is read as written: first and last byte, an open end and a
  suffix length give that range cut at the end of the file, and whatever header is
  accepted, the range lies inside the file.
\<close>

theorem parseRange_reads:
  assumes "in_i64 len" "0 < len" "a < 2 ^ 63" "b < 2 ^ 63"
  shows "(int a < len \<and> a \<le> b \<longrightarrow> parseRange (''bytes='' @ show_nat a @ ''-'' @ show_nat b) len
            = (int a, min (int b) (len - 1), True, True))
    \<and> (int a < len \<longrightarrow> parseRange (''bytes='' @ show_nat a @ ''-'') len = (int a, len - 1, True, True))
    \<and> (0 < b \<longrightarrow> parseRange (''bytes=-'' @ show_nat b) len = (max 0 (len - int b), len - 1, True, True))
    \<and> (\<forall>h s e partial. parseRange h len = (s, e, partial, True) \<longrightarrow> 0 \<le> s \<and> s \<le> e \<and> e < len)"
proof (intro conjI allI impI; (elim conjE)?)
  assume "int a < len" "a \<le> b"
  then show "parseRange (''bytes='' @ show_nat a @ ''-'' @ show_nat b) len = (int a, min (int b) (len - 1), True, True)"
    using parseRange_pair[OF assms(2), of "show_nat a" "show_nat b"] show_nat_plain show_nat_facts assms(3,4)
    by (auto simp: parse_show_nat)
next
  assume "int a < len"
  then show "parseRange (''bytes='' @ show_nat a @ ''-'') len = (int a, len - 1, True, True)"
    using parseRange_pair[OF assms(2), of "show_nat a" "[]"] show_nat_plain show_nat_facts assms(3)
    by (auto simp: parse_show_nat)
next
  assume "0 < b"
  moreover have "i64 (len - x) = len - x" if "0 \<le> x" "x \<le> len" for x
    using that assms(1,2) by (simp add: i64_small in_i64_def)
  ultimately show "parseRange (''bytes=-'' @ show_nat b) len = (max 0 (len - int b), len - 1, True, True)"
    using parseRange_pair[OF assms(2), of "[]" "show_nat b"] show_nat_plain assms(2,4)
    by (auto simp: parse_show_nat)
next
  fix h s e partial assume "parseRange h len = (s, e, partial, True)"
  from parseRange_within[OF this assms(1)] show "0 \<le> s" "s \<le> e" "e < len" by blast+
qed

theorem parseRange_reads_witness:
  "parseRange (''bytes='' @ show_nat 2 @ ''-'' @ show_nat 9) 6 = (2, 5, True, True)"
proof -
  have "in_i64 6" by (simp add: in_i64_def)
  from parseRange_reads[OF this, of 2 9] show ?thesis by simp
qed

section \<open>Every path that is served lies in the download root\<close>

lemma contained_abs: "cwd_ok cwd \<Longrightarrow> contained r p \<Longrightarrow> path_abs cwd p = Inr p"
  unfolding contained_def by (auto simp: path_abs_def)

lemma open_tries_paths:
  "open_tries cwd rootdir name path ts = Inr p \<Longrightarrow>
     p = path \<or> (\<exists>status. safeQBContentPath cwd rootdir status name = Inr p)"
  by (induction cwd rootdir name path ts rule: open_tries.induct)
    (fastforce simp: Let_def split: if_splits option.splits sum.splits pass_end.splits)+

text \<open>
  Property C20. Neither strategy ever hands out a path outside the download root: not the
  persisted path of a completed file, and not what the engine reports before or while a
  torrent moves its content.
\<close>

theorem readable_path_contained:
  assumes "cwd_ok cwd" and "path_abs cwd rootdir = Inr r"
    and "ReadableRangePath pfx cwd rootdir stat a d start count = Inr p"
  shows "\<exists>q. path_abs cwd p = Inr q \<and> contained r q"
proof (cases "completedLocalFile stat d")
  case True
  then have "p = d_AbsolutePath d" "ValidateSourcePath cwd rootdir d = Inr ()"
    using assms(3) by (auto simp: ReadableRangePath_def localReadablePath_def split: sum.splits if_splits option.splits)
  then show ?thesis using ValidateSourcePath_contained[OF assms(1,2)] by auto
next
  case False
  then obtain status path where p: "safeQBContentPath cwd rootdir status (d_FilePath d) = Inr path"
    "open_tries cwd rootdir (d_FilePath d) path (ea_tries a) = Inr p"
    using assms(3) by (auto simp: ReadableRangePath_def progressiveReadablePath_def split: if_splits sum.splits option.splits)
  then obtain status' where "safeQBContentPath cwd rootdir status' (d_FilePath d) = Inr p"
    using open_tries_paths by blast
  then show ?thesis using safeQBContentPath_contained[OF assms(1,2)] contained_abs[OF assms(1)] by blast
qed

theorem readable_path_contained_witness:
  "\<exists>q. path_abs (Some ''/'') ''/srv/a.mkv'' = Inr q \<and> contained ''/srv'' q"
proof -
  have r: "path_abs (Some ''/'') ''/srv'' = Inr ''/srv''" by code_simp
  have "ReadableRangePath ''qb:'' (Some ''/'') ''/srv'' (\<lambda>p. Some (FileInfo False 6))
      \<lparr>ea_status = Inl [], ea_prepare = None, ea_passes = [], ea_tries = []\<rparr> sample_row 0 6 = Inr ''/srv/a.mkv''"
    by code_simp
  from readable_path_contained[OF _ r this] show ?thesis by (simp add: cwd_ok_def is_abs_def has_prefix_def)
qed

section \<open>What a client receives\<close>

lemma MiB_pos [simp]: "0 < MiB" "0 \<le> MiB"
  by (simp_all add: MiB_def)

lemma prefix_take_le: "n \<le> m \<Longrightarrow> prefix (take n xs) (take m xs)"
  by (metis min.absorb1 take_is_prefix take_take)

lemma copy_blocks_out:
  "copy_blocks ev k rest remaining out = (r, ok) \<Longrightarrow> \<exists>b. r = out @ b \<and> prefix b (take (nat remaining) rest)
     \<and> (ok \<longrightarrow> b = take (nat remaining) rest \<and> length b = nat remaining)
     \<and> ((\<forall>k. ev k = BlockOk) \<and> remaining \<le> int (length rest) \<longrightarrow> ok)"
proof (induction ev k rest remaining out rule: copy_blocks.induct)
  case (1 ev k rest remaining out)
  let ?n = "nat (min MiB remaining)" and ?got = "take (nat (min MiB remaining)) rest"
  show ?case
  proof (cases "remaining \<le> 0")
    case True
    then show ?thesis using 1(2) by (simp add: copy_blocks.simps)
  next
    case pos: False
    then have n: "?n \<le> nat remaining" "0 < min MiB remaining" by (auto simp: MiB_def)
    show ?thesis
    proof (cases "ev k = BlockOk \<and> min MiB remaining \<le> int (length ?got)")
      case True
      then have len: "length ?got = ?n" using n by auto
      have g: "int (length ?got) = min MiB remaining" using len n by simp
      have "copy_blocks ev k rest remaining out
          = copy_blocks ev (Suc k) (drop (length ?got) rest) (remaining - int (length ?got)) (out @ ?got)"
        by (subst copy_blocks.simps) (simp only: Let_def block_event.case pos if_False True[THEN conjunct1] g less_irrefl)
      then have e: "copy_blocks ev (Suc k) (drop (length ?got) rest) (remaining - int (length ?got)) (out @ ?got) = (r, ok)"
        using 1(2) by (simp only:)
      have "\<not> int (length ?got) < min MiB remaining" unfolding g by (rule less_irrefl)
      from 1(1)[OF pos True[THEN conjunct1] refl this e, unfolded len] obtain b where
        b: "r = (out @ ?got) @ b" "prefix b (take (nat (remaining - int ?n)) (drop ?n rest))"
        "ok \<longrightarrow> b = take (nat (remaining - int ?n)) (drop ?n rest) \<and> length b = nat (remaining - int ?n)"
        "(\<forall>k. ev k = BlockOk) \<and> remaining - int ?n \<le> int (length (drop ?n rest)) \<longrightarrow> ok"
        by (elim exE conjE) (rule that)
      have sum: "nat (remaining - int ?n) + ?n = nat remaining" using n by (simp add: nat_diff_distrib min_def)
      then have t: "take (nat remaining) rest = ?got @ take (nat (remaining - int ?n)) (drop ?n rest)"
        using take_add[of ?n "nat (remaining - int ?n)" rest] sum by (simp only: add.commute)
      show ?thesis
      proof (intro exI[of _ "?got @ b"] conjI impI)
        show "r = out @ ?got @ b" using b(1) by simp
        show "prefix (?got @ b) (take (nat remaining) rest)" unfolding t using b(2) by (simp only: same_prefix_prefix)
      next
        assume ok
        then have b': "b = take (nat (remaining - int ?n)) (drop ?n rest)" "length b = nat (remaining - int ?n)"
          using b(3) by blast+
        show "?got @ b = take (nat remaining) rest" unfolding t b'(1) by (rule refl)
        show "length (?got @ b) = nat remaining" using b'(2) len sum by (simp only: length_append)
      next
        assume "(\<forall>k. ev k = BlockOk) \<and> remaining \<le> int (length rest)"
        moreover have "int (length (drop ?n rest)) = int (length rest) - int ?n" using len
          by (simp only: length_drop length_take) linarith
        ultimately show ok using b(4) by (auto simp only: diff_right_mono)
      qed
    next
      case False
      have p: "prefix (take m ?got) (take (nat remaining) rest)" for m
        using prefix_take_le[of "min m ?n" "nat remaining" rest] n(1) by (simp only: take_take min.coboundedI2)
      have lt: "ev k = BlockOk \<Longrightarrow> int (length ?got) < min MiB remaining" using False by linarith
      have step: "copy_blocks ev k rest remaining out = (case ev k of
          BlockCancelled \<Rightarrow> (out, False) | BlockWritten i \<Rightarrow> (out @ take i ?got, False) | BlockOk \<Rightarrow> (out @ ?got, False))"
        using lt by (subst copy_blocks.simps) (cases "ev k"; simp only: block_event.case Let_def pos if_False if_True simp_thms)
      show ?thesis
      proof (cases "ev k")
        case BlockOk
        then have "length ?got < ?n" using False n(2) by linarith
        then have "\<not> remaining \<le> int (length rest)" using n by (simp only: length_take)
        moreover have "prefix ?got (take (nat remaining) rest)" using p[of "length ?got"] by (simp only: take_all order_refl)
        ultimately show ?thesis using step 1(2) by (simp only: BlockOk block_event.case prod.inject) blast
      next
        case BlockCancelled
        then show ?thesis using step 1(2) by auto
      next
        case (BlockWritten i)
        then show ?thesis using step 1(2) p[of i] by (auto simp only: block_event.case)
      qed
    qed
  qed
qed

text \<open>The files hold the medium where the service answers for it.\<close>

definition honest :: "stream_world \<Rightarrow> string \<Rightarrow> bool" where
  "honest w media \<longleftrightarrow> (\<forall>pos chunk path c. sw_path w pos chunk = Inr path \<and> sw_files w pos path = Some c
     \<longrightarrow> prefix (take (nat chunk) (drop (nat pos) c)) (drop (nat pos) media))"

definition fault_free :: "stream_world \<Rightarrow> string \<Rightarrow> bool" where
  "fault_free w media \<longleftrightarrow> (\<forall>pos k. sw_blocks w pos k = BlockOk)
     \<and> (\<forall>pos chunk. 0 \<le> pos \<and> 0 < chunk \<and> pos + chunk \<le> int (length media) \<longrightarrow>
          (\<exists>path c. sw_path w pos chunk = Inr path \<and> sw_files w pos path = Some c \<and> pos + chunk \<le> int (length c)))"

lemma copyRange_out:
  assumes "copyRange (sw_files w pos) (sw_blocks w pos) path pos chunk = (bytes, ok)"
    and "sw_path w pos c0 = Inr path" "0 < chunk" "chunk \<le> c0" "0 \<le> pos" "pos + c0 \<le> int (length media)"
    and "honest w media"
  shows "prefix bytes (take (nat chunk) (drop (nat pos) media))
    \<and> (ok \<longrightarrow> bytes = take (nat chunk) (drop (nat pos) media)) \<and> (fault_free w media \<longrightarrow> ok)"
proof (cases "sw_files w pos path")
  case None
  moreover have "\<not> fault_free w media"
    using None assms(2-6) unfolding fault_free_def by (metis less_le_trans option.distinct(1) sum.inject(2))
  ultimately show ?thesis using assms(1) by (simp add: copyRange_def)
next
  case (Some c)
  have h: "prefix (take (nat c0) (drop (nat pos) c)) (drop (nat pos) media)"
    using assms(2,7) Some unfolding honest_def by blast
  have pc: "prefix (take (nat chunk) (drop (nat pos) c)) (take (nat chunk) (drop (nat pos) media))"
  proof -
    have "take (nat chunk) (drop (nat pos) c) = take (nat chunk) (take (nat c0) (drop (nat pos) c))"
      using assms(4) by simp
    moreover obtain z where "drop (nat pos) media = take (nat c0) (drop (nat pos) c) @ z" using h by (rule prefixE)
    ultimately show ?thesis by (simp add: prefix_def)
  qed
  obtain b where b: "bytes = b" "prefix b (take (nat chunk) (drop (nat pos) c))"
    "ok \<longrightarrow> b = take (nat chunk) (drop (nat pos) c) \<and> length b = nat chunk"
    "(\<forall>k. sw_blocks w pos k = BlockOk) \<and> chunk \<le> int (length (drop (nat pos) c)) \<longrightarrow> ok"
    using copy_blocks_out[of "sw_blocks w pos" 0 "drop (nat pos) c" chunk "[]" bytes ok] assms(1) Some
    by (auto simp: copyRange_def)
  have "ok" if "fault_free w media"
  proof -
    have "pos + c0 \<le> int (length c)" using that assms(2-6) Some unfolding fault_free_def
      by (metis less_le_trans option.inject sum.inject(2))
    then show ?thesis using b(4) that assms(4,5) unfolding fault_free_def by auto
  qed
  moreover have "ok \<longrightarrow> b = take (nat chunk) (drop (nat pos) media)"
    using b(3) pc by (metis length_take min.cobounded2 not_equal_is_parallel prefix_length_le
        le_antisym parallelD1)
  ultimately show ?thesis using b(1,2) pc prefix_order.trans by blast
qed

lemma chunk_loop_serves:
  assumes "0 \<le> start" "start \<le> position" "position \<le> e + 1" "e < int (length media)" "int (length media) < 2 ^ 62"
    and "0 < chunkSize" "chunkSize < 2 ^ 62" "0 < readAhead" "readAhead < 2 ^ 61"
    and "position = start \<longrightarrow> sw_path w start chunkSize = Inr path \<and> start + chunkSize \<le> int (length media)"
  shows "\<exists>r. chunk_loop w readAhead start e path position chunkSize out = Some r
    \<and> (honest w media \<longrightarrow> (\<exists>b. r = out @ b \<and> prefix b (take (nat (e + 1 - position)) (drop (nat position) media))
        \<and> (fault_free w media \<longrightarrow> b = take (nat (e + 1 - position)) (drop (nat position) media))))"
  using assms(2,3,6,7,10)
proof (induction "nat (e + 1 - position)" arbitrary: position chunkSize path out rule: less_induct)
  case less
  let ?c1 = "if chunkSize > readAhead then readAhead else chunkSize"
  let ?chunk = "if ?c1 > e - position + 1 then e - position + 1 else ?c1"
  let ?want = "take (nat (e + 1 - position)) (drop (nat position) media)"
  show ?case
  proof (cases "position > e")
    case True
    then show ?thesis by (simp add: chunk_loop.simps)
  next
    case False
    then have ch: "0 < ?chunk" "?chunk \<le> chunkSize" "?chunk \<le> readAhead" "position + ?chunk \<le> e + 1"
      using less.prems(3) assms(8) by auto
    show ?thesis
    proof (cases "if position = start then Inr path else sw_path w position ?chunk")
      case (Inl err)
      have "\<not> fault_free w media"
      proof
        assume "fault_free w media"
        then obtain q where "sw_path w position ?chunk = Inr q"
          using less.prems(1) ch assms(1,4) unfolding fault_free_def by (metis add1_zle_eq order_trans)
        with Inl show False by (simp split: if_splits)
      qed
      with False Inl show ?thesis by (subst chunk_loop.simps) (simp add: Let_def)
    next
      case (Inr current)
      then obtain c0 where c0: "sw_path w position c0 = Inr current" "?chunk \<le> c0" "position + c0 \<le> int (length media)"
        using less.prems(5) ch assms(4) by (cases "position = start") auto
      obtain bytes ok where c: "copyRange (sw_files w position) (sw_blocks w position) current position ?chunk = (bytes, ok)"
        by fastforce
      have out: "honest w media \<longrightarrow> prefix bytes (take (nat ?chunk) (drop (nat position) media))
          \<and> (ok \<longrightarrow> bytes = take (nat ?chunk) (drop (nat position) media)) \<and> (fault_free w media \<longrightarrow> ok)"
        using copyRange_out[OF c c0(1) ch(1) c0(2) _ c0(3)] less.prems(1) assms(1) by auto
      have "nat (e + 1 - position) = nat ?chunk + nat (e + 1 - (position + ?chunk))"
        using ch by (simp add: nat_add_distrib[symmetric] del: nat_add_distrib)
      then have split: "?want = take (nat ?chunk) (drop (nat position) media)
          @ take (nat (e + 1 - (position + ?chunk))) (drop (nat (position + ?chunk)) media)"
        using ch(1) less.prems(1) assms(1) by (simp add: take_add nat_add_distrib add.commute)
      show ?thesis
      proof (cases ok)
        case False
        have "chunk_loop w readAhead start e path position chunkSize out = Some (out @ bytes)"
          using \<open>\<not> position > e\<close> Inr c False by (subst chunk_loop.simps) (simp only: Let_def if_False sum.case prod.case simp_thms if_True)
        then show ?thesis using out False unfolding split by auto
      next
        case True
        have i: "i64 (position + ?chunk) = position + ?chunk" "i64 (?chunk * 2) = ?chunk * 2"
          using ch assms(1,4,5,9) less.prems(1) by (auto intro!: i64_small)
        have "chunk_loop w readAhead start e path position chunkSize out
            = chunk_loop w readAhead start e current (position + ?chunk) (?chunk * 2) (out @ bytes)"
          using \<open>\<not> position > e\<close> Inr c True by (subst chunk_loop.simps) (simp only: Let_def if_False sum.case prod.case simp_thms i)
        moreover have "\<exists>r. chunk_loop w readAhead start e current (position + ?chunk) (?chunk * 2) (out @ bytes) = Some r
          \<and> (honest w media \<longrightarrow> (\<exists>b. r = (out @ bytes) @ b
              \<and> prefix b (take (nat (e + 1 - (position + ?chunk))) (drop (nat (position + ?chunk)) media))
              \<and> (fault_free w media \<longrightarrow> b = take (nat (e + 1 - (position + ?chunk))) (drop (nat (position + ?chunk)) media))))"
          using ch less.prems(1) assms(9) by (intro less.hyps) auto
        ultimately show ?thesis using out True unfolding split by auto
      qed
    qed
  qed
qed

text \<open>
  Property C18. A player is never sent a wrong byte, and the answer ends. With settings
  that passed validation, the handler always returns; an answer of success announces the
  length of the requested range and carries a prefix of exactly those bytes of the
  medium, in order, whatever fails in between, and all of them when nothing fails.
\<close>

theorem stream_serves_range:
  assumes "validate pr st = None" and "d_SizeBytes d = int (length media)" "int (length media) < 2 ^ 62"
  shows "\<exists>r. stream cwd st w False header (Inr d) = Some r
    \<and> (rp_status r \<in> {200, 206} \<and> honest w media \<longrightarrow>
        (case parseRange header (d_SizeBytes d) of (s, e, partial, ok) \<Rightarrow>
          0 \<le> s \<and> s \<le> e \<and> e < d_SizeBytes d \<and> rp_length r = e - s + 1
          \<and> prefix (rp_body r) (take (nat (e + 1 - s)) (drop (nat s) media))
          \<and> (fault_free w media \<longrightarrow> rp_body r = take (nat (e + 1 - s)) (drop (nat s) media))))"
proof -
  obtain s e partial ok where p: "parseRange header (d_SizeBytes d) = (s, e, partial, ok)" by (metis prod_cases4)
  let ?first = "if cf_StreamStartBytes st > e - s + 1 then e - s + 1 else cf_StreamStartBytes st"
  have sizes: "0 < cf_StreamStartBytes st" "cf_StreamStartBytes st < 2 ^ 61"
      "0 < cf_ReadAheadBytes st" "cf_ReadAheadBytes st < 2 ^ 61"
    using assms(1) by (auto simp: validate_def MiB_def split: if_splits)
  show ?thesis
  proof (cases "ok \<and> ValidateSourcePath cwd (cf_DownloadRoot st) d = Inr ()")
    case False
    show ?thesis
    proof (cases ok)
      case True
      with False obtain err where "ValidateSourcePath cwd (cf_DownloadRoot st) d = Inl err"
        by (cases "ValidateSourcePath cwd (cf_DownloadRoot st) d") auto
      then show ?thesis using p True by (simp add: stream_def failure_def Let_def)
    qed (use p in \<open>simp add: stream_def failure_def\<close>)
  next
    case True
    then have within: "0 \<le> s \<and> s \<le> e \<and> e < d_SizeBytes d"
      using parseRange_within[of header "d_SizeBytes d" s e partial] p assms(2,3) by (auto simp: in_i64_def)
    show ?thesis
    proof (cases "sw_path w s ?first")
      case (Inl x)
      then show ?thesis using p True by (auto simp: stream_def failure_def Let_def)
    next
      case (Inr path)
      have "\<exists>r. chunk_loop w (cf_ReadAheadBytes st) s e path s ?first [] = Some r
        \<and> (honest w media \<longrightarrow> (\<exists>b. r = [] @ b \<and> prefix b (take (nat (e + 1 - s)) (drop (nat s) media))
            \<and> (fault_free w media \<longrightarrow> b = take (nat (e + 1 - s)) (drop (nat s) media))))"
        using within sizes assms(2,3) Inr by (intro chunk_loop_serves) auto
      then show ?thesis using p True Inr within by (auto simp: stream_def Let_def)
    qed
  qed
qed

definition sample_stream :: stream_world where
  "sample_stream = \<lparr>sw_path = (\<lambda>pos chunk. Inr ''/srv/a.mkv''), sw_files = (\<lambda>pos path. Some ''abcdef''),
     sw_blocks = (\<lambda>pos k. BlockOk)\<rparr>"

theorem stream_serves_range_witness:
  "\<exists>r. stream (Some ''/'') (sample_settings\<lparr>cf_DownloadRoot := ''/srv''\<rparr>) sample_stream False ''bytes=2-4'' (Inr sample_row) = Some r
     \<and> rp_status r = 206 \<and> rp_body r = ''cde''"
proof -
  let ?st = "sample_settings\<lparr>cf_DownloadRoot := ''/srv''\<rparr>"
  have st: "validate sample_process ?st = None" by code_simp
  have p: "parseRange ''bytes=2-4'' 6 = (2, 4, True, True)" by code_simp
  have v: "ValidateSourcePath (Some ''/'') ''/srv'' sample_row = Inr ()" by code_simp
  have size: "d_SizeBytes sample_row = 6" by (simp add: sample_row_def)
  have h: "honest sample_stream ''abcdef''" by (auto simp: honest_def sample_stream_def take_is_prefix)
  have f: "fault_free sample_stream ''abcdef''" by (auto simp: fault_free_def sample_stream_def)
  obtain r where r: "stream (Some ''/'') ?st sample_stream False ''bytes=2-4'' (Inr sample_row) = Some r"
    "rp_status r \<in> {200, 206} \<Longrightarrow> rp_body r = take (nat (4 + 1 - 2)) (drop (nat 2) ''abcdef'')"
    using stream_serves_range[OF st, of sample_row "''abcdef''" "Some ''/''" sample_stream "''bytes=2-4''"] p size h f
    by auto
  then have "rp_status r = 206" using p v size by (auto simp: stream_def Let_def sample_stream_def)
  then show ?thesis using r by (intro exI[of _ r]) simp
qed

end
