(* ===== verification/DownloadTable.thy ===== *)
theory DownloadTable
  imports JobTable "HOL-Library.Product_Lexorder" "HOL-Library.List_Lexorder" "HOL-Library.Char_ord"
begin

text \<open>
  The \<open>downloads\<close> table of \<open>internal/adapters/sqlite/repository.go\<close>: \<open>SaveDownload\<close>,
  \<open>DeleteDownload\<close>, \<open>GetDownload\<close>, \<open>FindDownload\<close>, \<open>ListDownloads\<close> and \<open>SetLease\<close>, with the
  abstract map it refines and the interface the download operations rest on. Times are
  stored in whole seconds; the upload speed has no column.
\<close>

section \<open>The statements\<close>

definition stored_download :: "download \<Rightarrow> download" where
  "stored_download d = d\<lparr>
     d_CreatedAt := unix_trunc (d_CreatedAt d), d_UpdatedAt := unix_trunc (d_UpdatedAt d),
     d_UploadSpeedBytesPerSecond := 0\<rparr>"

text \<open>The \<open>DO UPDATE\<close> clause keeps the release, file, size, offset and creation time.\<close>

definition update_download :: "download \<Rightarrow> download \<Rightarrow> download" where
  "update_download old new = old\<lparr>
     d_EngineID := d_EngineID new, d_AbsolutePath := d_AbsolutePath new, d_PieceSize := d_PieceSize new,
     d_State := d_State new, d_Progress := d_Progress new, d_DownloadedBytes := d_DownloadedBytes new,
     d_SpeedBytesPerSecond := d_SpeedBytesPerSecond new, d_ETASeconds := d_ETASeconds new,
     d_Peers := d_Peers new, d_Seeds := d_Seeds new, d_BufferedBytes := d_BufferedBytes new,
     d_Leased := d_Leased new, d_Error := d_Error new, d_UpdatedAt := d_UpdatedAt new\<rparr>"

definition SaveDownload :: "download \<Rightarrow> download list \<Rightarrow> download list" where
  "SaveDownload d rows =
     (if \<exists>r\<in>set rows. d_ID r = d_ID d
      then map (\<lambda>r. if d_ID r = d_ID d then update_download r (stored_download d) else r) rows
      else rows @ [stored_download d])"

text \<open>\<open>None\<close> is \<open>sql.ErrNoRows\<close>.\<close>

definition DeleteDownload :: "string \<Rightarrow> download list \<Rightarrow> download list option" where
  "DeleteDownload k rows =
     (if \<exists>r\<in>set rows. d_ID r = k then Some (filter (\<lambda>r. d_ID r \<noteq> k) rows) else None)"

definition GetDownload :: "string \<Rightarrow> download list \<Rightarrow> download option" where
  "GetDownload k rows = find (\<lambda>r. d_ID r = k) rows"

text \<open>The newest complete row of the release (and file, for an index of at least 0) comes
  first, then the newest incomplete one.\<close>

definition FindDownload :: "string \<Rightarrow> int \<Rightarrow> download list \<Rightarrow> download option" where
  "FindDownload releaseID fileIndex rows =
     (case sort_key (\<lambda>r. (if d_Progress r \<ge> 1 then 0 else 1 :: int, - d_UpdatedAt r))
             (filter (\<lambda>r. d_ReleaseID r = releaseID \<and> (fileIndex \<ge> 0 \<longrightarrow> d_FileIndex r = fileIndex)) rows) of
        [] \<Rightarrow> None | r # _ \<Rightarrow> Some r)"

definition ListDownloads :: "download list \<Rightarrow> download list" where
  "ListDownloads rows = sort_key (\<lambda>r. (- d_CreatedAt r, d_ID r)) rows"

definition SetLease :: "gotime \<Rightarrow> string \<Rightarrow> bool \<Rightarrow> download list \<Rightarrow> download list option" where
  "SetLease now k v rows =
     (if \<exists>r\<in>set rows. d_ID r = k
      then Some (map (\<lambda>r. if d_ID r = k then r\<lparr>d_Leased := v, d_UpdatedAt := unix_trunc now\<rparr> else r) rows)
      else None)"

section \<open>The table as a map\<close>

definition rows_ok :: "download list \<Rightarrow> bool" where
  "rows_ok rows \<longleftrightarrow> distinct (map d_ID rows)"

definition merged_row :: "download option \<Rightarrow> download \<Rightarrow> download" where
  "merged_row old d = (case old of None \<Rightarrow> stored_download d | Some r \<Rightarrow> update_download r (stored_download d))"

lemma row_id_simps [simp]:
  "d_ID (stored_download d) = d_ID d" "d_ID (update_download r d) = d_ID r"
  "d_ID (merged_row (Some r) d) = d_ID r" "d_ID (merged_row None d) = d_ID d"
  by (simp_all add: stored_download_def update_download_def merged_row_def)

lemma GetDownload_Some: "GetDownload k rows = Some r \<Longrightarrow> r \<in> set rows \<and> d_ID r = k"
  by (auto simp: GetDownload_def find_Some_iff)

lemma GetDownload_None: "GetDownload k rows = None \<longleftrightarrow> (\<forall>r\<in>set rows. d_ID r \<noteq> k)"
  by (auto simp: GetDownload_def find_None_iff)

lemma GetDownload_map:
  assumes "\<And>r. d_ID (f r) = d_ID r"
  shows "GetDownload k (map f rows) = map_option f (GetDownload k rows)"
  unfolding GetDownload_def by (induction rows) (auto simp: assms)

lemma GetDownload_append:
  "GetDownload k (a @ b) = (case GetDownload k a of None \<Rightarrow> GetDownload k b | Some r \<Rightarrow> Some r)"
  unfolding GetDownload_def by (induction a) auto

lemma GetDownload_single: "GetDownload k [r] = (if d_ID r = k then Some r else None)"
  by (simp add: GetDownload_def)

lemma GetDownload_mem: "rows_ok rows \<Longrightarrow> r \<in> set rows \<Longrightarrow> GetDownload (d_ID r) rows = Some r"
  unfolding GetDownload_def rows_ok_def by (induction rows) (auto simp: image_iff)

lemma ids_map: "(\<And>r. d_ID (f r) = d_ID r) \<Longrightarrow> map d_ID (map f rows) = map d_ID rows"
  by simp

lemma SaveDownload_ok: "rows_ok rows \<Longrightarrow> rows_ok (SaveDownload d rows)"
  by (auto simp: rows_ok_def SaveDownload_def ids_map simp del: map_map)

lemma GetDownload_SaveDownload:
  "GetDownload k (SaveDownload d rows) = (if k = d_ID d then Some (merged_row (GetDownload k rows) d) else GetDownload k rows)"
proof (cases "\<exists>r\<in>set rows. d_ID r = d_ID d")
  case True
  then have "GetDownload k (SaveDownload d rows)
      = map_option (\<lambda>r. if d_ID r = d_ID d then update_download r (stored_download d) else r) (GetDownload k rows)"
    by (simp add: SaveDownload_def GetDownload_map)
  moreover have "GetDownload k rows = None \<Longrightarrow> k \<noteq> d_ID d" using True by (auto simp: GetDownload_None)
  moreover have "GetDownload k rows = Some r \<Longrightarrow> d_ID r = k" for r using GetDownload_Some by blast
  ultimately show ?thesis by (cases "GetDownload k rows") (auto simp: merged_row_def)
next
  case False
  then have "GetDownload (d_ID d) rows = None" by (auto simp: GetDownload_None)
  then show ?thesis using False
    by (auto simp: SaveDownload_def GetDownload_append merged_row_def GetDownload_single split: option.splits)
qed

lemma GetDownload_filter:
  "GetDownload k (filter (\<lambda>r. d_ID r \<noteq> j) rows) = (if k = j then None else GetDownload k rows)"
  unfolding GetDownload_def by (induction rows) auto

lemma ListDownloads_set [simp]: "set (ListDownloads rows) = set rows"
  by (simp add: ListDownloads_def)

lemma ListDownloads_ids: "rows_ok rows \<Longrightarrow> rows_ok (ListDownloads rows)"
  by (simp add: rows_ok_def ListDownloads_def distinct_map)

lemma DeleteDownload_Some:
  "DeleteDownload j rows = Some rows' \<Longrightarrow>
     GetDownload k rows' = (if k = j then None else GetDownload k rows) \<and> (rows_ok rows \<longrightarrow> rows_ok rows')"
  by (auto simp: DeleteDownload_def GetDownload_filter rows_ok_def distinct_map_filter split: if_splits)

definition leased_row :: "gotime \<Rightarrow> bool \<Rightarrow> download \<Rightarrow> download" where
  "leased_row now v r = r\<lparr>d_Leased := v, d_UpdatedAt := unix_trunc now\<rparr>"

lemma SetLease_Some:
  assumes "SetLease now j v rows = Some rows'"
  shows "GetDownload k rows' = (if k = j then map_option (leased_row now v) (GetDownload j rows) else GetDownload k rows)"
    and "rows_ok rows \<Longrightarrow> rows_ok rows'"
proof -
  have rows': "rows' = map (\<lambda>r. if d_ID r = j then leased_row now v r else r) rows"
    using assms by (auto simp: SetLease_def leased_row_def split: if_splits)
  then show "rows_ok rows \<Longrightarrow> rows_ok rows'"
    by (simp add: rows_ok_def leased_row_def o_def if_distrib cong: if_cong)
  show "GetDownload k rows' = (if k = j then map_option (leased_row now v) (GetDownload j rows) else GetDownload k rows)"
    unfolding rows' using GetDownload_Some[of k rows]
    by (subst GetDownload_map; cases "GetDownload k rows") (auto simp: leased_row_def)
qed

lemma missing_row: "DeleteDownload j rows = None \<longleftrightarrow> GetDownload j rows = None"
    "SetLease now j v rows = None \<longleftrightarrow> GetDownload j rows = None"
  by (auto simp: DeleteDownload_def SetLease_def GetDownload_None)


definition sample_download :: "string \<Rightarrow> gotime \<Rightarrow> download" where
  "sample_download k created =
     \<lparr>d_ID = k, d_ReleaseID = ''r'', d_EngineID = ''n:h'', d_FilePath = ''a.mkv'', d_AbsolutePath = ''/d/a.mkv'',
      d_State = ''downloading'', d_FileIndex = 0, d_SizeBytes = 10, d_FileOffset = 0, d_PieceSize = 4,
      d_BufferedBytes = 0, d_DownloadedBytes = 5, d_SpeedBytesPerSecond = 0, d_ETASeconds = 0, d_Peers = 0,
      d_Seeds = 0, d_UploadSpeedBytesPerSecond = 0, d_Progress = 1 / 2, d_Leased = False,
      d_CreatedAt = created, d_UpdatedAt = created, d_Error = []\<rparr>"


end
