(* ===== verification/Downloads.thy ===== *)
theory Downloads
  imports Effects DownloadTable Admission Streaming Manifest EpisodeFiles
begin

text \<open>
  Managed downloads, \<open>internal/application/service.go\<close>: preparing a file, an existing
  torrent's file or a season, keeping the file selection of a torrent, refreshing the
  list, pausing, resuming, retrying and removing, and the lease of a stream.

  The state \<open>dworld\<close> holds the table and the torrents of the storage model (\<open>rworld\<close>), the
  files of each torrent, the catalogued releases, the stored manifests and a journal of the
  \<open>PrepareFiles\<close> calls. The record \<open>dl_env\<close> has the clock, the settings, what the tracker and the
  engine answer and which calls fail. Each operation runs alone, as the code's locks
  make the operations on one file and on one torrent.
\<close>

section \<open>State and environment\<close>

record dworld =
  dw_store :: rworld
  dw_files :: "(string \<times> torrent_file list) list"
  dw_releases :: "torrent_release list"
  dw_manifests :: "torrent_manifest list"
  dw_prepared :: "(string \<times> int list \<times> int list) list"

datatype dl_error = NoRow | DBFailed string | TorrentGone | EngineFailed string | BadEngineRoute
  | NotPlayable | NoLongerAvailable | NoPriorities | NoMetadata | BadSavePath path_error
  | OverAllocation allocation_error | RoomFailed job_error | OpenFailed string | DeadRelease
  | DeadReleaseKept | NotAPack | NoEpisodes int | StillLeased | UnknownAction | RemoveFailed job_error

datatype engine_call = CallStatus string | CallFiles string | CallPrepare string | CallResume string
  | CallPause string | CallAdd | CallSave string | CallList | CallFind | CallLease string
  | CallManifest

datatype torrent_open = OpenOk | OpenRemoved | OpenError string

record dl_env =
  dv_ret :: retention_env
  dv_now :: gotime
  dv_cwd :: "string option"
  dv_root :: string
  dv_sourceID :: "string \<Rightarrow> string \<Rightarrow> string"
  dv_stat :: "string \<Rightarrow> file_info option"
  dv_fail :: "engine_call \<Rightarrow> dworld \<Rightarrow> string option"
  dv_manifest :: "torrent_release \<Rightarrow> torrent_file list option"
  dv_open :: "string \<Rightarrow> torrent_open"
  dv_added :: "torrent_release \<Rightarrow> string \<times> download_status \<times> torrent_file list"
  dv_polls :: "((string + torrent_file list) \<times> pass_end) list"
  dv_prepared :: "int list \<Rightarrow> int list \<Rightarrow> download_status \<Rightarrow> download_status"
  dv_switched :: "engine_call \<Rightarrow> download_status \<Rightarrow> download_status"
  dv_message :: "dl_error \<Rightarrow> string"

text \<open>\<open>dv_added\<close>, \<open>dv_prepared\<close> and \<open>dv_switched\<close> are the engine's: the hash, status and files of an
  added torrent and the status behind a \<open>PrepareFiles\<close>, \<open>Pause\<close> or \<open>Resume\<close>. \<open>dv_message\<close> is the
  text of an error.\<close>

type_synonym 'a dl_op = "(dworld, dl_error, 'a) op"

definition rows_of :: "dworld \<Rightarrow> download list" where
  "rows_of w = rw_rows (dw_store w)"

definition with_rows :: "download list \<Rightarrow> dworld \<Rightarrow> dworld" where
  "with_rows rows w = w\<lparr>dw_store := (dw_store w)\<lparr>rw_rows := rows\<rparr>\<rparr>"

text \<open>A call the environment may let fail.\<close>

definition may_fail :: "dl_env \<Rightarrow> engine_call \<Rightarrow> (string \<Rightarrow> dl_error) \<Rightarrow> unit dl_op" where
  "may_fail env c e = of_result (\<lambda>w. case dv_fail env c w of None \<Rightarrow> Inr () | Some s \<Rightarrow> Inl (e s))"

section \<open>Calls to the repository and the engine\<close>

definition list_downloads :: "dl_env \<Rightarrow> download list dl_op" where
  "list_downloads env = seq (may_fail env CallList DBFailed) (\<lambda>_. read_state (\<lambda>w. ListDownloads (rows_of w)))"

definition get_download :: "string \<Rightarrow> download dl_op" where
  "get_download k = of_result (\<lambda>w. case GetDownload k (rows_of w) of None \<Rightarrow> Inl NoRow | Some d \<Rightarrow> Inr d)"

definition find_download :: "dl_env \<Rightarrow> string \<Rightarrow> int \<Rightarrow> download dl_op" where
  "find_download env r i = seq (may_fail env CallFind DBFailed)
     (\<lambda>_. of_result (\<lambda>w. case FindDownload r i (rows_of w) of None \<Rightarrow> Inl NoRow | Some d \<Rightarrow> Inr d))"

definition save_download :: "dl_env \<Rightarrow> download \<Rightarrow> unit dl_op" where
  "save_download env d = seq (may_fail env (CallSave (d_ID d)) DBFailed)
     (\<lambda>_. write_state (\<lambda>w. with_rows (SaveDownload d (rows_of w)) w))"

definition set_lease :: "dl_env \<Rightarrow> string \<Rightarrow> bool \<Rightarrow> unit dl_op" where
  "set_lease env k v = seq (may_fail env (CallLease k) DBFailed)
     (\<lambda>_ w. case SetLease (dv_now env) k v (rows_of w) of
        None \<Rightarrow> (Inl NoRow, w) | Some rows \<Rightarrow> (Inr (), with_rows rows w))"

definition get_release :: "string \<Rightarrow> torrent_release dl_op" where
  "get_release k = of_result (\<lambda>w. case List.find (\<lambda>r. rel_ID r = k) (dw_releases w) of None \<Rightarrow> Inl NoRow | Some r \<Rightarrow> Inr r)"

definition route_of_row :: "dl_env \<Rightarrow> string \<Rightarrow> string dl_op" where
  "route_of_row env e = of_result (\<lambda>_. case route (dv_ret env) e of None \<Rightarrow> Inl BadEngineRoute | Some h \<Rightarrow> Inr h)"

definition engine_status :: "dl_env \<Rightarrow> string \<Rightarrow> download_status dl_op" where
  "engine_status env h = seq (may_fail env (CallStatus h) EngineFailed)
     (\<lambda>_. of_result (\<lambda>w. case map_of (rw_torrents (dw_store w)) h of None \<Rightarrow> Inl TorrentGone | Some st \<Rightarrow> Inr st))"

definition engine_files :: "dl_env \<Rightarrow> string \<Rightarrow> torrent_file list dl_op" where
  "engine_files env h = seq (may_fail env (CallFiles h) EngineFailed)
     (\<lambda>_. of_result (\<lambda>w. case map_of (rw_torrents (dw_store w)) h of None \<Rightarrow> Inl TorrentGone
        | Some _ \<Rightarrow> (case map_of (dw_files w) h of None \<Rightarrow> Inr [] | Some fs \<Rightarrow> Inr fs)))"

definition on_torrent :: "string \<Rightarrow> (download_status \<Rightarrow> download_status) \<Rightarrow> dworld \<Rightarrow> dworld" where
  "on_torrent h f w = w\<lparr>dw_store := (dw_store w)\<lparr>rw_torrents :=
     map (\<lambda>(k, st). if k = h then (k, f st) else (k, st)) (rw_torrents (dw_store w))\<rparr>\<rparr>"

definition engine_prepare :: "dl_env \<Rightarrow> string \<Rightarrow> int list \<Rightarrow> int list \<Rightarrow> unit dl_op" where
  "engine_prepare env h indices subs = seq (may_fail env (CallPrepare h) EngineFailed)
     (\<lambda>_. write_state (\<lambda>w. (on_torrent h (dv_prepared env indices subs) w)
        \<lparr>dw_prepared := dw_prepared w @ [(h, indices, subs)]\<rparr>))"

text \<open>\<open>Pause\<close> and \<open>Resume\<close> of the engine; a missing torrent is \<open>ErrTorrentNotFound\<close>.\<close>

definition engine_switch :: "dl_env \<Rightarrow> engine_call \<Rightarrow> string \<Rightarrow> unit dl_op" where
  "engine_switch env c h = seq (may_fail env c EngineFailed)
     (\<lambda>_ w. case map_of (rw_torrents (dw_store w)) h of
        None \<Rightarrow> (Inl TorrentGone, w)
      | Some _ \<Rightarrow> (Inr (), on_torrent h (dv_switched env c) w))"

definition engine_add :: "dl_env \<Rightarrow> torrent_release \<Rightarrow> string dl_op" where
  "engine_add env r = seq (may_fail env CallAdd EngineFailed)
     (\<lambda>_ w. case dv_added env r of (h, st, fs) \<Rightarrow>
        (Inr h, if map_of (rw_torrents (dw_store w)) h \<noteq> None then w
          else w\<lparr>dw_store := (dw_store w)\<lparr>rw_torrents := rw_torrents (dw_store w) @ [(h, st)]\<rparr>,
                 dw_files := (h, fs) # dw_files w\<rparr>))"

section \<open>Files and status\<close>

definition subtitle :: "string \<Rightarrow> bool" where
  "subtitle p \<longleftrightarrow> to_lower (path_ext p) \<in> set [''.srt'', ''.ass'', ''.ssa'', ''.vtt'']"

definition trackerError :: "download_status \<Rightarrow> string" where
  "trackerError s = (if st_TrackerError s \<noteq> [] then st_TrackerError s
     else (case List.find (\<lambda>t. ts_Status t = 4 \<and> ts_Message t \<noteq> []) (st_Trackers s) of
        None \<Rightarrow> [] | Some t \<Rightarrow> ts_Message t))"

definition applyDownloadStatus :: "download \<Rightarrow> download_status \<Rightarrow> torrent_file option \<Rightarrow> download" where
  "applyDownloadStatus d status selected =
     (let d1 = d\<lparr>d_State := st_State status, d_PieceSize := st_PieceSize status,
            d_SpeedBytesPerSecond := st_SpeedBytesPerSecond status,
            d_UploadSpeedBytesPerSecond := st_UploadSpeedBytesPerSecond status,
            d_ETASeconds := st_ETASeconds status, d_Peers := st_Peers status, d_Seeds := st_Seeds status,
            d_Error := trackerError status\<rparr>;
          (progress, d2) = (case selected of
              None \<Rightarrow> (st_Progress status, d1)
            | Some f \<Rightarrow> (tf_Progress f,
                d1\<lparr>d_SizeBytes := (if tf_SizeBytes f > 0 then tf_SizeBytes f else d_SizeBytes d1),
                   d_FileOffset := tf_Offset f\<rparr>));
          p = max 0 (min 1 progress) in
      d2\<lparr>d_Progress := p,
         d_DownloadedBytes := (if d_SizeBytes d2 > 0 then \<lfloor>of_int (d_SizeBytes d2) * p\<rfloor> else st_DownloadedBytes status)\<rparr>)"

text \<open>The selection loop of \<open>Prepare\<close> and \<open>prepareExistingTorrentFile\<close>.\<close>

fun select_file :: "int \<Rightarrow> torrent_file option \<Rightarrow> torrent_file list \<Rightarrow> torrent_file option" where
  "select_file fileIndex selected [] = selected"
| "select_file fileIndex selected (f # fs) =
     (let s1 = (if tf_Index f = fileIndex then Some f else selected);
          s2 = (if fileIndex < 0 \<and> tf_Playable f
                   \<and> (case s1 of None \<Rightarrow> True | Some s \<Rightarrow> tf_SizeBytes f > tf_SizeBytes s)
                then Some f else s1) in
      select_file fileIndex s2 fs)"

definition subtitle_indices :: "torrent_file list \<Rightarrow> int list" where
  "subtitle_indices files = map tf_Index (filter (\<lambda>f. subtitle (tf_Path f)) files)"

text \<open>A failed listing only leaves out the managed rows.\<close>

definition managedTorrentIndices :: "dl_env \<Rightarrow> string \<Rightarrow> torrent_file list \<Rightarrow> int list \<Rightarrow> dworld \<Rightarrow> int list" where
  "managedTorrentIndices env engineID files extra w =
     (let available = set (map tf_Index (filter tf_Playable files));
          rows = (case dv_fail env CallList w of None \<Rightarrow> rows_of w | Some _ \<Rightarrow> []);
          wanted = filter (\<lambda>i. i \<in> available)
            (extra @ map d_FileIndex (filter (\<lambda>d. d_EngineID d = engineID) rows)) in
      sort (remdups wanted))"

definition dedupeManagedDownloads :: "(download \<Rightarrow> string) \<Rightarrow> download list \<Rightarrow> download list" where
  "dedupeManagedDownloads key items = rev (fst (fold (\<lambda>item (out, seen).
     if key item \<in> set seen then (out, seen) else (item # out, key item # seen)) items ([], [])))"

definition row_key_of :: "download \<Rightarrow> string" where
  "row_key_of item = (if d_EngineID item \<noteq> []
     then to_lower (d_EngineID item) @ '':'' @ show_int (d_FileIndex item) else d_ID item)"

section \<open>Preparing\<close>

fun await_files :: "((string + torrent_file list) \<times> pass_end) list \<Rightarrow> dl_error + torrent_file list" where
  "await_files [] = Inl NoMetadata"
| "await_files ((answer, stop) # polls) =
     (case answer of
        Inr (f # fs) \<Rightarrow> Inr (f # fs)
      | _ \<Rightarrow> (case stop of
            ContextDone \<Rightarrow> Inl NoMetadata
          | Deadline \<Rightarrow> Inl NoMetadata
          | Tick \<Rightarrow> await_files polls))"

definition prepareManagedDownload :: "dl_env \<Rightarrow> download \<Rightarrow> download dl_op" where
  "prepareManagedDownload env d =
     (if completedLocalFile (dv_stat env) d then ret d
      else
        seq (route_of_row env (d_EngineID d)) (\<lambda>h.
        seq (engine_status env h) (\<lambda>status.
        seq (if IsPaused (st_State status) then engine_switch env (CallResume h) h else ret ()) (\<lambda>_.
        seq (engine_files env h) (\<lambda>files.
        case List.find (\<lambda>f. tf_Index f = d_FileIndex d) (rev files) of
          None \<Rightarrow> fail NoLongerAvailable
        | Some selected \<Rightarrow>
            seq (read_state (managedTorrentIndices env (d_EngineID d) files [d_FileIndex d])) (\<lambda>indices.
            seq (engine_prepare env h indices (subtitle_indices files)) (\<lambda>_.
            seq (engine_status env h) (\<lambda>status'.
            if \<not> st_Sequential status' \<or> \<not> st_FirstLastPriority status' then fail NoPriorities
            else
              let d' = (applyDownloadStatus d status' (Some selected))\<lparr>d_UpdatedAt := dv_now env\<rparr> in
              seq (save_download env d') (\<lambda>_. ret d')))))))))"

text \<open>The row for a file of a torrent, saved over a row of the same source.\<close>

definition save_source :: "dl_env \<Rightarrow> string \<Rightarrow> string \<Rightarrow> torrent_file \<Rightarrow> download_status \<Rightarrow> download dl_op" where
  "save_source env releaseID engineID file status =
     (case safeQBPath (dv_cwd env) (dv_root env) (st_SavePath status) (tf_Path file) of
        Inl e \<Rightarrow> fail (BadSavePath e)
      | Inr target \<Rightarrow>
          (let d0 = \<lparr>d_ID = dv_sourceID env releaseID (tf_Path file), d_ReleaseID = releaseID,
                 d_EngineID = engineID, d_FilePath = tf_Path file, d_AbsolutePath = target, d_State = [],
                 d_FileIndex = tf_Index file, d_SizeBytes = tf_SizeBytes file, d_FileOffset = tf_Offset file,
                 d_PieceSize = 0, d_BufferedBytes = 0, d_DownloadedBytes = 0, d_SpeedBytesPerSecond = 0,
                 d_ETASeconds = 0, d_Peers = 0, d_Seeds = 0, d_UploadSpeedBytesPerSecond = 0, d_Progress = 0,
                 d_Leased = False, d_CreatedAt = dv_now env, d_UpdatedAt = dv_now env, d_Error = []\<rparr>;
               d1 = applyDownloadStatus d0 status (Some file) in
           seq (read_state (\<lambda>w. GetDownload (d_ID d1) (rows_of w))) (\<lambda>old.
             let d2 = (case old of None \<Rightarrow> d1 | Some o' \<Rightarrow> d1\<lparr>d_CreatedAt := d_CreatedAt o'\<rparr>) in
             seq (save_download env d2) (\<lambda>_. ret d2))))"

text \<open>The first managed row of the release on a route of this engine decides.\<close>

definition prepareExistingTorrentFile :: "dl_env \<Rightarrow> torrent_release \<Rightarrow> int \<Rightarrow> download dl_op" where
  "prepareExistingTorrentFile env release fileIndex =
     seq (list_downloads env) (\<lambda>rows.
     case List.find (\<lambda>d. d_ReleaseID d = rel_ID release \<and> route (dv_ret env) (d_EngineID d) \<noteq> None) rows of
       None \<Rightarrow> fail NoRow
     | Some managed \<Rightarrow>
         seq (route_of_row env (d_EngineID managed)) (\<lambda>h.
         seq (engine_files env h) (\<lambda>files.
         case select_file fileIndex None files of
           None \<Rightarrow> fail NotPlayable
         | Some f \<Rightarrow>
             if \<not> tf_Playable f then fail NotPlayable
             else seq (engine_status env h) (\<lambda>status.
               seq (save_source env (rel_ID release) (d_EngineID managed) f status)
                 (prepareManagedDownload env)))))"

text \<open>The storage operations see the rows in the order of \<open>ListDownloads\<close>.\<close>

definition listed_store :: "dworld \<Rightarrow> rworld" where
  "listed_store w = (dw_store w)\<lparr>rw_rows := ListDownloads (rows_of w)\<rparr>"

definition ensure_room :: "dl_env \<Rightarrow> torrent_release \<Rightarrow> unit dl_op" where
  "ensure_room env release w =
     (case ensureAllocationRoom (dv_ret env) (dv_manifest env release) release (listed_store w) of
        (store, Admitted) \<Rightarrow> (Inr (), w\<lparr>dw_store := store\<rparr>)
      | (store, Refused a) \<Rightarrow> (Inl (OverAllocation a), w\<lparr>dw_store := store\<rparr>)
      | (store, AdmissionError e) \<Rightarrow> (Inl (RoomFailed e), w\<lparr>dw_store := store\<rparr>))"

definition removeDeadRelease :: "torrent_release \<Rightarrow> 'a dl_op" where
  "removeDeadRelease release w =
     (if \<exists>r\<in>set (dw_releases w). rel_ID r = rel_ID release
      then (Inl DeadRelease, w\<lparr>dw_releases := filter (\<lambda>r. rel_ID r \<noteq> rel_ID release) (dw_releases w)\<rparr>)
      else (Inl DeadReleaseKept, w))"

text \<open>Opening the torrent at the tracker and handing it to the engine.\<close>

definition add_release :: "dl_env \<Rightarrow> torrent_release \<Rightarrow> string dl_op" where
  "add_release env release =
     seq (ensure_room env release) (\<lambda>_.
     case dv_open env (rel_ID release) of
       OpenRemoved \<Rightarrow> removeDeadRelease release
     | OpenError e \<Rightarrow> fail (OpenFailed e)
     | OpenOk \<Rightarrow> engine_add env release)"

text \<open>A torrent the engine has just taken: waiting for its files, then the first row.\<close>

definition prepare_added :: "dl_env \<Rightarrow> string \<Rightarrow> int \<Rightarrow> string \<Rightarrow> download dl_op" where
  "prepare_added env releaseID fileIndex h =
     seq (of_result (\<lambda>_. await_files (dv_polls env))) (\<lambda>files.
     case select_file fileIndex None files of
       None \<Rightarrow> fail NotPlayable
     | Some f \<Rightarrow>
         if \<not> tf_Playable f then fail NotPlayable
         else
           let engineID = en_prefix (dv_ret env) @ h in
           seq (read_state (managedTorrentIndices env engineID files [tf_Index f])) (\<lambda>indices.
           seq (engine_prepare env h indices (subtitle_indices files)) (\<lambda>_.
           seq (engine_status env h) (\<lambda>status.
           save_source env releaseID engineID f status))))"

definition Prepare :: "dl_env \<Rightarrow> string \<Rightarrow> int \<Rightarrow> download dl_op" where
  "Prepare env releaseID fileIndex =
     seq (get_release releaseID) (\<lambda>release.
     attempt (find_download env releaseID fileIndex) (\<lambda>existing.
     case existing of
       Inr d \<Rightarrow> prepareManagedDownload env d
     | Inl e \<Rightarrow> if e \<noteq> NoRow then fail e
         else attempt (prepareExistingTorrentFile env release fileIndex) (\<lambda>reused.
         case reused of
           Inr d \<Rightarrow> ret d
         | Inl e' \<Rightarrow> if e' \<noteq> NoRow then fail e'
             else
               seq (add_release env release) (prepare_added env releaseID fileIndex))))"

definition season_files :: "torrent_release \<Rightarrow> int \<Rightarrow> int \<Rightarrow> int \<Rightarrow> torrent_file list \<Rightarrow> torrent_file list" where
  "season_files release season s e files =
     (let named = filter (\<lambda>f. tf_Playable f \<and> file_season release f = Some season) files in
      if named = [] \<and> (s = 0 \<or> (s \<le> season \<and> season \<le> max s e)) then filter tf_Playable files else named)"

text \<open>The managed torrent of the release, or the release added anew; a failed listing counts
  as no managed row.\<close>

definition season_route :: "dl_env \<Rightarrow> torrent_release \<Rightarrow> (string \<times> string) dl_op" where
  "season_route env release =
     attempt (list_downloads env) (\<lambda>rows.
     case (case rows of Inl _ \<Rightarrow> None | Inr ds \<Rightarrow>
         List.find (\<lambda>d. d_ReleaseID d = rel_ID release \<and> route (dv_ret env) (d_EngineID d) \<noteq> None) ds) of
       Some d \<Rightarrow> seq (route_of_row env (d_EngineID d)) (\<lambda>h.
         if h = [] then seq (add_release env release) (\<lambda>h'. ret (en_prefix (dv_ret env) @ h', h'))
         else ret (d_EngineID d, h))
     | None \<Rightarrow> seq (add_release env release) (\<lambda>h. ret (en_prefix (dv_ret env) @ h, h)))"

definition prepare_season_files ::
  "dl_env \<Rightarrow> torrent_release \<Rightarrow> int \<Rightarrow> int \<Rightarrow> int \<Rightarrow> string \<Rightarrow> string \<Rightarrow> download list dl_op" where
  "prepare_season_files env release season s e engineID h =
     seq (of_result (\<lambda>_. await_files (dv_polls env))) (\<lambda>files.
     let selected = season_files release season s e files in
     if selected = [] then fail (NoEpisodes season)
     else
       seq (read_state (managedTorrentIndices env engineID files (map tf_Index selected))) (\<lambda>indices.
       seq (engine_prepare env h indices (subtitle_indices files)) (\<lambda>_.
       seq (engine_status env h) (\<lambda>status.
       seq (write_state (\<lambda>w. if dv_fail env CallManifest w \<noteq> None then w
             else w\<lparr>dw_manifests := \<lparr>tm_ReleaseID = rel_ID release, tm_Files = files, tm_FetchedAt = dv_now env\<rparr>
               # filter (\<lambda>m. tm_ReleaseID m \<noteq> rel_ID release) (dw_manifests w)\<rparr>)) (\<lambda>_.
       each (\<lambda>f. save_source env (rel_ID release) engineID f status) selected)))))"

definition PrepareSeason :: "dl_env \<Rightarrow> string \<Rightarrow> int \<Rightarrow> download list dl_op" where
  "PrepareSeason env releaseID season0 =
     seq (get_release releaseID) (\<lambda>release.
     case series_span release of
       None \<Rightarrow> fail NotAPack
     | Some (s, e) \<Rightarrow>
         if rel_FileCount release \<le> 1 then fail NotAPack
         else
           let s1 = (if season0 \<le> 0 then s else season0); season = (if s1 \<le> 0 then 1 else s1) in
           seq (season_route env release) (\<lambda>(engineID, h). prepare_season_files env release season s e engineID h))"

section \<open>Listing, managing and leasing\<close>

text \<open>One row of the refresh; its failed save is ignored.\<close>

definition refresh_row :: "dl_env \<Rightarrow> download \<Rightarrow> download dl_op" where
  "refresh_row env d =
     attempt (seq (route_of_row env (d_EngineID d)) (\<lambda>h. seq (engine_status env h) (\<lambda>st. ret (h, st)))) (\<lambda>answer.
     attempt (case answer of Inl e \<Rightarrow> fail e | Inr (h, st) \<Rightarrow> engine_files env h) (\<lambda>files.
     let d' = (case answer of
           Inl e \<Rightarrow> d\<lparr>d_Error := dv_message env e, d_State := ''unavailable''\<rparr>
         | Inr (h, st) \<Rightarrow> applyDownloadStatus d st
             (case files of Inl _ \<Rightarrow> None | Inr fs \<Rightarrow> List.find (\<lambda>f. tf_Index f = d_FileIndex d) fs)) in
     attempt (save_download env d') (\<lambda>_. ret d')))"

definition Downloads :: "dl_env \<Rightarrow> download list dl_op" where
  "Downloads env = seq (list_downloads env) (\<lambda>rows. each (refresh_row env) (dedupeManagedDownloads row_key_of rows))"

definition forget_engine_rows :: "dl_env \<Rightarrow> string \<Rightarrow> unit dl_op" where
  "forget_engine_rows env engineID w =
     (case forgetEngineRows (dv_ret env) engineID (listed_store w) of
        (store, None) \<Rightarrow> (Inr (), w\<lparr>dw_store := store\<rparr>)
      | (store, Some e) \<Rightarrow> (Inl (RemoveFailed e), w\<lparr>dw_store := store\<rparr>))"

definition remove_torrent :: "dl_env \<Rightarrow> string \<Rightarrow> unit dl_op" where
  "remove_torrent env engineID w =
     (case removeTorrent (dv_ret env) engineID (listed_store w) of
        (store, None) \<Rightarrow> (Inr (), w\<lparr>dw_store := store\<rparr>)
      | (store, Some e) \<Rightarrow> (Inl (RemoveFailed e), w\<lparr>dw_store := store\<rparr>))"

text \<open>The rows of the torrent take the name of the action as their state.\<close>

definition mark_rows :: "dl_env \<Rightarrow> string \<Rightarrow> string \<Rightarrow> unit dl_op" where
  "mark_rows env engineID action =
     seq (list_downloads env) (\<lambda>rows.
     seq (each (\<lambda>d. save_download env (d\<lparr>d_State := action, d_UpdatedAt := dv_now env\<rparr>))
       (filter (\<lambda>d. d_EngineID d = engineID) rows)) (\<lambda>_. ret ()))"

definition Manage :: "dl_env \<Rightarrow> string \<Rightarrow> string \<Rightarrow> unit dl_op" where
  "Manage env k action =
     seq (get_download k) (\<lambda>d.
     seq (route_of_row env (d_EngineID d)) (\<lambda>h.
     if action = ''pause'' then
       seq (engine_switch env (CallPause h) h) (\<lambda>_. mark_rows env (d_EngineID d) action)
     else if action = ''resume'' \<or> action = ''retry'' then
       attempt (engine_switch env (CallResume h) h) (\<lambda>r.
       case r of
         Inr _ \<Rightarrow> mark_rows env (d_EngineID d) action
       | Inl e \<Rightarrow>
           if action = ''retry'' \<and> e = TorrentGone then
             seq (forget_engine_rows env (d_EngineID d)) (\<lambda>_.
             seq (Prepare env (d_ReleaseID d) (d_FileIndex d)) (\<lambda>_. ret ()))
           else fail e)
     else if action = ''remove'' then
       seq (list_downloads env) (\<lambda>rows.
       if list_ex (\<lambda>item. d_EngineID item = d_EngineID d \<and> d_Leased item) rows then fail StillLeased
       else remove_torrent env (d_EngineID d))
     else fail UnknownAction))"

definition Acquire :: "dl_env \<Rightarrow> string \<Rightarrow> download dl_op" where
  "Acquire env k =
     seq (get_download k) (\<lambda>d0.
     seq (prepareManagedDownload env d0) (\<lambda>d.
     seq (set_lease env k True) (\<lambda>_. ret (d\<lparr>d_Leased := True\<rparr>))))"

text \<open>\<open>Release\<close> ignores its error.\<close>

definition ReleaseLease :: "dl_env \<Rightarrow> string \<Rightarrow> unit dl_op" where
  "ReleaseLease env k = attempt (set_lease env k False) (\<lambda>_. ret ())"

section \<open>Files and status: properties\<close>

lemma applyDownloadStatus_simps [simp]:
  "d_ID (applyDownloadStatus d st f) = d_ID d"
  "d_ReleaseID (applyDownloadStatus d st f) = d_ReleaseID d"
  "d_EngineID (applyDownloadStatus d st f) = d_EngineID d"
  "d_FilePath (applyDownloadStatus d st f) = d_FilePath d"
  "d_AbsolutePath (applyDownloadStatus d st f) = d_AbsolutePath d"
  "d_FileIndex (applyDownloadStatus d st f) = d_FileIndex d"
  "d_Leased (applyDownloadStatus d st f) = d_Leased d"
  by (simp_all add: applyDownloadStatus_def Let_def split: option.splits)

lemma scaled_floor:
  fixes p :: float64 and n :: int
  assumes "0 \<le> p" "p \<le> 1" "0 < n"
  shows "0 \<le> \<lfloor>of_int n * p\<rfloor>" "\<lfloor>of_int n * p\<rfloor> \<le> n" "\<lfloor>of_int n * p\<rfloor> = n \<longleftrightarrow> p = 1"
proof -
  have le: "of_int n * p \<le> of_int n * 1" using assms by (intro mult_left_mono) simp_all
  show "0 \<le> \<lfloor>of_int n * p\<rfloor>" using assms by simp
  show "\<lfloor>of_int n * p\<rfloor> \<le> n" using floor_mono[OF le] by simp
  show "\<lfloor>of_int n * p\<rfloor> = n \<longleftrightarrow> p = 1"
  proof
    assume "\<lfloor>of_int n * p\<rfloor> = n"
    then have "of_int n \<le> of_int n * p" using of_int_floor_le[of "of_int n * p"] by simp
    with le have "of_int n * p = of_int n * 1" by simp
    then show "p = 1" using assms(3) mult_cancel_left[of "of_int n" p 1] by simp
  qed simp
qed

text \<open>
  What a status refresh stores is within bounds, whatever the engine reports:
  the progress lies between 0 and 1; a row with a known size has downloaded between
  nothing and its size, and exactly its size only at progress 1. Identity, path and lease
  of the row stay. (The product is exact here; the code rounds it in a 64-bit float.)
\<close>

theorem applyDownloadStatus_bounds:
  "let d' = applyDownloadStatus d status selected in
     0 \<le> d_Progress d' \<and> d_Progress d' \<le> 1
     \<and> (if d_SizeBytes d' > 0
         then 0 \<le> d_DownloadedBytes d' \<and> d_DownloadedBytes d' \<le> d_SizeBytes d'
            \<and> (d_DownloadedBytes d' = d_SizeBytes d' \<longleftrightarrow> d_Progress d' = 1)
         else d_DownloadedBytes d' = st_DownloadedBytes status)
     \<and> d_ID d' = d_ID d \<and> d_AbsolutePath d' = d_AbsolutePath d \<and> d_Leased d' = d_Leased d"
proof -
  let ?d = "applyDownloadStatus d status selected"
  let ?p = "max 0 (min 1 (case selected of None \<Rightarrow> st_Progress status | Some f \<Rightarrow> tf_Progress f))"
  have p: "0 \<le> ?p" "?p \<le> 1" by auto
  have "d_Progress ?d = ?p"
    and "d_DownloadedBytes ?d = (if d_SizeBytes ?d > 0 then \<lfloor>of_int (d_SizeBytes ?d) * ?p\<rfloor> else st_DownloadedBytes status)"
    by (cases selected; simp add: applyDownloadStatus_def Let_def)+
  then show ?thesis using p scaled_floor[OF p, of "d_SizeBytes ?d"] by (simp only: Let_def applyDownloadStatus_simps) simp
qed

subsection \<open>The selected file\<close>

text \<open>The intended choice: the file of the index, or the largest playable one, the earliest
  in the torrent's order among equals.\<close>

definition largest_playable :: "torrent_file list \<Rightarrow> torrent_file option" where
  "largest_playable files =
     (let playable = filter tf_Playable files in
      List.find (\<lambda>f. tf_SizeBytes f = Max (tf_SizeBytes ` set playable)) playable)"

definition chosen_file :: "int \<Rightarrow> torrent_file list \<Rightarrow> torrent_file option" where
  "chosen_file fileIndex files =
     (if fileIndex < 0 then largest_playable files else List.find (\<lambda>f. tf_Index f = fileIndex) (rev files))"

lemma find_append: "List.find P (xs @ ys) = (case List.find P xs of None \<Rightarrow> List.find P ys | Some x \<Rightarrow> Some x)"
  by (induction xs) auto

lemma select_file_index:
  "fileIndex \<ge> 0 \<Longrightarrow> select_file fileIndex s files
     = (case List.find (\<lambda>f. tf_Index f = fileIndex) (rev files) of None \<Rightarrow> s | Some f \<Rightarrow> Some f)"
  by (induction fileIndex s files rule: select_file.induct)
    (auto simp: Let_def find_append split: option.splits)

lemma largest_playable_Cons:
  "largest_playable (f # fs) =
     (if \<not> tf_Playable f then largest_playable fs
      else case largest_playable fs of
        None \<Rightarrow> Some f | Some g \<Rightarrow> Some (if tf_SizeBytes g > tf_SizeBytes f then g else f))"
proof (cases "tf_Playable f \<and> filter tf_Playable fs \<noteq> []")
  case True
  let ?m = "Max (tf_SizeBytes ` set (filter tf_Playable fs))"
  have "?m \<in> tf_SizeBytes ` set (filter tf_Playable fs)" using True by (intro Max_in) (auto simp: filter_empty_conv)
  then obtain g where g: "List.find (\<lambda>f. tf_SizeBytes f = ?m) (filter tf_Playable fs) = Some g"
    by (cases "List.find (\<lambda>f. tf_SizeBytes f = ?m) (filter tf_Playable fs)") (auto simp: find_None_iff)
  then have "tf_SizeBytes g = ?m" by (auto simp: find_Some_iff)
  moreover have "Max (tf_SizeBytes ` set (filter tf_Playable (f # fs))) = max (tf_SizeBytes f) ?m"
    using True Max_insert[of "tf_SizeBytes ` set (filter tf_Playable fs)" "tf_SizeBytes f"]
    by (simp del: set_filter)
  ultimately show ?thesis using True g by (auto simp: largest_playable_def Let_def max_def)
qed (auto simp: largest_playable_def Let_def filter_empty_conv)

lemma select_file_largest:
  "fileIndex < 0 \<Longrightarrow> \<forall>f\<in>set files. tf_Index f \<noteq> fileIndex \<Longrightarrow>
     select_file fileIndex s files = (case s of
        None \<Rightarrow> largest_playable files
      | Some g \<Rightarrow> Some (case largest_playable files of
          None \<Rightarrow> g | Some f \<Rightarrow> if tf_SizeBytes f > tf_SizeBytes g then f else g))"
proof (induction fileIndex s files rule: select_file.induct)
  case (2 fileIndex s f fs)
  then show ?case
    by (cases s; cases "largest_playable fs") (auto simp: Let_def largest_playable_Cons)
qed (auto simp: largest_playable_def split: option.splits)

text \<open>
  The one-pass selection loop of \<open>Prepare\<close> is the intended choice: for a file
  index the last file that carries it, and without one the largest playable file, the
  first of them when several are equally large.
\<close>

theorem select_file_chosen:
  assumes "\<forall>f\<in>set files. tf_Index f \<ge> 0"
  shows "select_file fileIndex None files = chosen_file fileIndex files"
proof (cases "fileIndex < 0")
  case True
  then have "\<forall>f\<in>set files. tf_Index f \<noteq> fileIndex" using assms by force
  with True show ?thesis using select_file_largest[of fileIndex files None] by (simp add: chosen_file_def)
next
  case False
  then show ?thesis by (simp add: chosen_file_def select_file_index split: option.splits)
qed

definition sample_files :: "torrent_file list" where
  "sample_files =
    [\<lparr>tf_Index = 0, tf_Path = ''s/readme.nfo'', tf_SizeBytes = 900, tf_Progress = 0,
      tf_Priority = 0, tf_Offset = 0, tf_Playable = False\<rparr>,
     \<lparr>tf_Index = 1, tf_Path = ''s/e1.mkv'', tf_SizeBytes = 500, tf_Progress = 0,
      tf_Priority = 0, tf_Offset = 900, tf_Playable = True\<rparr>,
     \<lparr>tf_Index = 2, tf_Path = ''s/e2.mkv'', tf_SizeBytes = 500, tf_Progress = 0,
      tf_Priority = 0, tf_Offset = 1400, tf_Playable = True\<rparr>]"

theorem select_file_chosen_witness:
  "map_option tf_Index (select_file (-1) None sample_files) = Some 1
   \<and> chosen_file (-1) sample_files \<noteq> None"
proof -
  have "\<forall>f\<in>set sample_files. tf_Index f \<ge> 0" by (simp add: sample_files_def)
  from select_file_chosen[OF this, of "-1"]
  have "select_file (-1) None sample_files = chosen_file (-1) sample_files" .
  moreover have "map_option tf_Index (chosen_file (-1) sample_files) = Some 1" by code_simp
  ultimately show ?thesis by auto
qed

subsection \<open>The managed files of a torrent\<close>

lemma managedTorrentIndices_facts:
  assumes "dv_fail env CallList w = None"
  shows "sorted (managedTorrentIndices env e files extra w)"
    "distinct (managedTorrentIndices env e files extra w)"
    "set (managedTorrentIndices env e files extra w) =
       {i. (\<exists>f\<in>set files. tf_Playable f \<and> tf_Index f = i)
         \<and> (i \<in> set extra \<or> (\<exists>d\<in>set (rows_of w). d_EngineID d = e \<and> d_FileIndex d = i))}"
  using assms by (auto simp: managedTorrentIndices_def Let_def image_iff)

subsection \<open>One row for a file\<close>

definition dedupe_step :: "(download \<Rightarrow> string) \<Rightarrow> download \<Rightarrow> download list \<times> string list \<Rightarrow> download list \<times> string list" where
  "dedupe_step key item acc = (case acc of (out, seen) \<Rightarrow>
     if key item \<in> set seen then (out, seen) else (item # out, key item # seen))"

lemma dedupe_alt: "dedupeManagedDownloads key items = rev (fst (fold (dedupe_step key) items ([], [])))"
  by (simp add: dedupeManagedDownloads_def dedupe_step_def[abs_def])

lemma dedupe_seen:
  "snd (fold (dedupe_step key) items acc) = map key (fst (fold (dedupe_step key) items acc))"
  if "snd acc = map key (fst acc)"
  using that
proof (induction items arbitrary: acc)
  case (Cons x items)
  then have "snd (dedupe_step key x acc) = map key (fst (dedupe_step key x acc))"
    by (auto simp: dedupe_step_def split: prod.splits)
  from Cons.IH[OF this] show ?case by simp
qed simp

lemma dedupe_snoc:
  "dedupeManagedDownloads key (items @ [x]) = (let out = dedupeManagedDownloads key items in
     if key x \<in> key ` set out then out else out @ [x])"
  using dedupe_seen[of "([], [])" key items]
  by (auto simp: dedupe_alt dedupe_step_def Let_def split: prod.splits)

text \<open>
  Collapsing the list keeps exactly one row for every file: the rows that stay
  have distinct keys and are a subsequence of the list, and each row of the list is
  represented by the row that stays for its key, the first with that key in the list.
\<close>

theorem dedupe_first_of_key:
  "distinct (map key (dedupeManagedDownloads key items))
   \<and> subseq (dedupeManagedDownloads key items) items
   \<and> (\<lambda>k. List.find (\<lambda>d. key d = k) (dedupeManagedDownloads key items)) = (\<lambda>k. List.find (\<lambda>d. key d = k) items)"
proof (induction items rule: rev_induct)
  case (snoc x xs)
  let ?out = "dedupeManagedDownloads key xs"
  have find: "List.find (\<lambda>d. key d = k) ?out = List.find (\<lambda>d. key d = k) xs" for k
    using snoc by meson
  have "List.find (\<lambda>d. key d = k) (if key x \<in> key ` set ?out then ?out else ?out @ [x])
      = List.find (\<lambda>d. key d = k) (xs @ [x])" for k
  proof (cases "List.find (\<lambda>d. key d = k) xs")
    case None
    then have "List.find (\<lambda>d. key d = k) ?out = None" using find[of k] by simp
    then have "k \<notin> key ` set ?out" by (auto simp: find_None_iff)
    then show ?thesis using None find[of k] by (auto simp: find_append)
  qed (use find[of k] in \<open>simp add: find_append\<close>)
  then show ?case using snoc
    by (auto simp: dedupe_snoc Let_def intro: subseq_append' list_emb_append2)
qed (simp add: dedupeManagedDownloads_def)

end
