(* ===== verification/ManagedRows.thy ===== *)
theory ManagedRows
  imports Downloads
begin

text \<open>
  What the download operations of \<open>Downloads\<close> keep: the table invariant through every
  command, the file selection of a torrent when a file is played, the lease and the
  removal of a download.
\<close>

section \<open>The table invariant\<close>

definition row_ok :: "(string \<Rightarrow> string \<Rightarrow> string) \<Rightarrow> string \<Rightarrow> download \<Rightarrow> bool" where
  "row_ok sid rt d \<longleftrightarrow> d_ID d = sid (d_ReleaseID d) (d_FilePath d) \<and> contained rt (d_AbsolutePath d)"

definition table_ok :: "(string \<Rightarrow> string \<Rightarrow> string) \<Rightarrow> string \<Rightarrow> dworld \<Rightarrow> bool" where
  "table_ok sid rt w \<longleftrightarrow> rows_ok (rows_of w) \<and> (\<forall>d\<in>set (rows_of w). row_ok sid rt d)"

definition env_ok :: "(string \<Rightarrow> string \<Rightarrow> string) \<Rightarrow> string \<Rightarrow> dl_env \<Rightarrow> bool" where
  "env_ok sid rt env \<longleftrightarrow> dv_sourceID env = sid \<and> cwd_ok (dv_cwd env)
     \<and> path_abs (dv_cwd env) (dv_root env) = Inr rt"

lemma rows_of_simps [simp]:
  "rows_of (with_rows rows w) = rows" "rows_of (on_torrent h f w) = rows_of w"
  "rows_of (w\<lparr>dw_prepared := p\<rparr>) = rows_of w" "rows_of (w\<lparr>dw_releases := rs\<rparr>) = rows_of w"
  "rows_of (w\<lparr>dw_manifests := ms\<rparr>) = rows_of w" "rows_of (w\<lparr>dw_files := fs\<rparr>) = rows_of w"
  "dw_prepared (with_rows rows w) = dw_prepared w" "rows_of (w\<lparr>dw_store := s\<rparr>) = rw_rows s" "rw_rows (listed_store w) = ListDownloads (rows_of w)"
  by (simp_all add: rows_of_def with_rows_def on_torrent_def listed_store_def)

lemma table_ok_rows: "rows_of w' = rows_of w \<Longrightarrow> table_ok sid rt w' \<longleftrightarrow> table_ok sid rt w"
  by (simp add: table_ok_def)

lemma row_ok_stored [simp]:
  "row_ok sid rt (stored_download d) = row_ok sid rt d"
  "row_ok sid rt (d\<lparr>d_State := s\<rparr>) = row_ok sid rt d" "row_ok sid rt (d\<lparr>d_Error := e\<rparr>) = row_ok sid rt d"
  "row_ok sid rt (d\<lparr>d_UpdatedAt := u\<rparr>) = row_ok sid rt d" "row_ok sid rt (d\<lparr>d_CreatedAt := u\<rparr>) = row_ok sid rt d"
  "row_ok sid rt (d\<lparr>d_Leased := l\<rparr>) = row_ok sid rt d"
  "row_ok sid rt (applyDownloadStatus d st f) = row_ok sid rt d"
  by (simp_all add: row_ok_def stored_download_def)

lemma row_ok_update: "row_ok sid rt old \<Longrightarrow> row_ok sid rt d \<Longrightarrow> row_ok sid rt (update_download old d)"
  by (simp add: row_ok_def update_download_def)

lemma table_ok_save:
  "table_ok sid rt w \<Longrightarrow> row_ok sid rt d \<Longrightarrow> table_ok sid rt (with_rows (SaveDownload d (rows_of w)) w)"
  by (auto simp: table_ok_def SaveDownload_ok) (auto simp: SaveDownload_def row_ok_update split: if_splits)

lemma table_ok_lease:
  assumes "table_ok sid rt w" "SetLease now k v (rows_of w) = Some rows"
  shows "table_ok sid rt (with_rows rows w)"
proof -
  have "rows_ok rows" using SetLease_Some(2)[OF assms(2)] assms(1) by (simp add: table_ok_def)
  then show ?thesis using assms by (auto simp: table_ok_def SetLease_def split: if_splits)
qed

lemma table_ok_subseq:
  assumes "table_ok sid rt w" "subseq rows (ListDownloads (rows_of w))" "rows_of w' = rows"
  shows "table_ok sid rt w'"
proof -
  have "subseq (map d_ID rows) (map d_ID (ListDownloads (rows_of w)))" using assms(2) by (rule subseq_map)
  moreover have "distinct (map d_ID (ListDownloads (rows_of w)))"
    using assms(1) ListDownloads_ids by (simp add: table_ok_def rows_ok_def)
  ultimately have "distinct (map d_ID rows)" by (auto simp: subseq_conv_nths)
  moreover have "set rows \<subseteq> set (rows_of w)"
    using assms(2) by (auto simp: subseq_conv_nths dest!: in_set_nthsD)
  ultimately show ?thesis using assms(1,3) by (auto simp: table_ok_def rows_ok_def)
qed

subsection \<open>Removals only delete rows\<close>

lemma removeTorrent_subseq: "removeTorrent env e w = (w', r) \<Longrightarrow> subseq (rw_rows w') (rw_rows w)"
  using forget_rows_subseq by (fastforce simp: removeTorrent_def forgetEngineRows_def split: option.splits)

lemma evictNext_subseq:
  assumes "evictNext env plan reason rules w = (u, r)"
  shows "subseq (rw_rows u) (rw_rows w)"
proof (cases "filter (\<lambda>r. \<not> retentionProtected r (en_settings env)) (pl_routes plan) = []")
  case False
  let ?v = "hd (applyEvictionRules (filter (\<lambda>r. \<not> retentionProtected r (en_settings env)) (pl_routes plan)) rules)"
  obtain x e where rm: "removeTorrent env (rt_engineID ?v) w = (x, e)" by fastforce
  then have "rw_rows u = rw_rows x"
    using assms False by (auto simp: evictNext_def Let_def split: option.splits)
  then show ?thesis using removeTorrent_subseq[OF rm] by simp
qed (use assms in \<open>simp add: evictNext_def\<close>)

lemma ensureAllocationRoom_subseq:
  assumes "ensureAllocationRoom env files release w = (w', r)"
  shows "subseq (rw_rows w') (rw_rows w)"
proof -
  have "(\<lambda>w (w', _ :: admission). subseq (rw_rows w') (rw_rows w)) w (admission_loop env rules name n w)" for rules name n
  proof (rule admission_loop_passes, goal_cases)
    case (6 w plan reason u v res)
    then show ?case using evictNext_subseq[OF 6(3)] subseq_order.trans by (cases res) fastforce
  qed (auto dest: evictNext_subseq)
  from this[of "NormalizeEvictionRules (rs_EvictionRules (en_settings env))" "rel_Name release"
      "incomingTorrentBytes files release"]
  show ?thesis using assms by (auto simp: ensureAllocationRoom_def split: if_splits)
qed

subsection \<open>Every operation keeps the invariant\<close>

lemma yields_rows:
  assumes "\<And>w r w'. m w = (r, w') \<Longrightarrow> rows_of w' = rows_of w"
  shows "yields (table_ok sid rt) m (\<lambda>_. True)"
  by (rule yieldsI) (use assms table_ok_rows in blast)

lemma may_fail_keeps: "keeps (table_ok sid rt) (may_fail env c e)"
  unfolding may_fail_def by (intro yields) simp

lemma list_downloads_yields: "yields (table_ok sid rt) (list_downloads env) (\<lambda>ds. \<forall>d\<in>set ds. row_ok sid rt d)"
  unfolding list_downloads_def by (intro yields_seq[OF may_fail_keeps] yields) (auto simp: table_ok_def)

lemma find_download_yields: "yields (table_ok sid rt) (find_download env r i) (row_ok sid rt)"
proof -
  have found: "d \<in> set rows" if "FindDownload r i rows = Some d" for d rows
  proof -
    let ?sorted = "sort_key (\<lambda>r. (if d_Progress r \<ge> 1 then 0 else 1 :: int, - d_UpdatedAt r))
        (filter (\<lambda>x. d_ReleaseID x = r \<and> (i \<ge> 0 \<longrightarrow> d_FileIndex x = i)) rows)"
    from that have "\<exists>ds. ?sorted = d # ds" by (auto simp: FindDownload_def split: list.splits)
    then have "d \<in> set ?sorted" by (metis list.set_intros(1))
    then show ?thesis by simp
  qed
  show ?thesis unfolding find_download_def
    by (intro yields_seq[OF may_fail_keeps] yields) (auto simp: table_ok_def dest: found split: option.splits)
qed

lemma get_download_yields: "yields (table_ok sid rt) (get_download k) (row_ok sid rt)"
  unfolding get_download_def
  by (intro yields) (auto simp: table_ok_def dest: GetDownload_Some split: option.splits)

lemma save_download_keeps: "row_ok sid rt d \<Longrightarrow> keeps (table_ok sid rt) (save_download env d)"
  unfolding save_download_def by (intro yields_seq[OF may_fail_keeps] yields) (auto intro: table_ok_save)

lemma set_lease_keeps: "keeps (table_ok sid rt) (set_lease env k v)"
  unfolding set_lease_def
  by (intro yields_seq[OF may_fail_keeps] yieldsI) (auto intro: table_ok_lease split: option.splits)

lemma get_release_keeps: "keeps (table_ok sid rt) (get_release k)"
  unfolding get_release_def by (intro yields) simp

lemma route_of_row_keeps: "keeps (table_ok sid rt) (route_of_row env e)"
  unfolding route_of_row_def by (intro yields) simp

lemma engine_status_keeps: "keeps (table_ok sid rt) (engine_status env h)"
  unfolding engine_status_def by (intro yields_seq[OF may_fail_keeps] yields) simp

lemma engine_files_keeps: "keeps (table_ok sid rt) (engine_files env h)"
  unfolding engine_files_def by (intro yields_seq[OF may_fail_keeps] yields) simp

lemma engine_prepare_keeps: "keeps (table_ok sid rt) (engine_prepare env h is subs)"
  unfolding engine_prepare_def
  by (intro yields_seq[OF may_fail_keeps] yields) (simp_all add: table_ok_def)

lemma engine_switch_keeps: "keeps (table_ok sid rt) (engine_switch env c h)"
  unfolding engine_switch_def
  by (intro yields_seq[OF may_fail_keeps] yieldsI) (auto simp: table_ok_def split: option.splits)

lemma engine_add_keeps: "keeps (table_ok sid rt) (engine_add env r)"
  unfolding engine_add_def
  by (intro yields_seq[OF may_fail_keeps] yields_rows) (auto simp: rows_of_def split: prod.splits)

lemma ensure_room_keeps: "keeps (table_ok sid rt) (ensure_room env r)"
proof (rule yieldsI, intro conjI allI impI TrueI)
  fix w x w' assume "table_ok sid rt w" and run: "ensure_room env r w = (x, w')"
  obtain s a where sa: "ensureAllocationRoom (dv_ret env) (dv_manifest env r) r (listed_store w) = (s, a)" by fastforce
  with run have "rows_of w' = rw_rows s" by (auto simp: ensure_room_def split: admission.splits)
  with ensureAllocationRoom_subseq[OF sa] \<open>table_ok sid rt w\<close> show "table_ok sid rt w'"
    by (auto intro: table_ok_subseq)
qed

lemma forget_engine_rows_keeps: "keeps (table_ok sid rt) (forget_engine_rows env e)"
  by (rule yieldsI)
    (auto simp: forget_engine_rows_def forgetEngineRows_def intro: table_ok_subseq
      dest!: forget_rows_subseq split: prod.splits option.splits)

lemma remove_torrent_keeps: "keeps (table_ok sid rt) (remove_torrent env e)"
  by (rule yieldsI)
    (auto simp: remove_torrent_def intro: table_ok_subseq dest!: removeTorrent_subseq
      split: prod.splits option.splits)

lemma removeDeadRelease_keeps: "yields (table_ok sid rt) (removeDeadRelease r) Q"
  by (rule yieldsI) (auto simp: removeDeadRelease_def table_ok_def split: if_splits)

lemmas call_rules = list_downloads_yields find_download_yields get_download_yields get_release_keeps
  route_of_row_keeps engine_status_keeps engine_files_keeps engine_prepare_keeps engine_switch_keeps
  engine_add_keeps ensure_room_keeps forget_engine_rows_keeps remove_torrent_keeps set_lease_keeps

lemmas seq_rules = call_rules[THEN yields_seq]
lemmas attempt_rules = call_rules[THEN yields_attempt]
lemmas attempt_sum_rules = call_rules[THEN yields_attempt_sum]

lemma prepareManagedDownload_yields:
  "row_ok sid rt d \<Longrightarrow> yields (table_ok sid rt) (prepareManagedDownload env d) (row_ok sid rt)"
  unfolding prepareManagedDownload_def Let_def
  by (intro seq_rules yields yields_seq[OF save_download_keeps]
      yields_seq[OF yields_if[OF engine_switch_keeps yields_pure(1)]]
      yields_seq[OF yields_pure(3)[where Q = "\<lambda>_. True"]]) simp_all

lemma save_source_yields:
  assumes "env_ok sid rt env"
  shows "yields (table_ok sid rt) (save_source env r e f st) (row_ok sid rt)"
proof -
  have "contained rt target" if "safeQBPath (dv_cwd env) (dv_root env) (st_SavePath st) (tf_Path f) = Inr target" for target
    using assms that safeQBPath_contained by (auto simp: env_ok_def)
  then show ?thesis unfolding save_source_def Let_def
    by (intro yields yields_seq[OF yields_pure(3)[where Q = "\<lambda>_. True"]] yields_seq[OF save_download_keeps])
      (use assms in \<open>auto simp: env_ok_def row_ok_def split: option.splits\<close>)
qed

lemmas read_rule = yields_seq[OF yields_pure(3)[where Q = "\<lambda>_. True"]]
lemmas result_rule = yields_seq[OF yields_pure(4)[where Q = "\<lambda>_. True"]]

lemma prepareExistingTorrentFile_yields:
  "env_ok sid rt env \<Longrightarrow> yields (table_ok sid rt) (prepareExistingTorrentFile env release i) (row_ok sid rt)"
  unfolding prepareExistingTorrentFile_def
  by (intro seq_rules yields yields_seq[OF save_source_yields prepareManagedDownload_yields]) simp_all

lemma add_release_keeps: "keeps (table_ok sid rt) (add_release env release)"
proof -
  have "yields (table_ok sid rt) (case dv_open env (rel_ID release) of
      OpenOk \<Rightarrow> engine_add env release | OpenRemoved \<Rightarrow> removeDeadRelease release
    | OpenError e \<Rightarrow> fail (OpenFailed e)) (\<lambda>_. True)"
    by (cases "dv_open env (rel_ID release)") (auto intro: engine_add_keeps removeDeadRelease_keeps yields)
  then show ?thesis unfolding add_release_def by (intro seq_rules)
qed

lemma prepare_added_yields:
  "env_ok sid rt env \<Longrightarrow> yields (table_ok sid rt) (prepare_added env rid i h) (row_ok sid rt)"
  unfolding prepare_added_def Let_def
  by (intro result_rule read_rule seq_rules save_source_yields yields) simp_all

lemma Prepare_yields:
  assumes "env_ok sid rt env"
  shows "yields (table_ok sid rt) (Prepare env rid i) (row_ok sid rt)"
proof -
  note added = yields_seq[OF add_release_keeps prepare_added_yields[OF assms]]
  show ?thesis unfolding Prepare_def
    by (intro seq_rules attempt_sum_rules yields_attempt_sum[OF prepareExistingTorrentFile_yields[OF assms]]
        prepareManagedDownload_yields added yields)
qed

lemma season_route_keeps: "keeps (table_ok sid rt) (season_route env release)"
proof -
  have "keeps (table_ok sid rt) (case x of Some d \<Rightarrow> seq (route_of_row env (d_EngineID d)) (\<lambda>h.
         if h = [] then seq (add_release env release) (\<lambda>h'. ret (en_prefix (dv_ret env) @ h', h'))
         else ret (d_EngineID d, h))
     | None \<Rightarrow> seq (add_release env release) (\<lambda>h. ret (en_prefix (dv_ret env) @ h, h)))" for x
    by (intro yields seq_rules yields_seq[OF add_release_keeps] TrueI)
  note routed = this
  show ?thesis unfolding season_route_def by (intro attempt_rules routed)
qed

lemma prepare_season_files_yields:
  "env_ok sid rt env \<Longrightarrow> yields (table_ok sid rt) (prepare_season_files env release n s e eng h)
     (\<lambda>ds. \<forall>d\<in>set ds. row_ok sid rt d)"
  unfolding prepare_season_files_def Let_def
  apply (intro result_rule TrueI yields_if yields_pure(2) read_rule seq_rules)
  apply (rule yields_seq[OF yields_write[where Q = "\<lambda>_. True"]])
    apply (simp add: table_ok_def)
   apply (rule TrueI)
  apply (rule yields_each)
  apply (erule save_source_yields)
  done

lemma PrepareSeason_yields:
  "env_ok sid rt env \<Longrightarrow> yields (table_ok sid rt) (PrepareSeason env rid n) (\<lambda>ds. \<forall>d\<in>set ds. row_ok sid rt d)"
  unfolding PrepareSeason_def Let_def
  by (intro seq_rules yields_option yields_pure(2) yields_prod yields_if yields_seq[OF season_route_keeps]
      prepare_season_files_yields)

lemma refresh_row_yields:
  assumes "row_ok sid rt d"
  shows "yields (table_ok sid rt) (refresh_row env d) (row_ok sid rt)"
proof -
  have status: "keeps (table_ok sid rt) (seq (route_of_row env e) (\<lambda>h. seq (engine_status env h) (\<lambda>st. ret (h, st))))" for e
    by (intro seq_rules yields_pure TrueI)
  have files: "keeps (table_ok sid rt) (case x of Inl e \<Rightarrow> fail e | Inr (h, st) \<Rightarrow> engine_files env h)"
    for x :: "dl_error + string \<times> download_status"
    by (intro yields engine_files_keeps)
  have kept: "row_ok sid rt d \<Longrightarrow> yields (table_ok sid rt) (attempt (save_download env d) (\<lambda>_. ret d)) (row_ok sid rt)" for d
    by (intro yields_attempt_any save_download_keeps yields_pure)
  show ?thesis unfolding refresh_row_def Let_def
    by (intro yields_attempt_any status files kept) (use assms in \<open>auto split: sum.split prod.split\<close>)
qed

lemma dedupe_subset: "set (dedupeManagedDownloads key items) \<subseteq> set items"
proof (induction items rule: rev_induct)
  case (snoc x xs)
  then show ?case by (auto simp: dedupe_snoc Let_def)
qed (simp add: dedupeManagedDownloads_def)

lemma Downloads_yields: "yields (table_ok sid rt) (Downloads env) (\<lambda>ds. \<forall>d\<in>set ds. row_ok sid rt d)"
  unfolding Downloads_def using dedupe_subset by (intro seq_rules yields_each refresh_row_yields) blast

lemma mark_rows_keeps: "keeps (table_ok sid rt) (mark_rows env e action)"
  unfolding mark_rows_def
  by (intro seq_rules yields_seq[OF yields_each[OF save_download_keeps]]) (auto intro: yields)

lemma Manage_keeps:
  assumes "env_ok sid rt env"
  shows "keeps (table_ok sid rt) (Manage env k action)"
proof -
  show ?thesis unfolding Manage_def
    by (intro seq_rules attempt_sum_rules yields mark_rows_keeps remove_torrent_keeps
        yields_seq[OF Prepare_yields[OF assms]] TrueI)
qed

lemma Acquire_yields: "yields (table_ok sid rt) (Acquire env k) (row_ok sid rt)"
  unfolding Acquire_def
  by (intro seq_rules yields_seq[OF prepareManagedDownload_yields] yields) simp_all

lemma ReleaseLease_keeps: "keeps (table_ok sid rt) (ReleaseLease env k)"
  unfolding ReleaseLease_def by (intro attempt_rules yields) simp_all

subsection \<open>Reachable states\<close>

lemma retention_loop_subseq:
  "case retention_loop env rules w n f of (w', _) \<Rightarrow> subseq (rw_rows w') (rw_rows w)"
proof (rule retention_loop_passes[where P = "\<lambda>w n f (w', _). subseq (rw_rows w') (rw_rows w)"], goal_cases)
  case (5 w n f plan reason u v res)
  then show ?case using evictNext_subseq[OF 5(3)] subseq_order.trans by (cases res) fastforce
qed (auto dest: evictNext_subseq)

datatype dl_command = DoPrepare string int | DoPrepareSeason string int | DoDownloads
  | DoManage string string | DoAcquire string | DoRelease string

fun run_command :: "dl_env \<Rightarrow> dl_command \<Rightarrow> dworld \<Rightarrow> dworld" where
  "run_command env (DoPrepare r i) w = snd (Prepare env r i w)"
| "run_command env (DoPrepareSeason r n) w = snd (PrepareSeason env r n w)"
| "run_command env DoDownloads w = snd (Downloads env w)"
| "run_command env (DoManage k action) w = snd (Manage env k action w)"
| "run_command env (DoAcquire k) w = snd (Acquire env k w)"
| "run_command env (DoRelease k) w = snd (ReleaseLease env k w)"

text \<open>
  From an empty table: commands in any order, each in an environment of its own (only the
  id function and the download root stay), with retention runs and any change outside
  the table in between.
\<close>

inductive dl_reach :: "(string \<Rightarrow> string \<Rightarrow> string) \<Rightarrow> string \<Rightarrow> dworld \<Rightarrow> bool" for sid rt where
  start: "rows_of w = [] \<Longrightarrow> dl_reach sid rt w"
| command: "dl_reach sid rt w \<Longrightarrow> env_ok sid rt env \<Longrightarrow> dl_reach sid rt (run_command env c w)"
| retention: "dl_reach sid rt w \<Longrightarrow> retention_loop env rules (listed_store w) n f = (s, res) \<Longrightarrow>
    dl_reach sid rt (w\<lparr>dw_store := s\<rparr>)"
| outside: "dl_reach sid rt w \<Longrightarrow> rows_of w' = rows_of w \<Longrightarrow> dl_reach sid rt w'"

lemma run_command_keeps:
  assumes "env_ok sid rt env" "table_ok sid rt w"
  shows "table_ok sid rt (run_command env c w)"
proof -
  have run: "table_ok sid rt (snd (m w))" if "yields (table_ok sid rt) m Q" for m :: "'a dl_op" and Q
    using yieldsD(1)[OF that assms(2)] by (cases "m w") auto
  show ?thesis
  proof (cases c)
    case (DoPrepare r i)
    show ?thesis unfolding DoPrepare run_command.simps by (rule run[OF Prepare_yields[OF assms(1)]])
  next
    case (DoPrepareSeason r n)
    show ?thesis unfolding DoPrepareSeason run_command.simps by (rule run[OF PrepareSeason_yields[OF assms(1)]])
  next
    case (DoManage k action)
    show ?thesis unfolding DoManage run_command.simps by (rule run[OF Manage_keeps[OF assms(1)]])
  qed (simp_all add: run[OF Downloads_yields] run[OF Acquire_yields] run[OF ReleaseLease_keeps])
qed

text \<open>
  Property C24. Whatever sequence of prepares, season prepares, list refreshes, pauses,
  resumes, retries, removals, leases and retention runs has happened, and whichever calls
  failed on the way, the ids in the downloads table are distinct, each is the source id of
  its release and file path, and each stored path lies inside the download root.
\<close>

theorem managed_rows_well_formed:
  assumes "dl_reach sid rt w"
  shows "distinct (map d_ID (rows_of w))
    \<and> (\<forall>d\<in>set (rows_of w). d_ID d = sid (d_ReleaseID d) (d_FilePath d) \<and> contained rt (d_AbsolutePath d))"
proof -
  from assms have "table_ok sid rt w"
  proof (induction rule: dl_reach.induct)
    case (retention w env rules n f s res)
    then show ?case using retention_loop_subseq[where env = env and rules = rules and w = "listed_store w" and n = n and f = f]
      by (auto intro: table_ok_subseq[of sid rt w])
  next
    case (outside w w')
    then show ?case using table_ok_rows by blast
  next
    case (command w env c)
    then show ?case using run_command_keeps by blast
  qed (simp add: table_ok_def rows_ok_def)
  then show ?thesis by (simp add: table_ok_def rows_ok_def row_ok_def)
qed

section \<open>A concrete service\<close>

text \<open>One release with three files, of which the engine has finished nothing yet.\<close>

definition started_status :: download_status where
  "started_status = (sample_status ''h'' 1900)\<lparr>st_State := StateDownloading, st_Progress := 0,
     st_DownloadedBytes := 0, st_SavePath := ''/d''\<rparr>"

definition sample_dl_env :: dl_env where
  "sample_dl_env =
    \<lparr>dv_ret = sample_env (Retention.sample_settings\<lparr>rs_AllocationGB := 0\<rparr>) [], dv_now = 7000000000, dv_cwd = None,
     dv_root = ''/d'', dv_sourceID = (\<lambda>r p. r @ ''/'' @ p), dv_stat = (\<lambda>_. None), dv_fail = (\<lambda>_ _. None),
     dv_manifest = (\<lambda>_. None), dv_open = (\<lambda>_. OpenOk), dv_added = (\<lambda>_. (''h'', started_status, sample_files)),
     dv_polls = [(Inl ''metadata'', Tick), (Inr sample_files, Tick)], dv_prepared = (\<lambda>_ _ st. st),
     dv_switched = (\<lambda>_ st. st), dv_message = (\<lambda>_. ''unavailable'')\<rparr>"

definition empty_dworld :: dworld where
  "empty_dworld = \<lparr>dw_store = \<lparr>rw_rows = [], rw_torrents = [], rw_evicted = []\<rparr>, dw_files = [],
     dw_releases = [(sample_release 1900)\<lparr>rel_FileCount := 3\<rparr>], dw_manifests = [], dw_prepared = []\<rparr>"

definition prepared_dworld :: dworld where
  "prepared_dworld = run_command sample_dl_env (DoPrepare ''9'' (-1)) empty_dworld"

lemma prepared_rows:
  "map (\<lambda>d. (d_ID d, d_AbsolutePath d)) (rows_of prepared_dworld) = [(''9/s/e1.mkv'', ''/d/s/e1.mkv'')]"
  by code_simp

lemma sample_env_ok: "env_ok (\<lambda>r p. r @ ''/'' @ p) ''/d'' sample_dl_env"
proof -
  have "cwd_ok (dv_cwd sample_dl_env) \<and> path_abs (dv_cwd sample_dl_env) (dv_root sample_dl_env) = Inr ''/d''"
    by code_simp
  then show ?thesis by (simp add: env_ok_def sample_dl_env_def)
qed

theorem managed_rows_well_formed_witness:
  "dl_reach (\<lambda>r p. r @ ''/'' @ p) ''/d'' prepared_dworld
   \<and> (\<exists>d. rows_of prepared_dworld = [d] \<and> d_ID d = d_ReleaseID d @ ''/'' @ d_FilePath d
        \<and> contained ''/d'' (d_AbsolutePath d))"
proof -
  have "dl_reach (\<lambda>r p. r @ ''/'' @ p) ''/d'' empty_dworld"
    by (rule dl_reach.start) code_simp
  then have reach: "dl_reach (\<lambda>r p. r @ ''/'' @ p) ''/d'' prepared_dworld"
    unfolding prepared_dworld_def by (rule dl_reach.command[OF _ sample_env_ok])
  from prepared_rows obtain d where "rows_of prepared_dworld = [d]" by auto
  with managed_rows_well_formed[OF reach] reach show ?thesis by simp
qed

section \<open>The file selection of a torrent\<close>

lemma may_fail_Inr: "may_fail env c e w = (Inr u, w') \<Longrightarrow> w' = w \<and> dv_fail env c w = None"
  by (auto simp: may_fail_def of_result_def split: option.splits)

lemma engine_status_Inr: "engine_status env h w = (Inr st, w') \<Longrightarrow> w' = w \<and> map_of (rw_torrents (dw_store w)) h = Some st"
  by (auto simp: engine_status_def seq_Inr of_result_def dest!: may_fail_Inr split: option.splits)

definition files_of :: "dworld \<Rightarrow> string \<Rightarrow> torrent_file list" where
  "files_of w h = (case map_of (dw_files w) h of None \<Rightarrow> [] | Some fs \<Rightarrow> fs)"

lemma engine_files_Inr: "engine_files env h w = (Inr fs, w') \<Longrightarrow> w' = w \<and> fs = files_of w h"
  by (auto simp: files_of_def engine_files_def seq_Inr of_result_def dest!: may_fail_Inr split: option.splits)

lemma route_of_row_Inr: "route_of_row env e w = (Inr h, w') \<Longrightarrow> w' = w \<and> route (dv_ret env) e = Some h"
  by (auto simp: route_of_row_def of_result_def split: option.splits)

lemma engine_switch_Inr:
  "engine_switch env c h w = (Inr u, w') \<Longrightarrow>
     rows_of w' = rows_of w \<and> dw_files w' = dw_files w \<and> dw_prepared w' = dw_prepared w"
  by (auto simp: engine_switch_def seq_Inr on_torrent_def rows_of_def dest!: may_fail_Inr split: option.splits)

lemma save_download_Inr:
  "save_download env d w = (Inr u, w') \<Longrightarrow> w' = with_rows (SaveDownload d (rows_of w)) w"
  by (auto simp: save_download_def seq_Inr write_state_def dest!: may_fail_Inr)

lemma engine_prepare_Inr:
  "engine_prepare env h is subs w = (Inr u, w') \<Longrightarrow>
     rows_of w' = rows_of w \<and> dw_prepared w' = dw_prepared w @ [(h, is, subs)]"
  by (auto simp: engine_prepare_def seq_Inr write_state_def on_torrent_def rows_of_def dest!: may_fail_Inr)

lemma resumed_Inr:
  "(if b then engine_switch env c h else ret ()) w = (Inr u, w') \<Longrightarrow>
     rows_of w' = rows_of w \<and> dw_files w' = dw_files w \<and> dw_prepared w' = dw_prepared w"
  by (auto simp: ret_def dest: engine_switch_Inr split: if_splits)

lemma prepareManagedDownload_Inr:
  assumes "prepareManagedDownload env d w = (Inr d', w')" "\<not> completedLocalFile (dv_stat env) d"
  shows "\<exists>h f st u. route (dv_ret env) (d_EngineID d) = Some h
    \<and> List.find (\<lambda>f. tf_Index f = d_FileIndex d) (rev (files_of w h)) = Some f
    \<and> st_Sequential st \<and> st_FirstLastPriority st
    \<and> d' = (applyDownloadStatus d st (Some f))\<lparr>d_UpdatedAt := dv_now env\<rparr>
    \<and> rows_of w' = SaveDownload d' (rows_of w) \<and> rows_of u = rows_of w
    \<and> dw_prepared w' = dw_prepared w
       @ [(h, managedTorrentIndices env (d_EngineID d) (files_of w h) [d_FileIndex d] u,
           subtitle_indices (files_of w h))]"
proof -
  have files: "rows_of t = rows_of w \<and> files_of t = files_of w \<and> dw_prepared t = dw_prepared w"
    if "(if b then engine_switch env c h else ret ()) w = (Inr u, t)" for b c h u t
    using resumed_Inr[OF that] by (simp add: files_of_def[abs_def])
  from assms show ?thesis
    by (auto simp: prepareManagedDownload_def seq_Inr or_fail_Inr Let_def read_state_def
        dest!: route_of_row_Inr engine_status_Inr engine_files_Inr engine_prepare_Inr save_download_Inr files) blast+
qed

text \<open>
  Playing a file that is not complete never deselects a managed one: the one
  \<open>PrepareFiles\<close> call it makes names, in ascending order and without repetition, exactly the
  playable files of the torrent that are the requested one or carry a row of the torrent;
  and the table changes in the row of the download alone.
\<close>

theorem playback_keeps_selection:
  assumes "prepareManagedDownload env d w = (Inr d', w')"
    and "\<not> completedLocalFile (dv_stat env) d"
    and "\<And>v. dv_fail env CallList v = None"
  shows "\<exists>h indices. route (dv_ret env) (d_EngineID d) = Some h
    \<and> dw_prepared w' = dw_prepared w @ [(h, indices, subtitle_indices (files_of w h))]
    \<and> sorted indices \<and> distinct indices
    \<and> set indices = {i. (\<exists>f\<in>set (files_of w h). tf_Playable f \<and> tf_Index f = i)
        \<and> (i = d_FileIndex d \<or> (\<exists>r\<in>set (rows_of w). d_EngineID r = d_EngineID d \<and> d_FileIndex r = i))}
    \<and> (\<lambda>k. GetDownload k (rows_of w'))
        = (\<lambda>k. GetDownload k (rows_of w))(d_ID d \<mapsto> merged_row (GetDownload (d_ID d) (rows_of w)) d')"
proof -
  from prepareManagedDownload_Inr[OF assms(1,2)] obtain h f st u where
    h: "route (dv_ret env) (d_EngineID d) = Some h"
    and d': "d' = (applyDownloadStatus d st (Some f))\<lparr>d_UpdatedAt := dv_now env\<rparr>"
    and rows: "rows_of w' = SaveDownload d' (rows_of w)" "rows_of u = rows_of w"
    and prep: "dw_prepared w' = dw_prepared w @ [(h, managedTorrentIndices env (d_EngineID d) (files_of w h)
        [d_FileIndex d] u, subtitle_indices (files_of w h))]" by blast
  have "d_ID d' = d_ID d" by (simp add: d')
  then show ?thesis using h prep rows managedTorrentIndices_facts[OF assms(3), of "d_EngineID d" "files_of w h" "[d_FileIndex d]" u]
    by (auto simp: GetDownload_SaveDownload)
qed

text \<open>The season pack with rows for both episodes.\<close>

definition pack_dworld :: dworld where
  "pack_dworld = run_command sample_dl_env (DoPrepare ''9'' 2) prepared_dworld"

lemma pack_rows: "map (\<lambda>d. (d_ID d, d_EngineID d, d_FileIndex d)) (rows_of pack_dworld)
    = [(''9/s/e1.mkv'', ''n:h'', 1), (''9/s/e2.mkv'', ''n:h'', 2)]"
  by code_simp

theorem playback_keeps_selection_witness:
  "\<exists>d d' w' subs. GetDownload ''9/s/e1.mkv'' (rows_of pack_dworld) = Some d
     \<and> prepareManagedDownload sample_dl_env d pack_dworld = (Inr d', w')
     \<and> dw_prepared w' = dw_prepared pack_dworld @ [(''h'', [1, 2], subs)]"
proof -
  define d where "d = hd (rows_of pack_dworld)"
  have d: "GetDownload ''9/s/e1.mkv'' (rows_of pack_dworld) = Some d" "d_EngineID d = ''n:h''" "d_FileIndex d = 1"
    using pack_rows by (auto simp: d_def GetDownload_def)
  obtain x w' where run: "prepareManagedDownload sample_dl_env d pack_dworld = (x, w')" by fastforce
  have "case prepareManagedDownload sample_dl_env (hd (rows_of pack_dworld)) pack_dworld of
      (Inl _, _) \<Rightarrow> False | _ \<Rightarrow> True" by code_simp
  then obtain d' where x: "x = Inr d'" using run by (cases x) (auto simp: d_def)
  have incomplete: "\<not> completedLocalFile (dv_stat sample_dl_env) d"
    unfolding d_def by code_simp
  have fail: "dv_fail sample_dl_env CallList v = None" for v by (simp add: sample_dl_env_def)
  from playback_keeps_selection[OF run[unfolded x] incomplete fail] obtain h indices where
    h: "route (dv_ret sample_dl_env) ''n:h'' = Some h"
    and prep: "dw_prepared w' = dw_prepared pack_dworld @ [(h, indices, subtitle_indices (files_of pack_dworld h))]"
    and sorted: "sorted indices" "distinct indices"
    and indices: "set indices = {i. (\<exists>f\<in>set (files_of pack_dworld h). tf_Playable f \<and> tf_Index f = i)
        \<and> (i = 1 \<or> (\<exists>r\<in>set (rows_of pack_dworld). d_EngineID r = ''n:h'' \<and> d_FileIndex r = i))}"
    unfolding d(2,3) by blast
  have "route (dv_ret sample_dl_env) ''n:h'' = Some ''h''" by code_simp
  then have hh: "h = ''h''" using h by simp
  have "map (\<lambda>f. (tf_Playable f, tf_Index f)) (files_of pack_dworld ''h'') = [(False, 0), (True, 1), (True, 2)]"
    by code_simp
  then have "set indices = {1, 2}" using indices pack_rows hh by auto
  then have "indices = [1, 2]" using sorted by (intro sorted_distinct_set_unique) simp_all
  then show ?thesis using d run x prep hh by blast
qed

section \<open>The lease of a stream\<close>

lemma set_lease_Inr:
  assumes "set_lease env k v w = (Inr u, w')"
  shows "GetDownload j (rows_of w') = (if j = k then map_option (leased_row (dv_now env) v) (GetDownload k (rows_of w))
      else GetDownload j (rows_of w)) \<and> GetDownload k (rows_of w) \<noteq> None"
proof -
  from assms obtain rows where rows: "SetLease (dv_now env) k v (rows_of w) = Some rows" "w' = with_rows rows w"
    by (auto simp: set_lease_def seq_Inr dest!: may_fail_Inr split: option.splits)
  then have "GetDownload k (rows_of w) \<noteq> None" using missing_row(2) by (metis option.distinct(1))
  then show ?thesis using rows(2) SetLease_Some(1)[OF rows(1)] by simp
qed

lemma ReleaseLease_row:
  assumes "dv_fail env (CallLease k) w = None" "GetDownload k (rows_of w) = Some r"
  shows "\<exists>w'. ReleaseLease env k w = (Inr (), w')
    \<and> (\<lambda>j. GetDownload j (rows_of w')) = (\<lambda>j. GetDownload j (rows_of w))(k \<mapsto> leased_row (dv_now env) False r)"
proof -
  obtain rows where rows: "SetLease (dv_now env) k False (rows_of w) = Some rows"
    using assms(2) missing_row(2) by fastforce
  then have "ReleaseLease env k w = (Inr (), with_rows rows w)"
    using assms(1) by (simp add: ReleaseLease_def attempt_def set_lease_def seq_def may_fail_def of_result_def)
  then show ?thesis using SetLease_Some(1)[OF rows] assms(2) by auto
qed

text \<open>
  A lease is a flag, not a count: after two streams of one download have
  acquired it, the first release alone clears the flag although the other stream still
  runs, and no other row changes.
\<close>

theorem lease_not_counted:
  assumes "Acquire env k w = (Inr a, w1)" and "Acquire env k w1 = (Inr b, w2)"
    and "\<And>v. dv_fail env (CallLease k) v = None"
  shows "\<exists>r w3. GetDownload k (rows_of w2) = Some r \<and> d_Leased r
    \<and> ReleaseLease env k w2 = (Inr (), w3)
    \<and> (\<lambda>j. GetDownload j (rows_of w3)) = (\<lambda>j. GetDownload j (rows_of w2))(k \<mapsto> leased_row (dv_now env) False r)
    \<and> \<not> d_Leased (leased_row (dv_now env) False r)"
proof -
  from assms(2) obtain d t u where "set_lease env k True t = (Inr u, w2)"
    by (auto simp: Acquire_def seq_Inr)
  from set_lease_Inr[OF this, of k] obtain r where "GetDownload k (rows_of w2) = Some r" "d_Leased r"
    by (auto simp: leased_row_def)
  with ReleaseLease_row[where env = env and w = w2 and k = k] assms(3) show ?thesis
    by (auto simp: leased_row_def)
qed

definition leased_twice :: dworld where
  "leased_twice = run_command sample_dl_env (DoAcquire ''9/s/e1.mkv'') (run_command sample_dl_env (DoAcquire ''9/s/e1.mkv'') pack_dworld)"

theorem lease_not_counted_witness:
  "\<exists>r w3. GetDownload ''9/s/e1.mkv'' (rows_of leased_twice) = Some r \<and> d_Leased r
     \<and> ReleaseLease sample_dl_env ''9/s/e1.mkv'' leased_twice = (Inr (), w3)
     \<and> map_option d_Leased (GetDownload ''9/s/e1.mkv'' (rows_of w3)) = Some False"
proof -
  let ?k = "''9/s/e1.mkv''" and ?w1 = "run_command sample_dl_env (DoAcquire ''9/s/e1.mkv'') pack_dworld"
  have ok: "case Acquire sample_dl_env ''9/s/e1.mkv'' pack_dworld of (Inl _, _) \<Rightarrow> False | _ \<Rightarrow> True" by code_simp
  have ok': "case Acquire sample_dl_env ''9/s/e1.mkv'' (run_command sample_dl_env (DoAcquire ''9/s/e1.mkv'') pack_dworld) of
      (Inl _, _) \<Rightarrow> False | _ \<Rightarrow> True" by code_simp
  obtain a where a: "Acquire sample_dl_env ?k pack_dworld = (Inr a, ?w1)"
    using ok by (cases "Acquire sample_dl_env ?k pack_dworld") (auto split: sum.splits)
  obtain b where b: "Acquire sample_dl_env ?k ?w1 = (Inr b, leased_twice)"
    using ok' by (cases "Acquire sample_dl_env ?k ?w1") (auto simp: leased_twice_def split: sum.splits)
  have "dv_fail sample_dl_env (CallLease ?k) v = None" for v by (simp add: sample_dl_env_def)
  from lease_not_counted[OF a b this] obtain r w3 where
    r: "GetDownload ?k (rows_of leased_twice) = Some r" "d_Leased r"
    "ReleaseLease sample_dl_env ?k leased_twice = (Inr (), w3)"
    and upd: "(\<lambda>j. GetDownload j (rows_of w3)) = (\<lambda>j. GetDownload j (rows_of leased_twice))
      (?k \<mapsto> leased_row (dv_now sample_dl_env) False r)" by blast
  from fun_cong[OF upd, of ?k] r show ?thesis by (auto simp: leased_row_def)
qed

section \<open>Removing a download\<close>

text \<open>
  Property C25. A manual removal is refused, with nothing changed, exactly while a row of
  the torrent is leased; otherwise, if it succeeds, every row of the torrent is gone. In
  all cases, errors included, the rows of the other torrents are those before.
\<close>

theorem manual_removal:
  assumes "rows_ok (rows_of w)" and "GetDownload k (rows_of w) = Some d"
    and "route (dv_ret env) (d_EngineID d) = Some h" and "\<And>v. dv_fail env CallList v = None"
    and "Manage env k ''remove'' w = (r, w')"
  shows "(if \<exists>x\<in>set (rows_of w). d_EngineID x = d_EngineID d \<and> d_Leased x
      then r = Inl StillLeased \<and> w' = w
      else r \<noteq> Inl StillLeased
        \<and> (r = Inr () \<longrightarrow> set (rows_of w') = {x \<in> set (rows_of w). d_EngineID x \<noteq> d_EngineID d}))
    \<and> {x \<in> set (rows_of w'). d_EngineID x \<noteq> d_EngineID d} = {x \<in> set (rows_of w). d_EngineID x \<noteq> d_EngineID d}"
proof -
  let ?e = "d_EngineID d"
  let ?leased = "\<exists>x\<in>set (rows_of w). d_EngineID x = ?e \<and> d_Leased x"
  have run: "(r, w') = (if ?leased then (Inl StillLeased, w) else remove_torrent env ?e w)"
    using assms by (auto simp: Manage_def get_download_def of_result_def route_of_row_def list_downloads_def
        may_fail_def read_state_def seq_def fail_def list_ex_iff split: if_splits)
  show ?thesis
  proof (cases ?leased)
    case True
    then show ?thesis using run by auto
  next
    case False
    obtain s x where s: "removeTorrent (dv_ret env) ?e (listed_store w) = (s, x)" by fastforce
    have dist: "distinct (map d_ID (rw_rows (listed_store w)))"
      using assms(1) ListDownloads_ids by (simp add: rows_ok_def)
    have w': "rows_of w' = rw_rows s" and r: "r = (case x of None \<Rightarrow> Inr () | Some e \<Rightarrow> Inl (RemoveFailed e))"
      using run False s by (auto simp: remove_torrent_def split: option.splits)
    have same: "filter (\<lambda>x. d_EngineID x = e') (rw_rows s) = filter (\<lambda>x. d_EngineID x = e') (ListDownloads (rows_of w))"
      if "e' \<noteq> ?e" for e'
      using removeTorrent_other[OF s dist that] by simp
    have other: "x \<in> set (rw_rows s) \<longleftrightarrow> x \<in> set (rows_of w)" if "d_EngineID x \<noteq> ?e" for x
      using arg_cong[OF same[OF that], of set] by (auto simp: set_eq_iff)
    have "set (rows_of w') = {x \<in> set (rows_of w). d_EngineID x \<noteq> ?e}" if "x = None"
      using removeTorrent_rows[OF s[unfolded that] dist] w' by auto
    then show ?thesis using False r w' other by (auto split: option.splits)
  qed
qed

theorem manual_removal_witness:
  "fst (Manage sample_dl_env ''9/s/e1.mkv'' ''remove'' leased_twice) = Inl StillLeased
   \<and> rows_of (snd (Manage sample_dl_env ''9/s/e1.mkv'' ''remove'' pack_dworld)) = []"
proof -
  let ?k = "''9/s/e1.mkv''"
  have fail: "dv_fail sample_dl_env CallList v = None" for v by (simp add: sample_dl_env_def)
  have route: "route (dv_ret sample_dl_env) ''n:h'' = Some ''h''" by code_simp
  have leased: "map (\<lambda>d. (d_ID d, d_EngineID d, d_Leased d)) (rows_of leased_twice)
      = [(''9/s/e1.mkv'', ''n:h'', True), (''9/s/e2.mkv'', ''n:h'', False)]" by code_simp
  have ok: "rows_ok (rows_of leased_twice)" "rows_ok (rows_of pack_dworld)" by code_simp+
  from leased obtain d where d: "GetDownload ?k (rows_of leased_twice) = Some d" "d_EngineID d = ''n:h''"
    and l: "\<exists>x\<in>set (rows_of leased_twice). d_EngineID x = ''n:h'' \<and> d_Leased x"
    by (auto simp: GetDownload_def)
  obtain r w' where run: "Manage sample_dl_env ?k ''remove'' leased_twice = (r, w')" by fastforce
  from manual_removal[OF ok(1) d(1) route[folded d(2)] fail run] l d(2)
  have one: "r = Inl StillLeased" by auto
  from pack_rows obtain d where d: "GetDownload ?k (rows_of pack_dworld) = Some d" "d_EngineID d = ''n:h''"
    and all: "\<forall>x\<in>set (rows_of pack_dworld). d_EngineID x = ''n:h''"
    by (auto simp: GetDownload_def)
  obtain r' u where run': "Manage sample_dl_env ?k ''remove'' pack_dworld = (r', u)" by fastforce
  have "case Manage sample_dl_env ''9/s/e1.mkv'' ''remove'' pack_dworld of (Inl _, _) \<Rightarrow> False | _ \<Rightarrow> True" by code_simp
  then have "r' = Inr ()" using run' by (cases r') auto
  with manual_removal[OF ok(2) d(1) route[folded d(2)] fail run'] all d(2)
  have "set (rows_of u) = {x \<in> set (rows_of pack_dworld). d_EngineID x \<noteq> ''n:h''}" by (auto split: if_splits)
  also have "\<dots> = {}" using all by auto
  finally show ?thesis using one run run' by simp
qed

end
