(* ===== verification/Matching.thy ===== *)
theory Matching
  imports Regexp
begin

text \<open>
  More of Go's \<open>regexp\<close>: a pattern without anchors matches wherever a text of its language
  starts, and \<open>ReplaceAllStringFunc\<close> for such patterns.
\<close>

section \<open>Completeness\<close>

primrec anchor_free :: "regexp \<Rightarrow> bool" where
  "anchor_free Empty = True"
| "anchor_free (Chars P) = True"
| "anchor_free (Concat a b) = (anchor_free a \<and> anchor_free b)"
| "anchor_free (Either a b) = (anchor_free a \<and> anchor_free b)"
| "anchor_free (Repeat P lo hi) = True"
| "anchor_free (Group n a) = anchor_free a"
| "anchor_free AtStart = False"
| "anchor_free AtEnd = False"

lemma longest_first_complete: "lo \<le> m \<Longrightarrow> m \<le> n \<Longrightarrow> f m \<noteq> None \<Longrightarrow> longest_first f lo n \<noteq> None"
proof (induction n)
  case (Suc n)
  then show ?case by (cases "m = Suc n") (auto split: option.splits)
qed simp

lemma run_regexp_complete:
  assumes "anchor_free r" "u \<in> language r" "\<And>gs'. k (i + length u, v, gs') \<noteq> None"
  shows "run_regexp r k (i, u @ v, gs) \<noteq> None"
  using assms
proof (induction r arbitrary: u v k i gs)
  case (Concat a b)
  then obtain x y where u: "u = x @ y" "x \<in> language a" "y \<in> language b" by auto
  have "run_regexp b k (i + length x, y @ v, gs') \<noteq> None" for gs'
    using Concat.IH(2)[of y k "i + length x" v gs'] Concat.prems u by (simp add: add.assoc)
  then show ?case using Concat.IH(1)[of x "run_regexp b k" i "y @ v" gs] Concat.prems(1) u by simp
next
  case (Either a b)
  show ?case
  proof (cases "u \<in> language a")
    case True
    then show ?thesis using Either.IH(1)[of u k i v gs] Either.prems by (auto split: option.splits)
  next
    case False
    then show ?thesis using Either.IH(2)[of u k i v gs] Either.prems by (auto split: option.splits)
  qed
next
  case (Repeat P lo hi)
  have all: "list_all P u" "lo \<le> length u" "\<And>h. hi = Some h \<Longrightarrow> length u \<le> h" using Repeat.prems(2) by auto
  have "length u \<le> length (takeWhile P (u @ v))" using all(1) by (induction u) auto
  then have "length u \<le> cap_at hi (length (takeWhile P (u @ v)))" using all(3) by (auto simp: cap_at_def split: option.splits)
  moreover have "k (i + length u, drop (length u) (u @ v), gs) \<noteq> None" using Repeat.prems(3) by simp
  ultimately show ?case using all(2) longest_first_complete[of lo "length u" _ "\<lambda>n. k (i + n, drop n (u @ v), gs)"] by simp
next
  case (Group n a)
  show ?case
    using Group.IH[of u "\<lambda>(j, rest, gs). k (j, rest, (n, i, j) # gs)" i v gs] Group.prems by simp
qed auto

lemma match_here_complete: "anchor_free r \<Longrightarrow> u \<in> language r \<Longrightarrow> match_here r i (u @ v) \<noteq> None"
  unfolding match_here_def by (rule run_regexp_complete) auto

text \<open>A match at the start of a text whose prefixes in the language all have one length.\<close>

lemma find_prefix:
  assumes "anchor_free r" "u \<in> language r" "\<And>w. w \<in> language r \<Longrightarrow> (\<exists>z. u @ v = w @ z) \<Longrightarrow> w = u"
  obtains gs where "find r (u @ v) = Some (0, length u, gs)"
proof -
  obtain m where m: "match_here r 0 (u @ v) = Some m" using match_here_complete[OF assms(1,2), of 0 v] by blast
  then obtain a b gs where abg: "m = (a, b, gs)" by (cases m)
  have a: "a = 0"
  proof -
    have "run_regexp r k (i, s, gs') = Some (a, b, gs) \<Longrightarrow> k = (\<lambda>(j, _, gs). Some (0, j, gs)) \<Longrightarrow> i \<le> length t \<Longrightarrow> s = drop i t \<Longrightarrow> a = 0"
      for k i s gs' t
      using run_regexp_sound[of r k i t gs' "(a, b, gs)"] by auto
    from this[of "\<lambda>(j, _, gs). Some (0, j, gs)" 0 "u @ v" "[]" "u @ v"] m abg show ?thesis by (simp add: match_here_def)
  qed
  have "match_here r 0 (drop 0 (u @ v)) = Some (a, b, gs)" using m abg by simp
  from match_here_sound[OF this] have s: "b \<le> length (u @ v)" "slice a b (u @ v) \<in> language r" by auto
  have "u @ v = take b (u @ v) @ drop b (u @ v)" by (rule append_take_drop_id[symmetric])
  then have "take b (u @ v) = u" using assms(3)[OF _ exI] s(2) a by (simp only: slice_def drop_0 diff_zero)
  then have b: "b = length u" using s(1) by (metis length_take min_absorb2)
  have f: "find r (u @ v) = Some m"
  proof (cases "u @ v")
    case Nil
    then show ?thesis using m unfolding find_def by simp
  next
    case (Cons c cs)
    then show ?thesis using m unfolding find_def by simp
  qed
  show thesis by (rule that[of gs]) (use f abg a b in simp)
qed

section \<open>Replacing\<close>

text \<open>The matches from left to right; a pattern that matches nothing would stop it.\<close>

function replace_all :: "regexp \<Rightarrow> (string \<Rightarrow> string) \<Rightarrow> string \<Rightarrow> string" where
  "replace_all r f s = (case find r s of
     None \<Rightarrow> s
   | Some (a, b, _) \<Rightarrow> if b \<le> a then s else take a s @ f (slice a b s) @ replace_all r f (drop b s))"
  by pat_completeness auto
termination
proof (relation "measure (\<lambda>(r, f, s). length s)", simp)
  fix r :: regexp and f :: "string \<Rightarrow> string" and s m a x b gs
  assume m: "find r s = Some m" "(a, x) = m" "(b, gs) = x" "\<not> b \<le> a"
  then have "find r s = Some (a, b, gs)" by auto
  from find_sound(1,2)[OF this] m(4) show "((r, f, drop b s), r, f, s) \<in> measure (\<lambda>(r, f, s). length s)" by auto
qed

declare replace_all.simps [simp del]

end
