(* ===== verification/Cues.thy ===== *)
theory Cues
  imports ReleaseNames Matching
begin

text \<open>
  Subtitle formats, \<open>internal/application/subtitles.go\<close>: the conversion to WebVTT and SAMI with the
  time patterns, the cleaning of cue texts and the positioning of cues. Text is bytes;
  what Go matches on characters is ASCII in every pattern used.
\<close>

section \<open>Text helpers\<close>

datatype subtitle_error = BinarySubtitle | InvalidWebVTT | InvalidSAMI | NoReadableCues | UnusableFormat string

definition LF :: char where "LF = CHR 0x0A"
definition CR :: char where "CR = CHR 0x0D"
definition BOM :: string where "BOM = [CHR 0xEF, CHR 0xBB, CHR 0xBF]"

text \<open>\<open>strings.ReplaceAll\<close> of a text of two characters.\<close>

fun replace_pair :: "char \<Rightarrow> char \<Rightarrow> string \<Rightarrow> string \<Rightarrow> string" where
  "replace_pair a b new (c # d # cs) = (if c = a \<and> d = b then new @ replace_pair a b new cs else c # replace_pair a b new (d # cs))"
| "replace_pair a b new [c] = [c]"
| "replace_pair a b new [] = []"

text \<open>\<open>%0nd\<close>.\<close>

definition pad_int :: "nat \<Rightarrow> int \<Rightarrow> string" where
  "pad_int n x = (if x < 0 then (let d = show_nat (nat (- x)) in CHR ''-'' # replicate (n - 1 - length d) (CHR ''0'') @ d)
     else (let d = show_nat (nat x) in replicate (n - length d) (CHR ''0'') @ d))"

definition escape_char :: "char \<Rightarrow> string" where
  "escape_char c = (if c = CHR ''&'' then ''&amp;'' else if c = CHR 0x27 then ''&#39;'' else if c = CHR ''<'' then ''&lt;''
     else if c = CHR ''>'' then ''&gt;'' else if c = CHR 0x22 then ''&#34;'' else [c])"

definition EscapeString :: "string \<Rightarrow> string" where
  "EscapeString s = concat (map escape_char s)"

section \<open>Patterns\<close>

definition lit :: "string \<Rightarrow> regexp" where "lit s = seq_of (map (\<lambda>c. one_of [c]) s)"

definition field :: regexp where "field = Repeat (\<lambda>c. c \<noteq> CHR '','') 0 None"
definition digits_plus :: regexp where "digits_plus = Repeat is_digit 1 None"

definition clock_pattern :: "nat \<Rightarrow> regexp" where
  "clock_pattern g = seq_of [Group g (digits 1 2), lit '':'', Group (g + 1) (digits 2 2), lit '':'', Group (g + 2) (digits 2 2),
     one_of '',.'', Group (g + 3) (digits 3 3)]"

definition timeLine :: regexp where
  "timeLine = seq_of [clock_pattern 1, re_spaces, lit ''-->'', re_spaces, clock_pattern 5]"

definition ass_clock :: "nat \<Rightarrow> regexp" where
  "ass_clock g = seq_of [Group g digits_plus, lit '':'', Group (g + 1) (digits 2 2), lit '':'', Group (g + 2) (digits 2 2),
     lit ''.'', Group (g + 3) (digits 2 2)]"

definition assLine :: regexp where
  "assLine = seq_of [AtStart, word ''Dialogue'', lit '':'', field, lit '','', ass_clock 1, lit '','', ass_clock 5, lit '','',
     field, lit '','', field, lit '','', field, lit '','', field, lit '','', field, lit '','', field, lit '','',
     Group 9 (Repeat (\<lambda>c. c \<noteq> LF) 0 None), AtEnd]"

definition braces :: regexp where
  "braces = seq_of [lit ''{'', Repeat (\<lambda>c. c \<noteq> CHR ''}'') 0 None, lit ''}'']"

definition vtt_clock :: regexp where
  "vtt_clock = seq_of [opt (seq_of [digits 1 3, lit '':'']), digits 2 2, lit '':'', digits 2 2]"

definition vtt_fraction :: regexp where "vtt_fraction = Concat (one_of ''.'') (digits 3 3)"

definition blanks :: regexp where "blanks = Repeat (\<lambda>c. c = CHR '' '' \<or> c = CHR 0x09) 0 None"

definition vttCueTiming :: regexp where
  "vttCueTiming = seq_of [vtt_clock, vtt_fraction, seq_of [blanks, lit ''-->'', blanks], vtt_clock, vtt_fraction]"

section \<open>Times\<close>

text \<open>\<open>strconv.ParseInt\<close> on digits with the error dropped keeps the largest value.\<close>

definition parse_clamped :: "string \<Rightarrow> int64" where
  "parse_clamped s = (case parse_int64 s of Some v \<Rightarrow> v
     | None \<Rightarrow> if s \<noteq> [] \<and> list_all is_digit s then 2 ^ 63 - 1 else 0)"

definition clockMS :: "string list \<Rightarrow> int64" where
  "clockMS parts = (let v = map parse_clamped parts in i64 (((v ! 0 * 60 + v ! 1) * 60 + v ! 2) * 1000 + v ! 3))"

definition assMS :: "string list \<Rightarrow> int64" where
  "assMS parts = (let v = map parse_clamped parts in i64 (((v ! 0 * 60 + v ! 1) * 60 + v ! 2) * 1000 + v ! 3 * 10))"

definition go_mod :: "int \<Rightarrow> int \<Rightarrow> int" where "go_mod a b = a - go_div a b * b"

definition vttTime :: "int64 \<Rightarrow> string" where
  "vttTime ms = pad_int 2 (go_div ms 3600000) @ '':'' @ pad_int 2 (go_mod (go_div ms 60000) 60) @ '':''
     @ pad_int 2 (go_mod (go_div ms 1000) 60) @ ''.'' @ pad_int 3 (go_mod ms 1000)"

text \<open>The groups \<open>m[i..j]\<close> of a match.\<close>

definition groups_text :: "groups \<Rightarrow> string \<Rightarrow> nat list \<Rightarrow> string list" where
  "groups_text gs s is = map (\<lambda>i. group_text gs i s) is"

section \<open>Cues\<close>

definition cleanCue :: "string \<Rightarrow> string" where
  "cleanCue v = (let v1 = replace_all braces (\<lambda>_. []) v; v2 = replace_pair (CHR 0x5C) (CHR ''N'') [LF] v1 in
     concat (map (\<lambda>c. if c = LF then ''<br>'' else [c]) (EscapeString (trim_space v2))))"

record cue =
  cu_start :: int64
  cu_end :: int64
  cu_text :: string

definition ass_cue :: "string \<Rightarrow> cue option" where
  "ass_cue line = (case find assLine line of None \<Rightarrow> None
     | Some (_, _, gs) \<Rightarrow> Some \<lparr>cu_start = assMS (groups_text gs line [1, 2, 3, 4]),
         cu_end = assMS (groups_text gs line [5, 6, 7, 8]), cu_text = cleanCue (group_text gs 9 line)\<rparr>)"

function srt_cues :: "string list \<Rightarrow> cue list" where
  "srt_cues [] = []"
| "srt_cues (l # ls) = (case find timeLine l of
     None \<Rightarrow> srt_cues ls
   | Some (_, _, gs) \<Rightarrow> \<lparr>cu_start = clockMS (groups_text gs l [1, 2, 3, 4]), cu_end = clockMS (groups_text gs l [5, 6, 7, 8]),
         cu_text = cleanCue (join_with [LF] (takeWhile (\<lambda>x. trim_space x \<noteq> []) ls))\<rparr>
       # srt_cues (tl (dropWhile (\<lambda>x. trim_space x \<noteq> []) ls)))"
  by pat_completeness auto
termination
proof (relation "measure length")
  show "(tl (dropWhile P ls), l # ls) \<in> measure length" for P l and ls :: "string list"
    using length_dropWhile_le[of P ls] by (simp add: less_Suc_eq_le le_diff_conv)
qed simp_all

definition plain_text :: "string \<Rightarrow> string" where
  "plain_text data = replace_pair CR LF [LF] (trim_prefix data BOM)"

section \<open>WebVTT\<close>

definition cue_suffix :: string where "cue_suffix = '' align:center line:80% position:50%''"

definition position_line :: "string \<Rightarrow> string" where
  "position_line line = (case find vttCueTiming line of None \<Rightarrow> line | Some (a, b, _) \<Rightarrow> slice a b line @ cue_suffix)"

definition positionCueLines :: "string \<Rightarrow> string" where
  "positionCueLines text = join_with [LF] (map position_line (split_on LF text))"

definition vtt_cue :: "nat \<Rightarrow> cue \<Rightarrow> string" where
  "vtt_cue index c = show_nat index @ [LF] @ vttTime (cu_start c) @ '' --> '' @ vttTime (cu_end c) @ [LF] @ cu_text c @ [LF, LF]"

definition toWebVTT :: "string \<Rightarrow> string \<Rightarrow> subtitle_error + string" where
  "toWebVTT data fmt =
     (if CHR 0x00 \<in> set data then Inl BinarySubtitle
      else let text = plain_text data in
        if fmt = ''.vtt'' then
          (if has_prefix (trim_space text) ''WEBVTT'' then Inr (positionCueLines text) else Inl InvalidWebVTT)
        else if fmt = ''.srt'' then
          Inr (positionCueLines (''WEBVTT'' @ [LF, LF] @ replace_all timeLine (map (\<lambda>c. if c = CHR '','' then CHR ''.'' else c)) text))
        else if fmt = ''.ass'' \<or> fmt = ''.ssa'' then
          (let cues = List.map_filter ass_cue (split_on LF text) in
           if cues = [] then Inl NoReadableCues
           else Inr (positionCueLines (''WEBVTT'' @ [LF, LF] @ concat (map (\<lambda>(i, c). vtt_cue (Suc i) c) (enumerate 0 cues)))))
        else Inl (UnusableFormat fmt))"

section \<open>SAMI\<close>

definition sami_head :: string where
  "sami_head = ''<SAMI><HEAD><STYLE><!-- P { font-family: sans-serif; color: white; text-align: center; } --></STYLE></HEAD><BODY>'' @ [LF]"

definition sami_cue :: "cue \<Rightarrow> string" where
  "sami_cue c = ''<SYNC Start='' @ show_int (cu_start c) @ ''><P Class=SUBTTL>'' @ cu_text c @ ''</P>'' @ [LF]
     @ ''<SYNC Start='' @ show_int (cu_end c) @ ''><P Class=SUBTTL>&nbsp;</P>'' @ [LF]"

definition sami_document :: "cue list \<Rightarrow> string" where
  "sami_document cues = sami_head @ concat (map sami_cue cues) @ ''</BODY></SAMI>'' @ [LF]"

definition toSAMI :: "string \<Rightarrow> string \<Rightarrow> subtitle_error + string" where
  "toSAMI data fmt =
     (if CHR 0x00 \<in> set data then Inl BinarySubtitle
      else let text = plain_text data in
        if fmt = ''.smi'' \<or> fmt = ''.sami'' then
          (if contains_str (to_upper text) ''<SAMI'' then Inr text else Inl InvalidSAMI)
        else let cues = (if fmt = ''.ass'' \<or> fmt = ''.ssa'' then List.map_filter ass_cue (split_on LF text) else srt_cues (split_on LF text)) in
          if cues = [] then Inl NoReadableCues else Inr (sami_document cues))"

section \<open>Positioned cues\<close>

text \<open>The characters a pattern can take.\<close>

primrec may_take :: "regexp \<Rightarrow> char \<Rightarrow> bool" where
  "may_take Empty c = False"
| "may_take (Chars P) c = P c"
| "may_take (Concat a b) c = (may_take a c \<or> may_take b c)"
| "may_take (Either a b) c = (may_take a c \<or> may_take b c)"
| "may_take (Repeat P lo hi) c = P c"
| "may_take (Group n a) c = may_take a c"
| "may_take AtStart c = False"
| "may_take AtEnd c = False"

lemma language_may_take: "w \<in> language r \<Longrightarrow> c \<in> set w \<Longrightarrow> may_take r c"
proof (induction r arbitrary: w)
  case (Concat a b)
  then obtain u v where "w = u @ v" "u \<in> language a" "v \<in> language b" by auto
  then show ?case using Concat.IH(1)[of u] Concat.IH(2)[of v] Concat.prems(2) by auto
qed (auto simp: list_all_iff)

lemma clock_no_dot: "w \<in> language vtt_clock \<Longrightarrow> CHR ''.'' \<notin> set w"
  using language_may_take[of w vtt_clock "CHR ''.''"]
  by (auto simp: vtt_clock_def opt_def digits_def lit_def one_of_def is_digit_def)

lemma arrow_no_dot: "w \<in> language (seq_of [blanks, lit ''-->'', blanks]) \<Longrightarrow> CHR ''.'' \<notin> set w"
  using language_may_take[of w "seq_of [blanks, lit ''-->'', blanks]" "CHR ''.''"]
  by (auto simp: blanks_def lit_def one_of_def)

lemma timing_shape:
  assumes "w \<in> language vttCueTiming"
  shows "\<exists>p x q y. w = p @ CHR ''.'' # x @ q @ CHR ''.'' # y \<and> CHR ''.'' \<notin> set p \<and> CHR ''.'' \<notin> set q \<and> length x = 3 \<and> length y = 3"
proof -
  from assms obtain h1 f1 a h2 f2 where w: "w = h1 @ f1 @ a @ h2 @ f2" "h1 \<in> language vtt_clock" "f1 \<in> language vtt_fraction"
    "a \<in> language (seq_of [blanks, lit ''-->'', blanks])" "h2 \<in> language vtt_clock" "f2 \<in> language vtt_fraction"
    unfolding vttCueTiming_def seq_of.simps(3)[of vtt_clock] seq_of.simps(3)[of vtt_fraction] seq_of.simps(2)[of vtt_fraction]
      seq_of.simps(3)[of "seq_of [blanks, lit ''-->'', blanks]"] language.simps(3)[of vtt_clock] language.simps(3)[of vtt_fraction]
      language.simps(3)[of "seq_of [blanks, lit ''-->'', blanks]"]
    by blast
  have frac: "\<exists>x. f = CHR ''.'' # x \<and> length x = 3" if "f \<in> language vtt_fraction" for f
    using that by (auto simp: vtt_fraction_def one_of_def digits_def)
  from frac[OF w(3)] frac[OF w(6)] obtain x y where f: "f1 = CHR ''.'' # x" "length x = 3" "f2 = CHR ''.'' # y" "length y = 3" by blast
  have "CHR ''.'' \<notin> set (a @ h2)" using arrow_no_dot[OF w(4)] clock_no_dot[OF w(5)] by simp
  then show ?thesis
    using w(1) f clock_no_dot[OF w(2)] by (intro exI[of _ h1] exI[of _ x] exI[of _ "a @ h2"] exI[of _ y]) simp
qed

lemma timing_prefix:
  assumes "u \<in> language vttCueTiming" "w \<in> language vttCueTiming" "u @ v = w @ z"
  shows "w = u"
proof -
  obtain p x q y where u: "u = p @ CHR ''.'' # x @ q @ CHR ''.'' # y" "CHR ''.'' \<notin> set p" "CHR ''.'' \<notin> set q" "length x = 3" "length y = 3"
    using timing_shape[OF assms(1)] by blast
  obtain p' x' q' y' where w: "w = p' @ CHR ''.'' # x' @ q' @ CHR ''.'' # y'" "CHR ''.'' \<notin> set p'" "CHR ''.'' \<notin> set q'" "length x' = 3" "length y' = 3"
    using timing_shape[OF assms(2)] by blast
  have "p @ CHR ''.'' # x @ q @ CHR ''.'' # y @ v = p' @ CHR ''.'' # x' @ q' @ CHR ''.'' # y' @ z"
    using assms(3) u(1) w(1) by simp
  from sep_inj[OF this u(2) w(2)] have p: "p = p'" "x @ q @ CHR ''.'' # y @ v = x' @ q' @ CHR ''.'' # y' @ z" by blast+
  from p(2) u(4) w(4) have x: "x = x'" "q @ CHR ''.'' # y @ v = q' @ CHR ''.'' # y' @ z" by simp_all
  from sep_inj[OF x(2) u(3) w(3)] have "q = q'" "y @ v = y' @ z" by blast+
  with u(5) w(5) have "q = q'" "y = y'" by simp_all
  with p(1) x(1) u(1) w(1) show ?thesis by simp
qed

lemma timing_anchor_free: "anchor_free vttCueTiming"
  by (simp add: vttCueTiming_def vtt_clock_def vtt_fraction_def blanks_def opt_def lit_def one_of_def digits_def)

definition stamped :: "string \<Rightarrow> bool" where
  "stamped line \<longleftrightarrow> find vttCueTiming line = None \<or> (\<exists>u\<in>language vttCueTiming. line = u @ cue_suffix)"

lemma position_stamped: "u \<in> language vttCueTiming \<Longrightarrow> position_line (u @ cue_suffix) = u @ cue_suffix"
proof -
  assume u: "u \<in> language vttCueTiming"
  have "w = u" if "w \<in> language vttCueTiming" "\<exists>z. u @ cue_suffix = w @ z" for w
    using timing_prefix[OF u that(1)] that(2) by blast
  then obtain gs where "find vttCueTiming (u @ cue_suffix) = Some (0, length u, gs)"
    using find_prefix[OF timing_anchor_free u] by blast
  then show ?thesis by (simp add: position_line_def slice_def)
qed

lemma position_line_idem: "position_line (position_line l) = position_line l" and position_line_stamped: "stamped (position_line l)"
proof -
  have "position_line (position_line l) = position_line l \<and> stamped (position_line l)"
  proof (cases "find vttCueTiming l")
    case (Some m)
    then obtain a b gs where m: "find vttCueTiming l = Some (a, b, gs)" by (cases m) auto
    then have "slice a b l \<in> language vttCueTiming" by (rule find_sound(3))
    then show ?thesis using m position_stamped by (auto simp: position_line_def stamped_def)
  qed (simp add: position_line_def stamped_def)
  then show "position_line (position_line l) = position_line l" "stamped (position_line l)" by simp_all
qed

lemma position_line_no_LF: "LF \<notin> set l \<Longrightarrow> LF \<notin> set (position_line l)"
  by (auto simp: position_line_def slice_def cue_suffix_def LF_def split: option.splits dest: in_set_takeD in_set_dropD)

lemma positioned_lines: "split_on LF (positionCueLines t) = map position_line (split_on LF t)"
  unfolding positionCueLines_def
  by (rule split_join) (use split_on_elem position_line_no_LF in auto)

lemma positionCueLines_idem: "positionCueLines (positionCueLines t) = positionCueLines t"
proof -
  have "positionCueLines (positionCueLines t) = join_with [LF] (map position_line (map position_line (split_on LF t)))"
    by (subst positionCueLines_def) (simp only: positioned_lines)
  then show ?thesis by (simp only: map_map o_def position_line_idem positionCueLines_def)
qed

lemma toWebVTT_positioned: "toWebVTT data fmt = Inr out \<Longrightarrow> \<exists>t. out = positionCueLines t"
  by (auto simp: toWebVTT_def Let_def split: if_splits)

text \<open>
  Property C31. (\<open>positionCueLines\<close>, \<open>toWebVTT\<close>) Every line of a converted subtitle that carries a cue
  timing is that timing and exactly one positioning suffix, and positioning the result
  again, as the cache does when it serves it, changes nothing.
\<close>

theorem webvtt_positioned_once:
  assumes "toWebVTT data fmt = Inr out"
  shows "(\<forall>line\<in>set (split_on LF out). stamped line) \<and> positionCueLines out = out"
proof -
  obtain t where t: "out = positionCueLines t" using toWebVTT_positioned[OF assms] by blast
  show ?thesis by (auto simp: t positioned_lines position_line_stamped positionCueLines_idem)
qed

section \<open>What reaches the player\<close>

text \<open>A text without markup of its own, in lines.\<close>

definition inert :: "string \<Rightarrow> bool" where
  "inert s \<longleftrightarrow> (\<forall>c\<in>{CHR ''<'', CHR ''>'', CHR 0x22, CHR 0x27}. c \<notin> set s)"

definition safe_text :: "string \<Rightarrow> bool" where
  "safe_text t \<longleftrightarrow> (\<exists>ls. t = join_with ''<br>'' ls \<and> list_all inert ls)"

lemma inert_escape: "inert (EscapeString s)"
  by (induction s) (auto simp: inert_def EscapeString_def escape_char_def split: if_splits)

lemma escape_keeps_LF: "EscapeString (join_with [LF] ls) = join_with [LF] (map EscapeString ls)"
proof (induction "[LF]" ls rule: join_with.induct)
  case (3 l v va)
  have "escape_char LF = [LF]" by (simp add: escape_char_def LF_def)
  with 3 show ?case by (simp add: EscapeString_def)
qed (simp_all add: EscapeString_def)

lemma no_br: "LF \<notin> set l \<Longrightarrow> concat (map (\<lambda>c. if c = LF then ''<br>'' else [c]) l) = l"
  by (induction l) auto

lemma br_join:
  assumes "\<And>l. l \<in> set ls \<Longrightarrow> LF \<notin> set l"
  shows "concat (map (\<lambda>c. if c = LF then ''<br>'' else [c]) (join_with [LF] ls)) = join_with ''<br>'' ls"
  using assms
proof (induction "[LF]" ls rule: join_with.induct)
  case (2 l)
  then show ?case using no_br[of l] by simp
next
  case (3 l v va)
  then show ?case using no_br[of l] by simp
qed simp

lemma cleanCue_safe: "safe_text (cleanCue v)"
proof -
  obtain s where s: "cleanCue v = concat (map (\<lambda>c. if c = LF then ''<br>'' else [c]) (EscapeString s))"
    by (auto simp: cleanCue_def Let_def)
  let ?ls = "map EscapeString (split_on LF s)"
  have "EscapeString s = join_with [LF] ?ls" using escape_keeps_LF[of "split_on LF s"] by simp
  moreover have "LF \<notin> set l" if el: "l \<in> set ?ls" for l
  proof -
    obtain k where k: "l = EscapeString k" "k \<in> set (split_on LF s)" using el by auto
    from split_on_elem[OF k(2)] k(1) show ?thesis by (auto simp: EscapeString_def escape_char_def LF_def split: if_splits)
  qed
  ultimately have "cleanCue v = join_with ''<br>'' ?ls" using s br_join[of ?ls] by simp
  moreover have "list_all inert ?ls" using inert_escape by (auto simp: list_all_iff)
  ultimately show ?thesis unfolding safe_text_def by blast
qed

lemma srt_cues_safe: "c \<in> set (srt_cues ls) \<Longrightarrow> safe_text (cu_text c)"
  by (induction ls rule: srt_cues.induct) (auto split: option.splits simp: cleanCue_safe)

lemma ass_cue_safe: "ass_cue l = Some c \<Longrightarrow> safe_text (cu_text c)"
  by (auto simp: ass_cue_def cleanCue_safe split: option.splits)

text \<open>
  Property C32. (\<open>toSAMI\<close>, \<open>cleanCue\<close>) A SAMI document made from another format is the frame of the
  program around at least one cue, and no cue carries markup or an attribute quote from the
  source: its text is lines without angle brackets and quotes joined by line breaks.
\<close>

theorem sami_cues_inert:
  assumes "toSAMI data fmt = Inr out" "fmt \<noteq> ''.smi''" "fmt \<noteq> ''.sami''"
  shows "\<exists>cues. cues \<noteq> [] \<and> out = sami_document cues \<and> (\<forall>c\<in>set cues. safe_text (cu_text c))"
proof -
  let ?cues = "if fmt = ''.ass'' \<or> fmt = ''.ssa'' then List.map_filter ass_cue (split_on LF (plain_text data))
    else srt_cues (split_on LF (plain_text data))"
  have "?cues \<noteq> []" "out = sami_document ?cues" using assms by (auto simp: toSAMI_def Let_def split: if_splits)
  moreover have "\<forall>c\<in>set ?cues. safe_text (cu_text c)"
    using srt_cues_safe ass_cue_safe by (auto simp: List.map_filter_def)
  ultimately show ?thesis by blast
qed

section \<open>Times\<close>

lemma digits_zeros: "digits_val (replicate n (CHR ''0'') @ s) = digits_val s"
  by (induction n) (simp_all add: digits_val_def digit_val_def)

lemma pad_int_value:
  assumes "0 \<le> x" "x < 2 ^ 63"
  shows "parse_clamped (pad_int n x) = x \<and> list_all is_digit (pad_int n x)"
proof -
  have p: "pad_int n x = replicate (n - length (show_nat (nat x))) (CHR ''0'') @ show_nat (nat x)" using assms by (simp add: pad_int_def Let_def)
  have d: "list_all is_digit (pad_int n x)" "pad_int n x \<noteq> []"
    using show_nat_facts[of "nat x"] by (auto simp: p list_all_iff is_digit_def)
  have v: "digits_val (pad_int n x) = x" using show_nat_facts[of "nat x"] assms by (simp add: p digits_zeros)
  obtain c cs where c: "pad_int n x = c # cs" using d(2) by (cases "pad_int n x") auto
  then have "is_digit c" using d(1) by simp
  then have "parse_int64 (pad_int n x) = Some x"
    using c d v assms is_digit_not_letter[OF \<open>is_digit c\<close>] by (auto simp: parse_int64_def parse_digits_def in_i64_def)
  then show ?thesis using d by (simp add: parse_clamped_def)
qed

lemma clockMS_pads:
  assumes "0 \<le> h" "h < 2 ^ 63" "0 \<le> m" "m < 2 ^ 63" "0 \<le> s" "s < 2 ^ 63" "0 \<le> f" "f < 2 ^ 63"
  shows "clockMS [pad_int a h, pad_int b m, pad_int c s, pad_int d f] = i64 (((h * 60 + m) * 60 + s) * 1000 + f)"
  using pad_int_value[OF assms(1,2), of a] pad_int_value[OF assms(3,4), of b] pad_int_value[OF assms(5,6), of c]
    pad_int_value[OF assms(7,8), of d]
  by (simp add: clockMS_def)

lemma time_sum: "a = h * 60 + m \<Longrightarrow> b = a * 60 + s \<Longrightarrow> ms = b * 1000 + f \<Longrightarrow> ((h * 60 + m) * 60 + s) * 1000 + f = (ms :: int)"
  by simp

text \<open>
  (\<open>vttTime\<close>, \<open>clockMS\<close>) A time written by the WebVTT conversion reads back as the same
  number of milliseconds, for every time the program can hold.
\<close>

theorem vttTime_reads_back:
  assumes "0 \<le> ms" "ms < 2 ^ 63"
  shows "\<exists>h m s f. vttTime ms = h @ '':'' @ m @ '':'' @ s @ ''.'' @ f \<and> list_all (list_all is_digit) [h, m, s, f]
    \<and> clockMS [h, m, s, f] = ms"
proof -
  let ?h = "ms div 3600000" and ?m = "(ms div 60000) mod 60" and ?s = "(ms div 1000) mod 60" and ?f = "ms mod 1000"
  have g: "go_div a b = a div b" "go_mod a b = a mod b" if "0 \<le> a" "0 < b" for a b
    using that by (simp_all add: go_div_nonneg go_mod_def minus_div_mult_eq_mod)
  have t: "vttTime ms = pad_int 2 ?h @ '':'' @ pad_int 2 ?m @ '':'' @ pad_int 2 ?s @ ''.'' @ pad_int 3 ?f"
    using assms by (simp add: vttTime_def g pos_imp_zdiv_nonneg_iff)
  have b: "0 \<le> ?h" "0 \<le> ?m" "0 \<le> ?s" "0 \<le> ?f" "?m < 60" "?s < 60" "?f < 1000"
    using assms by (simp_all add: pos_imp_zdiv_nonneg_iff)
  have "?h \<le> ms" using div_mult_mod_eq[of ms 3600000] pos_mod_sign[of 3600000 ms] b(1) by linarith
  have lim: "?h < 2 ^ 63" "?m < 2 ^ 63" "?s < 2 ^ 63" "?f < 2 ^ 63" using \<open>?h \<le> ms\<close> b(5-7) assms by simp_all
  have d1: "ms div 60000 = ms div 1000 div 60" "ms div 3600000 = ms div 60000 div 60" using zdiv_zmult2_eq[of 60 ms 1000] zdiv_zmult2_eq[of 60 ms 60000] by simp_all
  have "ms div 60000 = ?h * 60 + ?m" using div_mult_mod_eq[of "ms div 60000" 60] d1(2) by linarith
  moreover have "ms div 1000 = (ms div 60000) * 60 + ?s" using div_mult_mod_eq[of "ms div 1000" 60] d1(1) by linarith
  moreover have "ms = (ms div 1000) * 1000 + ?f" using div_mult_mod_eq[of ms 1000] by linarith
  ultimately have sum: "((?h * 60 + ?m) * 60 + ?s) * 1000 + ?f = ms" by (rule time_sum)
  have "clockMS [pad_int 2 ?h, pad_int 2 ?m, pad_int 2 ?s, pad_int 3 ?f] = i64 (((?h * 60 + ?m) * 60 + ?s) * 1000 + ?f)"
    by (rule clockMS_pads[OF b(1) lim(1) b(2) lim(2) b(3) lim(3) b(4) lim(4)])
  also have "\<dots> = ms" unfolding sum by (rule i64_small[OF assms])
  finally have c: "clockMS [pad_int 2 ?h, pad_int 2 ?m, pad_int 2 ?s, pad_int 3 ?f] = ms" .
  have "list_all (list_all is_digit) [pad_int 2 ?h, pad_int 2 ?m, pad_int 2 ?s, pad_int 3 ?f]"
    using pad_int_value[OF b(1) lim(1)] pad_int_value[OF b(2) lim(2)] pad_int_value[OF b(3) lim(3)] pad_int_value[OF b(4) lim(4)]
    by (simp only: list.pred_inject simp_thms)
  then show ?thesis using t c by blast
qed

lemma vttTime_reads_back_witness:
  "\<exists>h m s f. vttTime 3723004 = h @ '':'' @ m @ '':'' @ s @ ''.'' @ f \<and> list_all (list_all is_digit) [h, m, s, f]
    \<and> clockMS [h, m, s, f] = 3723004"
  by (rule vttTime_reads_back) simp_all

lemma webvtt_positioned_once_witness:
  "\<exists>out. (\<forall>line\<in>set (split_on LF out). stamped line) \<and> positionCueLines out = out"
proof -
  have "toWebVTT ''WEBVTT'' ''.vtt'' = Inr (positionCueLines (plain_text ''WEBVTT''))" by code_simp
  from webvtt_positioned_once[OF this] show ?thesis by blast
qed

text \<open>
  (\<open>toSAMI\<close>, \<open>timeLine\<close>) WebVTT may leave out the hours, and the positioning pattern of
  the same file expects that; the time pattern of the SAMI conversion does not, so a WebVTT
  subtitle of the first hour loses every cue and the conversion fails.
\<close>

theorem sami_needs_hours:
  "toSAMI (''WEBVTT'' @ [LF, LF] @ ''00:01.000 --> 00:02.000'' @ [LF] @ ''Hi'') ''.vtt'' = Inl NoReadableCues
   \<and> find vttCueTiming ''00:01.000 --> 00:02.000'' \<noteq> None
   \<and> toSAMI (''WEBVTT'' @ [LF, LF] @ ''00:00:01.000 --> 00:00:02.000'' @ [LF] @ ''Hi'') ''.vtt''
       = Inr (sami_document [\<lparr>cu_start = 1000, cu_end = 2000, cu_text = ''Hi''\<rparr>])"
  by code_simp

lemma sami_cues_inert_witness:
  "\<exists>cues. cues \<noteq> [] \<and> sami_document [\<lparr>cu_start = 1000, cu_end = 2000, cu_text = ''Hi''\<rparr>] = sami_document cues
     \<and> (\<forall>c\<in>set cues. safe_text (cu_text c))"
proof (rule sami_cues_inert)
  show "toSAMI (''00:00:01.000 --> 00:00:02.000'' @ [LF] @ ''Hi'') ''.srt'' = Inr (sami_document [\<lparr>cu_start = 1000, cu_end = 2000, cu_text = ''Hi''\<rparr>])"
    by code_simp
qed simp_all

end
