(* ===== verification/Subtitles.thy ===== *)
theory Subtitles
  imports Cues Language Manifest "HOL-Library.Multiset"
begin

text \<open>
  Choosing and storing subtitles, \<open>internal/application/subtitles.go\<close>: what a file name says about
  episode and language, how similar two names are, unpacking a downloaded archive and
  pruning the cache. The zip reader is a parameter: the members with their contents.
\<close>

section \<open>Names\<close>

definition stem :: "string \<Rightarrow> string" where "stem p = trim_suffix (path_base p) (path_ext p)"

definition sameStem :: "string \<Rightarrow> string \<Rightarrow> bool" where
  "sameStem media sub = has_prefix (to_lower (stem sub)) (to_lower (stem media))"

definition episodePattern :: regexp where
  "episodePattern =
     (let gap = Repeat (\<lambda>c. c \<in> set '' ._-'') 0 None in
      Either (seq_of [word ''s'', Group 1 (digits 1 2), gap, word ''e'', Group 2 (digits 1 3)])
        (seq_of [Group 3 (digits 1 2), word ''x'', Group 4 (digits 1 3)]))"

definition episodeKey :: "string \<Rightarrow> string" where
  "episodeKey p = (let b = path_base p in case find episodePattern b of
     None \<Rightarrow> []
   | Some (_, _, gs) \<Rightarrow> if group_text gs 1 b \<noteq> [] then group_text gs 1 b @ '':'' @ group_text gs 2 b
       else group_text gs 3 b @ '':'' @ group_text gs 4 b)"

definition episodeMatches :: "string \<Rightarrow> string \<Rightarrow> bool" where
  "episodeMatches media sub = (let l = episodeKey media; r = episodeKey sub in l = [] \<or> r = [] \<or> l = r)"

definition name_words :: "string \<Rightarrow> string list" where
  "name_words p = str_fields (map (\<lambda>c. if c \<in> set ''._-'' then CHR '' '' else c) (to_lower (stem p)))"

definition filenameSimilarity :: "string \<Rightarrow> string \<Rightarrow> int" where
  "filenameSimilarity left right =
     (let haystack = '' '' @ join_with '' '' (name_words right) @ '' '';
          score = int (length (filter (\<lambda>w. length w > 1 \<and> contains_str haystack ('' '' @ w @ '' '')) (name_words left)));
          l = episodeKey left; r = episodeKey right in
      if l \<noteq> [] \<and> r \<noteq> [] then (if l \<noteq> r then - 1000 else score + 20) else score)"

definition sameLanguage :: "string \<Rightarrow> string \<Rightarrow> bool" where
  "sameLanguage a b \<longleftrightarrow> NormalizeLanguage a = NormalizeLanguage b"

definition subtitleNameMarkers :: "string list" where
  "subtitleNameMarkers = [''cc'', ''forced'', ''sdh'', ''sub'', ''subs'', ''subtitle'', ''subtitles'', ''subtitrari'']"

definition is_az :: "char \<Rightarrow> bool" where "is_az c \<longleftrightarrow> (let n = (of_char c :: nat) in 97 \<le> n \<and> n \<le> 122)"

text \<open>\<open>Split\<close> at runs of other characters: the words read so far, and the word being read.\<close>

fun name_tokens :: "bool \<Rightarrow> string \<Rightarrow> string \<Rightarrow> string list" where
  "name_tokens gap w [] = [w]"
| "name_tokens gap w (c # cs) =
     (if is_az c then name_tokens False (w @ [c]) cs
      else if gap then name_tokens True w cs
      else w # name_tokens True [] cs)"

fun language_hint :: "string list \<Rightarrow> string" where
  "language_hint [] = []"
| "language_hint (t # ts) = (let code = NormalizeLanguage t in
     if code \<noteq> [] then code else if t \<notin> set subtitleNameMarkers then [] else language_hint ts)"

definition subtitleLanguage :: "string \<Rightarrow> string" where
  "subtitleLanguage name = (let b = trim_suffix (to_lower (path_base name)) (to_lower (path_ext name)) in
     language_hint (take 3 (rev (name_tokens False [] b))))"

section \<open>Unpacking\<close>

definition maxSubtitleSourceBytes :: int where "maxSubtitleSourceBytes = 10 * 1024 * 1024"

definition supportedSubtitleExt :: "string \<Rightarrow> bool" where
  "supportedSubtitleExt ext \<longleftrightarrow> to_lower ext \<in> set [''.srt'', ''.vtt'', ''.ass'', ''.ssa'', ''.smi'', ''.sami'']"

definition sniffSubtitleFormat :: "string \<Rightarrow> string" where
  "sniffSubtitleFormat data = (let text = trim_space (to_lower (trim_prefix data BOM)) in
     if has_prefix text ''webvtt'' then ''.vtt''
     else if contains_str text ''[script info]'' \<and> contains_str text ''dialogue:'' then ''.ass''
     else if contains_str text ''<sami'' then ''.smi''
     else if contains_str text ''-->'' then ''.srt'' else [])"

text \<open>A member with the size it declares and what reading it gives, \<open>None\<close> for an error.\<close>

record zip_entry =
  ze_Name :: string
  ze_Size :: int
  ze_read :: "string option"

datatype unpack_error = EmptyOrTooLarge | InvalidArchive | ArchiveTooLarge | NothingSupported | UnsupportedSubtitle string

definition admissible_entry :: "zip_entry \<Rightarrow> bool" where
  "admissible_entry f \<longleftrightarrow> (let c = path_clean (ze_Name f) in
     \<not> (is_abs c \<or> c = ''..'' \<or> has_prefix c ''../'')
     \<and> supportedSubtitleExt (to_lower (path_ext c)) \<and> ze_Size f \<le> maxSubtitleSourceBytes)"

fun archive_candidates :: "int \<Rightarrow> zip_entry list \<Rightarrow> unpack_error + zip_entry list" where
  "archive_candidates expanded [] = Inr []"
| "archive_candidates expanded (f # fs) =
     (if \<not> admissible_entry f then archive_candidates expanded fs
      else if expanded + ze_Size f > 50 * 1024 * 1024 then Inl ArchiveTooLarge
      else (case archive_candidates (expanded + ze_Size f) fs of Inl e \<Rightarrow> Inl e | Inr cs \<Rightarrow> Inr (f # cs)))"

text \<open>The content of a member that can be read and is not over the limit.\<close>

definition entry_content :: "zip_entry \<Rightarrow> string option" where
  "entry_content f = (case ze_read f of None \<Rightarrow> None
     | Some c \<Rightarrow> (let d = read_limited (maxSubtitleSourceBytes + 1) c in if int (length d) \<le> maxSubtitleSourceBytes then Some d else None))"

fun first_readable :: "zip_entry list \<Rightarrow> (zip_entry \<times> string) option" where
  "first_readable [] = None"
| "first_readable (f # fs) = (case entry_content f of Some d \<Rightarrow> Some (f, d) | None \<Rightarrow> first_readable fs)"

definition is_zip :: "string \<Rightarrow> bool" where
  "is_zip data \<longleftrightarrow> list_ex (has_prefix data) [''PK'' @ [CHR 0x03, CHR 0x04], ''PK'' @ [CHR 0x05, CHR 0x06], ''PK'' @ [CHR 0x07, CHR 0x08]]"

definition by_similarity :: "string \<Rightarrow> zip_entry list \<Rightarrow> zip_entry list" where
  "by_similarity mediaPath = sort_key (\<lambda>f. - filenameSimilarity mediaPath (ze_Name f))"

definition unpackSubtitle :: "(string \<Rightarrow> zip_entry list option) \<Rightarrow> string \<Rightarrow> string \<Rightarrow> string \<Rightarrow> string
    \<Rightarrow> unpack_error + string \<times> string" where
  "unpackSubtitle unzip data fmt name mediaPath =
     (if data = [] \<or> int (length data) > maxSubtitleSourceBytes then Inl EmptyOrTooLarge
      else if is_zip data then
        (case unzip data of None \<Rightarrow> Inl InvalidArchive | Some fs \<Rightarrow>
         case archive_candidates 0 fs of Inl e \<Rightarrow> Inl e | Inr cs \<Rightarrow>
         case first_readable (by_similarity mediaPath cs) of
           None \<Rightarrow> Inl NothingSupported
         | Some (f, d) \<Rightarrow> Inr (d, to_lower (path_ext (ze_Name f))))
      else let f1 = (if to_lower fmt = ''.zip'' then [] else fmt);
               f2 = (if f1 = [] then path_ext name else f1);
               f3 = to_lower (if to_lower f2 = ''.zip'' \<or> f2 = [] then sniffSubtitleFormat data else f2) in
        if supportedSubtitleExt f3 then Inr (data, f3) else Inl (UnsupportedSubtitle f3))"

text \<open>Nothing that can be read would have fitted the media file better.\<close>

definition best_member :: "string \<Rightarrow> zip_entry list \<Rightarrow> string \<Rightarrow> bool" where
  "best_member mediaPath fs d \<longleftrightarrow> (\<exists>f\<in>set fs. admissible_entry f \<and> entry_content f = Some d
     \<and> (\<forall>g\<in>set fs. admissible_entry g \<and> entry_content g \<noteq> None
          \<longrightarrow> filenameSimilarity mediaPath (ze_Name g) \<le> filenameSimilarity mediaPath (ze_Name f)))"

lemma archive_candidates_filter: "archive_candidates n fs = Inr cs \<Longrightarrow> cs = filter admissible_entry fs"
  by (induction n fs arbitrary: cs rule: archive_candidates.induct) (auto split: if_splits sum.splits)

lemma first_readable_best:
  assumes "sorted (map (\<lambda>f. k f) fs)" "first_readable fs = Some (f, d)"
  shows "f \<in> set fs \<and> entry_content f = Some d \<and> (\<forall>g\<in>set fs. entry_content g \<noteq> None \<longrightarrow> (k f :: int) \<le> k g)"
  using assms by (induction fs) (auto split: option.splits)

lemma entry_content_bound: "entry_content f = Some d \<Longrightarrow> int (length d) \<le> maxSubtitleSourceBytes"
  by (auto simp: entry_content_def Let_def split: option.splits if_splits)

text \<open>
  Property C33. (\<open>unpackSubtitle\<close>) Whatever a provider sends, at most 10 MiB come out of it. Of an
  archive it is a readable member with a name inside the archive's root and a supported
  extension, and none that can be read is more similar to the media file; anything else is
  passed on as it is under a supported format.
\<close>

theorem unpackSubtitle_bounded:
  assumes "unpackSubtitle unzip data fmt name mediaPath = Inr (d, f)"
  shows "int (length d) \<le> maxSubtitleSourceBytes
    \<and> (if is_zip data then best_member mediaPath (the (unzip data)) d else d = data \<and> supportedSubtitleExt f)"
proof (cases "is_zip data")
  case True
  then obtain fs cs g where r: "unzip data = Some fs" "archive_candidates 0 fs = Inr cs"
      "first_readable (by_similarity mediaPath cs) = Some (g, d)"
    using assms by (auto simp: unpackSubtitle_def split: if_splits option.splits sum.splits)
  have cs: "cs = filter admissible_entry fs" by (rule archive_candidates_filter[OF r(2)])
  have "sorted (map (\<lambda>f. - filenameSimilarity mediaPath (ze_Name f)) (by_similarity mediaPath cs))"
    unfolding by_similarity_def by (rule sorted_sort_key)
  from first_readable_best[OF this r(3)] have b: "g \<in> set cs" "entry_content g = Some d"
    "\<forall>h\<in>set cs. entry_content h \<noteq> None \<longrightarrow> filenameSimilarity mediaPath (ze_Name h) \<le> filenameSimilarity mediaPath (ze_Name g)"
    by (auto simp: by_similarity_def)
  then have "best_member mediaPath fs d" unfolding best_member_def cs by auto
  then show ?thesis using True r(1) entry_content_bound[OF b(2)] by simp
next
  case False
  then show ?thesis using assms by (auto simp: unpackSubtitle_def Let_def split: if_splits)
qed

definition sample_zip :: "string \<Rightarrow> zip_entry list option" where
  "sample_zip data = Some [\<lparr>ze_Name = ''a.srt'', ze_Size = 1, ze_read = Some ''x''\<rparr>]"

lemma unpackSubtitle_bounded_witness:
  "int (length ''x'') \<le> maxSubtitleSourceBytes
    \<and> (if is_zip (''PK'' @ [CHR 0x03, CHR 0x04]) then best_member ''a.mkv'' (the (sample_zip (''PK'' @ [CHR 0x03, CHR 0x04]))) ''x''
       else ''x'' = ''PK'' @ [CHR 0x03, CHR 0x04] \<and> supportedSubtitleExt ''.srt'')"
proof (rule unpackSubtitle_bounded)
  show "unpackSubtitle sample_zip (''PK'' @ [CHR 0x03, CHR 0x04]) [] [] ''a.mkv'' = Inr (''x'', ''.srt'')" by code_simp
qed

section \<open>Names that mislead\<close>

text \<open>
  (\<open>episodeKey\<close>, \<open>subtitleLanguage\<close>) Episode numbers are compared as they are written, so
  the same episode with and without a leading zero is another one and its subtitle is
  ranked last; and a release word at the end of a name is taken for a language, here the
  telesync mark for Tsonga.
\<close>

theorem names_mislead:
  "\<not> episodeMatches ''S01E02.mkv'' ''S1E2.srt'' \<and> filenameSimilarity ''S01E02.mkv'' ''S1E2.srt'' = - 1000
   \<and> subtitleLanguage ''Film.TS.srt'' = ''ts''"
  by code_simp

section \<open>The cache\<close>

record cached_file =
  cf_path :: string
  cf_data :: string
  cf_mod :: gotime

definition cache_entry :: "string \<Rightarrow> cached_file \<Rightarrow> bool" where
  "cache_entry dir f \<longleftrightarrow> path_dir (cf_path f) = dir \<and> (path_ext (cf_path f) = ''.smi'' \<or> path_ext (cf_path f) = ''.vtt'')"

abbreviation cf_size :: "cached_file \<Rightarrow> int" where "cf_size f \<equiv> int (length (cf_data f))"

text \<open>The files removed by the loop; \<open>rm\<close> tells which removals succeed.\<close>

fun prune_loop :: "(string \<Rightarrow> bool) \<Rightarrow> int64 \<Rightarrow> string \<Rightarrow> int64 \<Rightarrow> cached_file list \<Rightarrow> cached_file list" where
  "prune_loop rm maximum keep used [] = []"
| "prune_loop rm maximum keep used (f # fs) =
     (if used \<le> maximum then []
      else if cf_path f = keep then prune_loop rm maximum keep used fs
      else if rm (cf_path f) then f # prune_loop rm maximum keep (i64 (used - cf_size f)) fs
      else prune_loop rm maximum keep used fs)"

text \<open>\<open>sort.Slice\<close> is not stable: \<open>order\<close> is what it makes of the entries.\<close>

definition pruned_files :: "(cached_file list \<Rightarrow> cached_file list) \<Rightarrow> (string \<Rightarrow> bool) \<Rightarrow> string \<Rightarrow> int64 \<Rightarrow> string
    \<Rightarrow> cached_file list \<Rightarrow> cached_file list" where
  "pruned_files order rm dir maximum keep files =
     (let es = filter (cache_entry dir) files in prune_loop rm maximum keep (i64 (sum_list (map cf_size es))) (order es))"

definition pruneSubtitleCache :: "(cached_file list \<Rightarrow> cached_file list) \<Rightarrow> (string \<Rightarrow> bool) \<Rightarrow> string \<Rightarrow> int64 \<Rightarrow> string
    \<Rightarrow> cached_file list \<Rightarrow> cached_file list" where
  "pruneSubtitleCache order rm dir maximum keep files =
     (let gone = map cf_path (pruned_files order rm dir maximum keep files) in filter (\<lambda>f. cf_path f \<notin> set gone) files)"

definition by_time :: "(cached_file list \<Rightarrow> cached_file list) \<Rightarrow> bool" where
  "by_time order \<longleftrightarrow> (\<forall>fs. mset (order fs) = mset fs \<and> sorted (map cf_mod (order fs)))"

text \<open>
  What pruning leaves of the entries: all of them if they fit; otherwise it removes the
  oldest but never the file to keep, until they fit or only that one is left.
\<close>

definition pruned_ok :: "int64 \<Rightarrow> string \<Rightarrow> cached_file list \<Rightarrow> cached_file list \<Rightarrow> bool" where
  "pruned_ok maximum keep gone left \<longleftrightarrow>
     (\<forall>f\<in>set gone. cf_path f \<noteq> keep) \<and> (\<forall>f\<in>set gone. \<forall>g\<in>set left. cf_path g \<noteq> keep \<longrightarrow> cf_mod f \<le> cf_mod g)
     \<and> (sum_list (map cf_size left) \<le> maximum \<or> (\<forall>g\<in>set left. cf_path g = keep))
     \<and> (gone \<noteq> [] \<longrightarrow> maximum < sum_list (map cf_size left) + cf_size (last gone))"

definition pruned_with :: "int \<Rightarrow> int64 \<Rightarrow> string \<Rightarrow> cached_file list \<Rightarrow> cached_file list \<Rightarrow> bool" where
  "pruned_with extra maximum keep gone left \<longleftrightarrow>
     (\<forall>f\<in>set gone. cf_path f \<noteq> keep) \<and> (\<forall>f\<in>set gone. \<forall>g\<in>set left. cf_path g \<noteq> keep \<longrightarrow> cf_mod f \<le> cf_mod g)
     \<and> (extra + sum_list (map cf_size left) \<le> maximum \<or> (\<forall>g\<in>set left. cf_path g = keep))
     \<and> (gone \<noteq> [] \<longrightarrow> maximum < extra + sum_list (map cf_size left) + cf_size (last gone))"

lemma sizes_nonneg: "0 \<le> sum_list (map cf_size fs)"
  by (rule sum_list_nonneg) auto

lemma sizes_mset: "mset fs = mset gs \<Longrightarrow> sum_list (map cf_size fs) = sum_list (map cf_size gs)"
  by (metis mset_map sum_mset_sum_list)

lemma prune_loop_all:
  assumes "sorted (map cf_mod fs)" "used = extra + sum_list (map cf_size fs)" "0 \<le> extra" "used < 2 ^ 63" "\<And>p. rm p"
  shows "\<exists>left. mset fs = mset (prune_loop rm maximum keep used fs) + mset left
    \<and> pruned_with extra maximum keep (prune_loop rm maximum keep used fs) left"
  using assms
proof (induction fs arbitrary: used extra)
  case (Cons f fs)
  have s: "0 \<le> sum_list (map cf_size fs)" by (rule sizes_nonneg)
  show ?case
  proof (cases "used \<le> maximum")
    case True
    then show ?thesis using Cons.prems by (intro exI[of _ "f # fs"]) (simp add: pruned_with_def)
  next
    case big: False
    show ?thesis
    proof (cases "cf_path f = keep")
      case True
      have p: "sorted (map cf_mod fs)" "used = (extra + cf_size f) + sum_list (map cf_size fs)" "0 \<le> extra + cf_size f"
        using Cons.prems(1,2,3) by simp_all
      obtain left where
        l: "mset fs = mset (prune_loop rm maximum keep used fs) + mset left" "pruned_with (extra + cf_size f) maximum keep (prune_loop rm maximum keep used fs) left"
        using Cons.IH[OF p Cons.prems(4,5)] by blast
      then show ?thesis using big True by (intro exI[of _ "f # left"]) (auto simp: pruned_with_def add.assoc)
    next
      case False
      let ?u = "used - cf_size f"
      have u: "?u = extra + sum_list (map cf_size fs)" using Cons.prems(2) by simp
      then have i: "i64 ?u = ?u" using s Cons.prems by (intro i64_small) auto
      have st: "sorted (map cf_mod fs)" and lt: "?u < 2 ^ 63" using Cons.prems(1,4) by auto
      obtain left where
        l: "mset fs = mset (prune_loop rm maximum keep ?u fs) + mset left" "pruned_with extra maximum keep (prune_loop rm maximum keep ?u fs) left"
        using Cons.IH[OF st u Cons.prems(3) lt Cons.prems(5)] by blast
      let ?gone = "prune_loop rm maximum keep ?u fs"
      have loop: "prune_loop rm maximum keep used (f # fs) = f # ?gone" using big False Cons.prems(5) by (simp add: i)
      have "\<forall>g\<in>set left. cf_mod f \<le> cf_mod g"
        using Cons.prems(1) arg_cong[OF l(1), of set_mset] by auto
      moreover have "maximum < extra + sum_list (map cf_size left) + cf_size f" if g: "?gone = []"
      proof -
        have "mset fs = mset left" using l(1) unfolding g by simp
        from sizes_mset[OF this] show ?thesis using big Cons.prems(2) by simp
      qed
      ultimately have "pruned_with extra maximum keep (f # ?gone) left"
        using l(2) False by (auto simp: pruned_with_def)
      then show ?thesis using l(1) unfolding loop by (intro exI[of _ left]) simp
    qed
  qed
qed (simp add: pruned_with_def)

lemma pruned_with_mset:
  assumes "mset left = mset left'" "pruned_with 0 maximum keep gone left" shows "pruned_ok maximum keep gone left'"
  using assms(2) sizes_mset[OF assms(1)] mset_eq_setD[OF assms(1)] by (simp add: pruned_with_def pruned_ok_def)

text \<open>
  (\<open>pruneSubtitleCache\<close>) When removals succeed, pruning leaves other files alone, never
  removes the file just written, removes no file younger than one it leaves, stops as soon
  as the entries fit, and otherwise leaves only the file just written.
\<close>

theorem pruning_keeps_newest:
  assumes "by_time order" "\<And>p. rm p" "distinct (map cf_path files)" "sum_list (map cf_size (filter (cache_entry dir) files)) < 2 ^ 63"
  shows "pruned_ok maximum keep (pruned_files order rm dir maximum keep files)
      (filter (cache_entry dir) (pruneSubtitleCache order rm dir maximum keep files))
    \<and> filter (\<lambda>f. \<not> cache_entry dir f) (pruneSubtitleCache order rm dir maximum keep files) = filter (\<lambda>f. \<not> cache_entry dir f) files"
proof -
  let ?es = "filter (cache_entry dir) files" and ?gone = "pruned_files order rm dir maximum keep files"
  have o: "mset (order ?es) = mset ?es" "sorted (map cf_mod (order ?es))" using assms(1) by (simp_all add: by_time_def)
  have used: "i64 (sum_list (map cf_size ?es)) = 0 + sum_list (map cf_size (order ?es))"
    using i64_small[OF sizes_nonneg assms(4)] sizes_mset[OF o(1)] by simp
  have lt: "i64 (sum_list (map cf_size ?es)) < 2 ^ 63" using i64_small[OF sizes_nonneg assms(4)] assms(4) by simp
  have gone: "?gone = prune_loop rm maximum keep (i64 (sum_list (map cf_size ?es))) (order ?es)"
    by (simp only: pruned_files_def Let_def)
  obtain left where l: "mset (order ?es) = mset ?gone + mset left" "pruned_with 0 maximum keep ?gone left"
    using prune_loop_all[where rm = rm and maximum = maximum and keep = keep, OF o(2) used order.refl lt assms(2)] unfolding gone by blast
  have sub: "set ?gone \<subseteq> set ?es" "set left \<subseteq> set ?es"
    using arg_cong[OF l(1), of set_mset] o(1) by (auto dest: mset_eq_setD)
  have "inj_on cf_path (set files)" using assms(3) by (simp add: distinct_map)
  have d: "distinct ?es" using assms(3) by (simp add: distinct_map)
  have "mset (?gone @ left) = mset ?es" using l(1) o(1) by simp
  then have "distinct (?gone @ left)" using d by (rule mset_eq_imp_distinct_iff[THEN iffD2])
  then have disj: "set ?gone \<inter> set left = {}" by simp
  have notin: "cf_path g \<notin> cf_path ` set ?gone" if "g \<in> set left" for g
    using that disj sub \<open>inj_on cf_path (set files)\<close> by (force simp: inj_on_def)
  let ?keepers = "filter (\<lambda>f. cf_path f \<notin> cf_path ` set ?gone) ?es"
  have "mset ?keepers = filter_mset (\<lambda>f. cf_path f \<notin> cf_path ` set ?gone) (mset ?gone + mset left)"
    using l(1) o(1) by (metis mset_filter)
  also have "\<dots> = mset left"
  proof -
    have "filter (\<lambda>f. cf_path f \<notin> cf_path ` set ?gone) ?gone = []" by (simp add: filter_empty_conv)
    moreover have "filter (\<lambda>f. cf_path f \<notin> cf_path ` set ?gone) left = left" using notin by (simp add: filter_id_conv)
    ultimately have "mset (filter (\<lambda>f. cf_path f \<notin> cf_path ` set ?gone) (?gone @ left)) = mset left" by (simp only: filter_append append_Nil)
    then show ?thesis by (simp only: mset_filter mset_append)
  qed
  finally have k: "mset ?keepers = mset left" .
  have res: "filter (cache_entry dir) (pruneSubtitleCache order rm dir maximum keep files) = ?keepers"
    by (simp add: pruneSubtitleCache_def Let_def conj_commute)
  have "cf_path f \<notin> cf_path ` set ?gone" if f: "f \<in> set files" "\<not> cache_entry dir f" for f
  proof
    assume "cf_path f \<in> cf_path ` set ?gone"
    then obtain g where g: "g \<in> set ?es" "cf_path f = cf_path g" using sub(1) by blast
    then have "f = g" using f(1) \<open>inj_on cf_path (set files)\<close> by (auto dest: inj_onD)
    with f(2) g(1) show False by simp
  qed
  then have "filter (\<lambda>f. \<not> cache_entry dir f) (pruneSubtitleCache order rm dir maximum keep files) = filter (\<lambda>f. \<not> cache_entry dir f) files"
    by (auto simp: pruneSubtitleCache_def Let_def intro!: filter_cong)
  then show ?thesis using pruned_with_mset[OF k[symmetric] l(2)] unfolding res by blast
qed

definition sample_cache :: "cached_file list" where
  "sample_cache = [\<lparr>cf_path = ''/s/a.vtt'', cf_data = ''aa'', cf_mod = 1\<rparr>, \<lparr>cf_path = ''/s/b.vtt'', cf_data = ''b'', cf_mod = 2\<rparr>]"

lemma pruning_keeps_newest_witness:
  "pruned_ok 1 ''/s/b.vtt'' (pruned_files (sort_key cf_mod) (\<lambda>_. True) ''/s'' 1 ''/s/b.vtt'' sample_cache)
      (filter (cache_entry ''/s'') (pruneSubtitleCache (sort_key cf_mod) (\<lambda>_. True) ''/s'' 1 ''/s/b.vtt'' sample_cache))
    \<and> filter (\<lambda>f. \<not> cache_entry ''/s'' f) (pruneSubtitleCache (sort_key cf_mod) (\<lambda>_. True) ''/s'' 1 ''/s/b.vtt'' sample_cache)
      = filter (\<lambda>f. \<not> cache_entry ''/s'' f) sample_cache"
proof (rule pruning_keeps_newest)
  show "by_time (sort_key cf_mod)" by (simp add: by_time_def)
  show "distinct (map cf_path sample_cache)" by (simp add: sample_cache_def)
  show "sum_list (map cf_size (filter (cache_entry ''/s'') sample_cache)) < 2 ^ 63" by (simp add: sample_cache_def)
qed simp

end
