(* ===== verification/SubtitleService.thy ===== *)
theory SubtitleService
  imports Subtitles Streaming Downloads TitleDetail
begin

text \<open>
  The subtitle operations of the service, \<open>internal/application/subtitles.go\<close>: the search over
  included, embedded and remote subtitles, the preparation of one subtitle with its cached
  assets, and the path of an asset. The engine, the probe, the providers and the database
  answer through the records \<open>search_env\<close> and \<open>prepare_env\<close>.
\<close>

section \<open>Searching\<close>

datatype subtitle_scope = ScopeAll | ScopeLocal | ScopeRemote

definition ParseSubtitleSearchScope :: "string \<Rightarrow> subtitle_scope option" where
  "ParseSubtitleSearchScope value = (let scope = to_lower (trim_space value) in
     if scope = [] \<or> scope = ''all'' then Some ScopeAll
     else if scope = ''local'' then Some ScopeLocal
     else if scope = ''remote'' then Some ScopeRemote else None)"

record subtitle_candidate =
  sc_ID :: string
  sc_Provider :: string
  sc_ProviderLabel :: string
  sc_Language :: string
  sc_Title :: string
  sc_FileName :: string
  sc_ReleaseName :: string
  sc_Format :: string
  sc_Uploader :: string
  sc_HearingImpaired :: bool
  sc_Description :: string
  sc_Score :: float64
  sc_Cached :: bool

record subtitle_track =
  tr_Index :: int
  tr_Language :: string
  tr_Title :: string
  tr_Codec :: string
  tr_Forced :: bool
  tr_HearingImpaired :: bool

record subtitle_query =
  sq_Release :: torrent_release
  sq_MediaPath :: string
  sq_Language :: string
  sq_FallbackLanguage :: string

datatype search_error = SearchRowMissing | SearchReleaseMissing | SearchRoute | SearchFiles

record search_env =
  sx_download :: "download option"
  sx_release :: "string \<Rightarrow> torrent_release option"
  sx_preferred :: string
  sx_fallback :: string
  sx_prefix :: string
  sx_files :: "string \<Rightarrow> torrent_file list option"
  sx_probe :: bool
  sx_isFile :: "string \<Rightarrow> bool"
  sx_tracks :: "string \<Rightarrow> string + subtitle_track list"
  sx_providers :: "(string \<times> (subtitle_query \<Rightarrow> string + subtitle_candidate list)) list"
  sx_cached :: "string \<Rightarrow> string \<Rightarrow> bool"

definition contained_candidate :: "string \<Rightarrow> string \<Rightarrow> torrent_release \<Rightarrow> download \<Rightarrow> torrent_file \<Rightarrow> subtitle_candidate option" where
  "contained_candidate wanted fallback release d f =
     (let lang = subtitleLanguage (tf_Path f); name = path_base (tf_Path f);
          score = 300 + (if sameStem (d_FilePath d) (tf_Path f) then 50 else 0) + (if sameLanguage wanted lang then 25 else 0) in
      if \<not> subtitle (tf_Path f) \<or> \<not> episodeMatches (d_FilePath d) (tf_Path f)
        \<or> (wanted \<noteq> [] \<and> lang \<noteq> [] \<and> \<not> sameLanguage wanted lang \<and> \<not> sameLanguage fallback lang) then None
      else Some \<lparr>sc_ID = show_int (tf_Index f), sc_Provider = ''contained'', sc_ProviderLabel = ''Included'', sc_Language = lang,
        sc_Title = name, sc_FileName = name, sc_ReleaseName = rel_Name release, sc_Format = trim_prefix (to_lower (path_ext name)) ''.'',
        sc_Uploader = [], sc_HearingImpaired = False, sc_Description = ''Included in the torrent'', sc_Score = score, sc_Cached = False\<rparr>)"

definition middle_dot :: string where "middle_dot = [CHR '' '', CHR 0xC2, CHR 0xB7, CHR '' '']"

definition embeddedTrackLabel :: "subtitle_track \<Rightarrow> string" where
  "embeddedTrackLabel t =
     (let parts = (if trim_space (tr_Title t) \<noteq> [] then [trim_space (tr_Title t)] else [])
        @ (if trim_space (tr_Language t) \<noteq> [] \<and> to_lower (tr_Language t) \<noteq> ''und'' then [to_upper (tr_Language t)] else [])
        @ (if tr_Forced t then [''Forced''] else []) @ (if tr_HearingImpaired t then [''SDH''] else []) in
      join_with middle_dot (if parts = [] then [''Embedded subtitle '' @ show_int (tr_Index t)] else parts))"

definition embedded_candidate :: "string \<Rightarrow> torrent_release \<Rightarrow> subtitle_track \<Rightarrow> subtitle_candidate" where
  "embedded_candidate wanted release t =
     \<lparr>sc_ID = show_int (tr_Index t), sc_Provider = ''embedded'', sc_ProviderLabel = ''Embedded'', sc_Language = NormalizeLanguage (tr_Language t),
      sc_Title = embeddedTrackLabel t, sc_FileName = embeddedTrackLabel t, sc_ReleaseName = rel_Name release, sc_Format = tr_Codec t,
      sc_Uploader = [], sc_HearingImpaired = tr_HearingImpaired t, sc_Description = ''Embedded in the media file'',
      sc_Score = 260 + (if sameLanguage wanted (tr_Language t) then 25 else 0) + (if tr_Forced t then 5 else 0), sc_Cached = False\<rparr>"

definition remote_candidate :: "(string \<Rightarrow> string \<Rightarrow> bool) \<Rightarrow> string \<Rightarrow> string \<Rightarrow> subtitle_candidate \<Rightarrow> subtitle_candidate" where
  "remote_candidate cached wanted provider c =
     (let lang = NormalizeLanguage (sc_Language c) in
      c\<lparr>sc_Provider := provider, sc_Language := lang,
        sc_Score := sc_Score c + 100 + (if sameLanguage wanted lang then 25 else 0),
        sc_Cached := (cached provider (sc_ID c) \<or> sc_Cached c)\<rparr>)"

definition local_search :: "search_env \<Rightarrow> string \<Rightarrow> string \<Rightarrow> torrent_release \<Rightarrow> download \<Rightarrow> search_error + subtitle_candidate list" where
  "local_search env wanted fallback release d =
     (case cut_prefix (d_EngineID d) (sx_prefix env) of None \<Rightarrow> Inl SearchRoute | Some h \<Rightarrow>
      case sx_files env h of None \<Rightarrow> Inl SearchFiles
      | Some files \<Rightarrow> Inr (List.map_filter (contained_candidate wanted fallback release d) files))"

definition embedded_search :: "search_env \<Rightarrow> string \<Rightarrow> torrent_release \<Rightarrow> download
    \<Rightarrow> subtitle_candidate list \<times> (string \<times> string) list" where
  "embedded_search env wanted release d =
     (if \<not> sx_probe env \<or> d_AbsolutePath d = [] \<or> \<not> sx_isFile env (d_AbsolutePath d) then ([], [])
      else case sx_tracks env (d_AbsolutePath d) of
        Inl e \<Rightarrow> ([], [(''embedded'', e)])
      | Inr tracks \<Rightarrow> (map (embedded_candidate wanted release) tracks, []))"

fun remote_search :: "(string \<Rightarrow> string \<Rightarrow> bool) \<Rightarrow> subtitle_query
    \<Rightarrow> (string \<times> (subtitle_query \<Rightarrow> string + subtitle_candidate list)) list \<Rightarrow> subtitle_candidate list \<times> (string \<times> string) list" where
  "remote_search cached q [] = ([], [])"
| "remote_search cached q ((name, search) # ps) =
     (let (items, warnings) = remote_search cached q ps in
      case search q of
        Inl e \<Rightarrow> (items, (name, e) # warnings)
      | Inr found \<Rightarrow> (map (remote_candidate cached (sq_Language q) name) found @ items, warnings))"

definition SearchSubtitles :: "search_env \<Rightarrow> string \<Rightarrow> subtitle_scope
    \<Rightarrow> search_error + subtitle_candidate list \<times> (string \<times> string) list" where
  "SearchSubtitles env wanted scope =
     (case sx_download env of None \<Rightarrow> Inl SearchRowMissing | Some d \<Rightarrow>
      case sx_release env (d_ReleaseID d) of None \<Rightarrow> Inl SearchReleaseMissing | Some release \<Rightarrow>
      let fallback = (if sameLanguage wanted (sx_preferred env) then sx_fallback env else []);
          q = \<lparr>sq_Release = release, sq_MediaPath = d_FilePath d, sq_Language = wanted, sq_FallbackLanguage = fallback\<rparr> in
      case (if scope = ScopeRemote then Inr [] else local_search env wanted fallback release d) of
        Inl e \<Rightarrow> Inl e
      | Inr included \<Rightarrow>
          let (embedded, w1) = (if scope = ScopeRemote then ([], []) else embedded_search env wanted release d);
              (remote, w2) = (if scope = ScopeLocal then ([], []) else remote_search (sx_cached env) q (sx_providers env)) in
          Inr (sort_key (\<lambda>c. - sc_Score c) (included @ embedded @ remote), w1 @ w2))"

text \<open>The environment in which what fails is not there at all.\<close>

definition answering :: "search_env \<Rightarrow> subtitle_query \<Rightarrow> search_env" where
  "answering env q = env\<lparr>sx_providers := filter (\<lambda>p. \<not> isl (snd p q)) (sx_providers env),
     sx_probe := (sx_probe env \<and> (case sx_download env of None \<Rightarrow> True | Some d \<Rightarrow> \<not> isl (sx_tracks env (d_AbsolutePath d))))\<rparr>"

definition query_of :: "search_env \<Rightarrow> string \<Rightarrow> subtitle_query" where
  "query_of env wanted = (let d = the (sx_download env) in
     \<lparr>sq_Release = the (sx_release env (d_ReleaseID d)), sq_MediaPath = d_FilePath d, sq_Language = wanted,
      sq_FallbackLanguage = (if sameLanguage wanted (sx_preferred env) then sx_fallback env else [])\<rparr>)"

lemma remote_search_answering:
  "fst (remote_search cached q (filter (\<lambda>p. \<not> isl (snd p q)) ps)) = fst (remote_search cached q ps)
   \<and> snd (remote_search cached q (filter (\<lambda>p. \<not> isl (snd p q)) ps)) = []
   \<and> snd (remote_search cached q ps) = map (\<lambda>p. (fst p, projl (snd p q))) (filter (\<lambda>p. isl (snd p q)) ps)"
  by (induction ps) (auto simp: Let_def split: prod.splits sum.splits)

definition warnings_of :: "search_env \<Rightarrow> string \<Rightarrow> subtitle_scope \<Rightarrow> (string \<times> string) list" where
  "warnings_of env wanted scope =
     (let path = d_AbsolutePath (the (sx_download env)) in
      (if scope \<noteq> ScopeRemote \<and> sx_probe env \<and> path \<noteq> [] \<and> sx_isFile env path \<and> isl (sx_tracks env path)
       then [(''embedded'', projl (sx_tracks env path))] else [])
      @ (if scope = ScopeLocal then [] else map (\<lambda>p. (fst p, projl (snd p (query_of env wanted))))
           (filter (\<lambda>p. isl (snd p (query_of env wanted))) (sx_providers env))))"

lemma search_parts:
  assumes "sx_download env = Some d" "sx_release env (d_ReleaseID d) = Some release"
  shows "SearchSubtitles env wanted scope =
    (case (if scope = ScopeRemote then Inr [] else local_search env wanted (if sameLanguage wanted (sx_preferred env) then sx_fallback env else []) release d) of
       Inl e \<Rightarrow> Inl e
     | Inr included \<Rightarrow>
         Inr (sort_key (\<lambda>c. - sc_Score c) (included
             @ fst (if scope = ScopeRemote then ([], []) else embedded_search env wanted release d)
             @ fst (if scope = ScopeLocal then ([], []) else remote_search (sx_cached env) (query_of env wanted) (sx_providers env))),
           snd (if scope = ScopeRemote then ([], []) else embedded_search env wanted release d)
             @ snd (if scope = ScopeLocal then ([], []) else remote_search (sx_cached env) (query_of env wanted) (sx_providers env))))"
  unfolding SearchSubtitles_def assms(1,2) option.case Let_def
  by (simp only: query_of_def assms(1,2) option.sel Let_def split_def)

text \<open>
  (\<open>SearchSubtitles\<close>) A failing probe or provider hides nothing: the candidates are
  those of a search without it, best score first, and each failure is reported once.
\<close>

theorem search_failures_isolated:
  assumes "SearchSubtitles env wanted scope = Inr (items, warnings)"
  shows "SearchSubtitles (answering env (query_of env wanted)) wanted scope = Inr (items, [])
    \<and> warnings = warnings_of env wanted scope \<and> sorted (map (\<lambda>c. - sc_Score c) items)"
proof -
  obtain d release where d: "sx_download env = Some d" "sx_release env (d_ReleaseID d) = Some release"
    using assms by (auto simp: SearchSubtitles_def split: option.splits)
  let ?q = "query_of env wanted" and ?a = "answering env (query_of env wanted)"
  let ?fb = "if sameLanguage wanted (sx_preferred env) then sx_fallback env else []"
  have a: "sx_download ?a = Some d" "sx_release ?a (d_ReleaseID d) = Some release" "sx_preferred ?a = sx_preferred env"
    "sx_fallback ?a = sx_fallback env" "sx_cached ?a = sx_cached env" "query_of ?a wanted = ?q"
    by (simp_all add: answering_def d query_of_def Let_def)
  have loc: "local_search ?a wanted ?fb release d = local_search env wanted ?fb release d"
    by (simp add: local_search_def answering_def split: option.splits)
  have emb: "embedded_search ?a wanted release d = (fst (embedded_search env wanted release d), [])"
    by (auto simp: embedded_search_def answering_def d split: sum.splits)
  note r = remote_search_answering[of "sx_cached env" ?q "sx_providers env"]
  have rem: "remote_search (sx_cached env) ?q (sx_providers ?a) = (fst (remote_search (sx_cached env) ?q (sx_providers env)), [])"
    using r by (simp add: answering_def prod_eq_iff)
  have w1: "snd (embedded_search env wanted release d) = (let path = d_AbsolutePath d in
      if sx_probe env \<and> path \<noteq> [] \<and> sx_isFile env path \<and> isl (sx_tracks env path) then [(''embedded'', projl (sx_tracks env path))] else [])"
    by (auto simp: embedded_search_def Let_def split: sum.splits)
  obtain inc where inc: "(if scope = ScopeRemote then Inr [] else local_search env wanted ?fb release d) = Inr inc"
    using assms unfolding search_parts[OF d] by (cases "if scope = ScopeRemote then Inr [] else local_search env wanted ?fb release d") auto
  have env: "items = sort_key (\<lambda>c. - sc_Score c) (inc
        @ fst (if scope = ScopeRemote then ([], []) else embedded_search env wanted release d)
        @ fst (if scope = ScopeLocal then ([], []) else remote_search (sx_cached env) ?q (sx_providers env)))"
    "warnings = snd (if scope = ScopeRemote then ([], []) else embedded_search env wanted release d)
        @ snd (if scope = ScopeLocal then ([], []) else remote_search (sx_cached env) ?q (sx_providers env))"
    using assms unfolding search_parts[OF d] inc by simp_all
  have "SearchSubtitles ?a wanted scope = Inr (items, [])"
    unfolding search_parts[OF a(1,2)] a(3-6) loc emb rem inc env by (cases scope) simp_all
  moreover have "warnings = warnings_of env wanted scope"
    unfolding env(2) by (cases scope) (simp_all add: w1 r warnings_of_def d Let_def)
  moreover have "sorted (map (\<lambda>c. - sc_Score c) items)" unfolding env(1) by (rule sorted_sort_key)
  ultimately show ?thesis by blast
qed

datatype provider_error = NoSuchProvider | ProviderTestFailed string

definition TestSubtitleProvider :: "(string \<times> (string + string)) list \<Rightarrow> string \<Rightarrow> provider_error + string" where
  "TestSubtitleProvider providers name = (case List.find (\<lambda>p. fst p = name) providers of
     None \<Rightarrow> Inl NoSuchProvider | Some (_, Inl e) \<Rightarrow> Inl (ProviderTestFailed e) | Some (_, Inr m) \<Rightarrow> Inr m)"

section \<open>Preparing\<close>

record subtitle_asset =
  as_ID :: string
  as_SourceID :: string
  as_Provider :: string
  as_CandidateID :: string
  as_Name :: string
  as_Language :: string
  as_URL :: string
  as_Format :: string
  as_MimeType :: string
  as_Path :: string
  as_CreatedAt :: gotime
  as_LastUsedAt :: gotime

record subtitle_source =
  ss_Data :: string
  ss_Format :: string
  ss_Name :: string
  ss_Language :: string

datatype prepare_error = PrepareRow | InvalidCandidate | PrepareRoute | PrepareFiles | PrepareStatus | NotContained | SizeOutOfRange
  | PathRefused path_error | NotReadable stream_error | ReadFailed | ProbeMissing | MediaNotReady | CacheDirFailed | ExtractFailed
  | UnknownProvider | ProviderFailed | UnpackFailed unpack_error | ConvertFailed subtitle_error | AssetWriteFailed | AssetSaveFailed

text \<open>
  \<open>px_partial\<close> is what a failed \<open>os.WriteFile\<close> leaves of its data: the file is truncated first.
  \<open>px_extract\<close> joins the extraction of a track into the temporary file and reading it.
\<close>

record prepare_env =
  px_download :: "download option"
  px_prefix :: string
  px_cwd :: "string option"
  px_root :: string
  px_files :: "string \<Rightarrow> torrent_file list option"
  px_status :: "string \<Rightarrow> download_status option"
  px_stat :: "string \<Rightarrow> file_info option"
  px_answers :: engine_answers
  px_read :: "string \<Rightarrow> string option"
  px_probe :: bool
  px_exists :: "string \<Rightarrow> bool"
  px_tracks :: "subtitle_track list option"
  px_mkdirOk :: bool
  px_tmp :: "string option"
  px_extract :: "int \<Rightarrow> string option"
  px_providers :: "(string \<times> (string \<Rightarrow> subtitle_source option)) list"
  px_unzip :: "string \<Rightarrow> zip_entry list option"
  px_hash :: "string \<Rightarrow> string"
  px_cache :: string
  px_cacheMax :: int64
  px_order :: "cached_file list \<Rightarrow> cached_file list"
  px_rm :: "string \<Rightarrow> bool"
  px_writeOk :: bool
  px_partial :: "string \<Rightarrow> string"
  px_saveOk :: bool
  px_now :: gotime

type_synonym asset_key = "string \<times> string \<times> string \<times> string"

record subtitle_world =
  su_files :: "cached_file list"
  su_assets :: "asset_key \<rightharpoonup> subtitle_asset"

definition read_file :: "string \<Rightarrow> cached_file list \<Rightarrow> string option" where
  "read_file p fs = map_option cf_data (List.find (\<lambda>f. cf_path f = p) fs)"

definition write_file :: "prepare_env \<Rightarrow> string \<Rightarrow> string \<Rightarrow> cached_file list \<Rightarrow> cached_file list" where
  "write_file env p data fs = \<lparr>cf_path = p, cf_data = (if px_writeOk env then data else px_partial env data), cf_mod = px_now env\<rparr>
     # filter (\<lambda>f. cf_path f \<noteq> p) fs"

definition contained_source :: "prepare_env \<Rightarrow> download \<Rightarrow> string \<Rightarrow> prepare_error + subtitle_source" where
  "contained_source env d candidate =
     (case parse_int64 candidate of None \<Rightarrow> Inl InvalidCandidate | Some index \<Rightarrow>
      case cut_prefix (d_EngineID d) (px_prefix env) of None \<Rightarrow> Inl PrepareRoute | Some h \<Rightarrow>
      case px_files env h of None \<Rightarrow> Inl PrepareFiles | Some files \<Rightarrow>
      case px_status env h of None \<Rightarrow> Inl PrepareStatus | Some status \<Rightarrow>
      case List.find (\<lambda>f. tf_Index f = index \<and> subtitle (tf_Path f)) files of None \<Rightarrow> Inl NotContained | Some f \<Rightarrow>
      if tf_SizeBytes f \<le> 0 \<or> tf_SizeBytes f > maxSubtitleSourceBytes then Inl SizeOutOfRange
      else case safeQBContentPath (px_cwd env) (px_root env) status (tf_Path f) of Inl e \<Rightarrow> Inl (PathRefused e) | Inr path \<Rightarrow>
        let sub = d\<lparr>d_FilePath := tf_Path f, d_AbsolutePath := path, d_FileOffset := tf_Offset f, d_SizeBytes := tf_SizeBytes f\<rparr> in
        case ReadableRangePath (px_prefix env) (px_cwd env) (px_root env) (px_stat env) (px_answers env) sub 0 (tf_SizeBytes f) of
          Inl e \<Rightarrow> Inl (NotReadable e)
        | Inr readable \<Rightarrow> (case px_read env readable of None \<Rightarrow> Inl ReadFailed
            | Some data \<Rightarrow> Inr \<lparr>ss_Data = data, ss_Format = path_ext readable, ss_Name = path_base readable,
                ss_Language = subtitleLanguage (tf_Path f)\<rparr>))"

definition embedded_source :: "prepare_env \<Rightarrow> download \<Rightarrow> string \<Rightarrow> prepare_error + subtitle_source" where
  "embedded_source env d candidate =
     (if \<not> px_probe env then Inl ProbeMissing
      else case parse_int64 candidate of None \<Rightarrow> Inl InvalidCandidate | Some index \<Rightarrow>
        if index < 0 then Inl InvalidCandidate
        else if \<not> px_exists env (d_AbsolutePath d) then Inl MediaNotReady
        else let lang = (case px_tracks env of None \<Rightarrow> []
               | Some ts \<Rightarrow> (case List.find (\<lambda>t. tr_Index t = index) ts of None \<Rightarrow> [] | Some t \<Rightarrow> NormalizeLanguage (tr_Language t))) in
          if \<not> px_mkdirOk env \<or> px_tmp env = None then Inl CacheDirFailed
          else (case px_extract env index of None \<Rightarrow> Inl ExtractFailed
             | Some data \<Rightarrow> Inr \<lparr>ss_Data = data, ss_Format = ''.vtt'', ss_Name = ''Embedded subtitle '' @ candidate @ ''.vtt'', ss_Language = lang\<rparr>))"

definition provider_source :: "prepare_env \<Rightarrow> string \<Rightarrow> string \<Rightarrow> prepare_error + subtitle_source" where
  "provider_source env provider candidate =
     (case List.find (\<lambda>p. fst p = provider) (px_providers env) of None \<Rightarrow> Inl UnknownProvider | Some (_, get) \<Rightarrow>
      case get candidate of None \<Rightarrow> Inl ProviderFailed
      | Some s \<Rightarrow> Inr (s\<lparr>ss_Language := NormalizeLanguage (ss_Language s)\<rparr>))"

definition subtitle_source_of :: "prepare_env \<Rightarrow> download \<Rightarrow> string \<Rightarrow> string \<Rightarrow> prepare_error + subtitle_source" where
  "subtitle_source_of env d provider candidate =
     (if provider = ''contained'' then contained_source env d candidate
      else if provider = ''embedded'' then embedded_source env d candidate
      else provider_source env provider candidate)"

text \<open>
  The temporary file of an extracted track is removed when the call returns, so it is among
  the entries while the cache is pruned.
\<close>

definition prune_with_tmp :: "prepare_env \<Rightarrow> string \<Rightarrow> string \<Rightarrow> string \<Rightarrow> cached_file list \<Rightarrow> cached_file list" where
  "prune_with_tmp env provider data keep files =
     (let prune = pruneSubtitleCache (px_order env) (px_rm env) (px_cache env) (px_cacheMax env) keep in
      case (if provider = ''embedded'' then px_tmp env else None) of
        None \<Rightarrow> prune files
      | Some tmp \<Rightarrow> filter (\<lambda>f. cf_path f \<noteq> tmp) (prune (\<lparr>cf_path = tmp, cf_data = data, cf_mod = px_now env\<rparr> # files)))"

definition asset_ext :: "string \<Rightarrow> string" where "asset_ext target = (if target = ''vtt'' then ''.vtt'' else ''.smi'')"

definition asset_id :: "prepare_env \<Rightarrow> string \<Rightarrow> string \<Rightarrow> string \<Rightarrow> string \<Rightarrow> string \<Rightarrow> string" where
  "asset_id env downloadID provider candidate target converted =
     px_hash env (join_with [CHR 0x00] [downloadID, provider, candidate, target, converted])"

definition new_asset :: "prepare_env \<Rightarrow> asset_key \<Rightarrow> string \<Rightarrow> subtitle_source \<Rightarrow> subtitle_asset" where
  "new_asset env key ident s = (case key of (downloadID, provider, candidate, target) \<Rightarrow>
     \<lparr>as_ID = ident, as_SourceID = downloadID, as_Provider = provider, as_CandidateID = candidate, as_Name = ss_Name s,
      as_Language = ss_Language s, as_URL = ''/api/v1/subtitles/'' @ ident @ asset_ext target, as_Format = target,
      as_MimeType = (if target = ''vtt'' then ''text/vtt; charset=utf-8'' else ''application/x-sami; charset=utf-8''),
      as_Path = path_join [px_cache env, ident @ asset_ext target], as_CreatedAt = px_now env, as_LastUsedAt = px_now env\<rparr>)"

definition store_subtitle :: "prepare_env \<Rightarrow> asset_key \<Rightarrow> subtitle_source \<Rightarrow> string \<Rightarrow> subtitle_world
    \<Rightarrow> (prepare_error + subtitle_asset) \<times> subtitle_world" where
  "store_subtitle env key s converted w = (case key of (downloadID, provider, candidate, target) \<Rightarrow>
     let asset = new_asset env key (asset_id env downloadID provider candidate target converted) s;
         written = write_file env (as_Path asset) converted (su_files w);
         w2 = w\<lparr>su_files := prune_with_tmp env provider (ss_Data s) (as_Path asset) written\<rparr> in
     if \<not> px_mkdirOk env then (Inl CacheDirFailed, w)
     else if \<not> px_writeOk env then (Inl AssetWriteFailed, w\<lparr>su_files := written\<rparr>)
     else if \<not> px_saveOk env then (Inl AssetSaveFailed, w2)
     else (Inr asset, w2\<lparr>su_assets := (su_assets w2)(key \<mapsto> asset)\<rparr>))"

definition restampWebVTTCuePositioning :: "prepare_env \<Rightarrow> string \<Rightarrow> subtitle_world \<Rightarrow> subtitle_world" where
  "restampWebVTTCuePositioning env p w = (case read_file p (su_files w) of
     None \<Rightarrow> w
   | Some data \<Rightarrow> (let stamped = positionCueLines data in
       if stamped = data then w else w\<lparr>su_files := write_file env p stamped (su_files w)\<rparr>))"

definition target_of :: "string option \<Rightarrow> string" where
  "target_of requested = (case requested of None \<Rightarrow> ''sami'' | Some r \<Rightarrow> if to_lower r = ''vtt'' then ''vtt'' else ''sami'')"

definition serve_cached :: "prepare_env \<Rightarrow> asset_key \<Rightarrow> subtitle_asset \<Rightarrow> subtitle_world \<Rightarrow> subtitle_asset \<times> subtitle_world" where
  "serve_cached env key cached w =
     (let w1 = (if snd (snd (snd key)) = ''vtt'' then restampWebVTTCuePositioning env (as_Path cached) w else w);
          used = cached\<lparr>as_LastUsedAt := px_now env\<rparr> in
      (used, if px_saveOk env then w1\<lparr>su_assets := (su_assets w1)(key \<mapsto> used)\<rparr> else w1))"

definition convert_subtitle :: "prepare_env \<Rightarrow> download \<Rightarrow> string \<Rightarrow> subtitle_source \<Rightarrow> prepare_error + string" where
  "convert_subtitle env d target s =
     (case unpackSubtitle (px_unzip env) (ss_Data s) (ss_Format s) (ss_Name s) (d_FilePath d) of
        Inl e \<Rightarrow> Inl (UnpackFailed e)
      | Inr (data, fmt) \<Rightarrow> (case (if target = ''vtt'' then toWebVTT data fmt else toSAMI data fmt) of
          Inl e \<Rightarrow> Inl (ConvertFailed e) | Inr c \<Rightarrow> Inr c))"

definition PrepareSubtitle :: "prepare_env \<Rightarrow> string \<Rightarrow> string \<Rightarrow> string \<Rightarrow> string option \<Rightarrow> subtitle_world
    \<Rightarrow> (prepare_error + subtitle_asset) \<times> subtitle_world" where
  "PrepareSubtitle env downloadID provider candidate requested w =
     (let target = target_of requested; key = (downloadID, provider, candidate, target) in
      case px_download env of None \<Rightarrow> (Inl PrepareRow, w) | Some d \<Rightarrow>
      case (case su_assets w key of None \<Rightarrow> None
          | Some cached \<Rightarrow> if read_file (as_Path cached) (su_files w) = None then None else Some cached) of
        Some cached \<Rightarrow> (let (used, w1) = serve_cached env key cached w in (Inr used, w1))
      | None \<Rightarrow>
          (case subtitle_source_of env d provider candidate of Inl e \<Rightarrow> (Inl e, w) | Inr s \<Rightarrow>
           case convert_subtitle env d target s of Inl e \<Rightarrow> (Inl e, w)
           | Inr converted \<Rightarrow> store_subtitle env key s converted w))"

definition hex_digit :: "char \<Rightarrow> bool" where "hex_digit c \<longleftrightarrow> c \<in> set ''0123456789abcdef''"

definition SubtitlePath :: "string \<Rightarrow> (string \<Rightarrow> bool) \<Rightarrow> string \<Rightarrow> string option \<Rightarrow> string option" where
  "SubtitlePath cache exists assetID requested =
     (if \<not> (length assetID = 32 \<and> list_all hex_digit assetID) then None
      else let p = path_join [cache, assetID @ (if requested = Some ''vtt'' then ''.vtt'' else ''.smi'')] in
        if exists p then Some p else None)"

section \<open>What a prepared subtitle is\<close>

lemma find_filter: "(\<And>y. P y \<Longrightarrow> Q y) \<Longrightarrow> List.find P (filter Q xs) = List.find P xs"
  by (induction xs) auto

lemma prune_keeps: "f \<in> set (prune_loop rm maximum keep used fs) \<Longrightarrow> cf_path f \<noteq> keep"
  by (induction rm maximum keep used fs rule: prune_loop.induct) (auto split: if_splits)

lemma read_pruned: "read_file keep (pruneSubtitleCache order rm dir maximum keep files) = read_file keep files"
proof -
  have "keep \<notin> set (map cf_path (pruned_files order rm dir maximum keep files))"
    by (auto simp: pruned_files_def Let_def dest: prune_keeps)
  then show ?thesis
    unfolding read_file_def pruneSubtitleCache_def Let_def by (subst find_filter) auto
qed

lemma read_written: "read_file p (write_file env p data fs) = Some (if px_writeOk env then data else px_partial env data)"
  by (simp add: read_file_def write_file_def)

lemma read_prune_with_tmp:
  assumes "\<And>tmp. px_tmp env = Some tmp \<Longrightarrow> tmp \<noteq> keep"
  shows "read_file keep (prune_with_tmp env provider data keep files) = read_file keep files"
proof (cases "if provider = ''embedded'' then px_tmp env else None")
  case None
  then show ?thesis by (simp add: prune_with_tmp_def Let_def read_pruned)
next
  case (Some tmp)
  then have ne: "tmp \<noteq> keep" using assms by (auto split: if_splits)
  have "read_file keep (filter (\<lambda>f. cf_path f \<noteq> tmp) fs) = read_file keep fs" for fs
    unfolding read_file_def using ne by (subst find_filter) auto
  then show ?thesis using ne Some by (simp add: prune_with_tmp_def Let_def read_pruned) (simp add: read_file_def)
qed

lemma read_restamped:
  assumes "px_writeOk env" "read_file p (su_files w) = Some data"
  shows "\<exists>c. read_file p (su_files (restampWebVTTCuePositioning env p w)) = Some c \<and> positionCueLines c = c"
  using assms by (auto simp: restampWebVTTCuePositioning_def Let_def read_written positionCueLines_idem)


text \<open>
  (\<open>PrepareSubtitle\<close>) With a hash that has no collisions the id of an asset belongs to
  one download, provider, candidate, target and content: no two rows can ask for one id.
\<close>

theorem asset_id_scoped:
  assumes "inj (px_hash env)" "\<forall>s\<in>{a, b, c, t, a', b', c', t'}. CHR 0x00 \<notin> set s"
    "asset_id env a b c t x = asset_id env a' b' c' t' x'"
  shows "(a, b, c, t, x) = (a', b', c', t', x')"
proof -
  have "a @ CHR 0x00 # b @ CHR 0x00 # c @ CHR 0x00 # t @ CHR 0x00 # x = a' @ CHR 0x00 # b' @ CHR 0x00 # c' @ CHR 0x00 # t' @ CHR 0x00 # x'"
    using injD[OF assms(1) assms(3)[unfolded asset_id_def]] by simp
  from sep_inj[OF this] have 1: "a = a'" "b @ CHR 0x00 # c @ CHR 0x00 # t @ CHR 0x00 # x = b' @ CHR 0x00 # c' @ CHR 0x00 # t' @ CHR 0x00 # x'"
    using assms(2) by blast+
  from sep_inj[OF 1(2)] have 2: "b = b'" "c @ CHR 0x00 # t @ CHR 0x00 # x = c' @ CHR 0x00 # t' @ CHR 0x00 # x'" using assms(2) by blast+
  from sep_inj[OF 2(2)] have 3: "c = c'" "t @ CHR 0x00 # x = t' @ CHR 0x00 # x'" using assms(2) by blast+
  from sep_inj[OF 3(2)] 1(1) 2(1) 3(1) show ?thesis using assms(2) by blast
qed

section \<open>Concrete subtitles\<close>

definition sample_prepare :: "bool \<Rightarrow> string \<Rightarrow> prepare_env" where
  "sample_prepare ok body = \<lparr>px_download = Some (sample_download ''1''), px_prefix = ''native:'', px_cwd = None, px_root = ''/d'',
     px_files = (\<lambda>_. None), px_status = (\<lambda>_. None), px_stat = (\<lambda>_. None),
     px_answers = \<lparr>ea_status = Inl [], ea_prepare = None, ea_passes = [], ea_tries = []\<rparr>, px_read = (\<lambda>_. None), px_probe = False,
     px_exists = (\<lambda>_. False), px_tracks = None, px_mkdirOk = True, px_tmp = None, px_extract = (\<lambda>_. None),
     px_providers = [(''p'', \<lambda>_. Some \<lparr>ss_Data = body, ss_Format = ''.vtt'', ss_Name = ''a.vtt'', ss_Language = []\<rparr>)],
     px_unzip = (\<lambda>_. None), px_hash = (\<lambda>_. ''k''), px_cache = ''/s'', px_cacheMax = 100, px_order = (\<lambda>fs. fs), px_rm = (\<lambda>_. True),
     px_writeOk = ok, px_partial = take 2, px_saveOk = True, px_now = 0\<rparr>"

definition empty_cache :: subtitle_world where "empty_cache = \<lparr>su_files = [], su_assets = Map.empty\<rparr>"

definition prepare_sample :: "bool \<Rightarrow> subtitle_world \<Rightarrow> (prepare_error + subtitle_asset) \<times> subtitle_world" where
  "prepare_sample ok w = PrepareSubtitle (sample_prepare ok ''WEBVTT'') ''d'' ''p'' ''c'' (Some ''vtt'') w"


lemma asset_id_scoped_witness: "(''d'', ''p'', ''c'', ''vtt'', ''x'') = (''d'', ''p'', ''c'', ''vtt'', ''x'')"
  by (rule asset_id_scoped[of "(sample_prepare True [])\<lparr>px_hash := \<lambda>s. s\<rparr>"]) (auto simp: asset_id_def)

definition sample_search :: search_env where
  "sample_search = \<lparr>sx_download = Some (sample_download ''1''), sx_release = (\<lambda>_. Some (named ''Show'')), sx_preferred = [], sx_fallback = [],
     sx_prefix = ''native:'', sx_files = (\<lambda>_. Some []), sx_probe = False, sx_isFile = (\<lambda>_. False), sx_tracks = (\<lambda>_. Inr []),
     sx_providers = [(''p'', \<lambda>_. Inl ''down'')], sx_cached = (\<lambda>_ _. False)\<rparr>"

lemma search_failures_isolated_witness:
  "SearchSubtitles (answering sample_search (query_of sample_search [])) [] ScopeAll = Inr ([], [])
    \<and> [(''p'', ''down'')] = warnings_of sample_search [] ScopeAll \<and> sorted (map (\<lambda>c. - sc_Score c) ([] :: subtitle_candidate list))"
proof -
  have "SearchSubtitles sample_search [] ScopeAll = Inr ([], [(''p'', ''down'')])" by code_simp
  from search_failures_isolated[OF this] show ?thesis .
qed

text \<open>
  A file that was pruned keeps its row. When making it again fails half way, the request
  fails but leaves the beginning of the file, and the next request serves that as the asset.
\<close>

theorem partial_write_served:
  "let w1 = snd (prepare_sample True empty_cache); w2 = w1\<lparr>su_files := []\<rparr>;
       (failed, w3) = prepare_sample False w2; (served, w4) = prepare_sample True w3 in
     failed = Inl AssetWriteFailed \<and> \<not> isl served
     \<and> read_file ''/s/k.vtt'' (su_files w1) = Some ''WEBVTT'' \<and> read_file ''/s/k.vtt'' (su_files w4) = Some ''WE''"
  by code_simp

end
