(* ===== verification/Events.thy ===== *)
theory Events
  imports JobTable Strconv "HOL-Library.Multiset" "HOL-Library.Sublist"
begin

text \<open>
  The event stream: the journal of \<open>adapters/sqlite/repository.go\<close> (\<open>AppendEvent\<close>,
  \<open>ListEvents\<close>), the fan-out of \<open>application/service.go\<close> (\<open>publish\<close>, \<open>SubscribeEvents\<close>) and the
  handler \<open>events\<close> of \<open>httpapi/api.go\<close>. Publishers and connections run concurrently: an
  \<open>action\<close> is what one of them does without being interrupted, \<open>act\<close> its effect.
\<close>

section \<open>The journal\<close>

record event =
  ev_ID :: int
  ev_Kind :: string
  ev_Payload :: string
  ev_CreatedAt :: gotime

text \<open>The rows with the counter of \<open>AUTOINCREMENT\<close>, which ends at the largest integer.\<close>

record journal =
  jn_seq :: int64
  jn_rows :: "event list"

definition AppendEvent :: "gotime \<Rightarrow> string \<Rightarrow> string \<Rightarrow> journal \<Rightarrow> (event \<times> journal) option" where
  "AppendEvent now kind payload j =
     (if jn_seq j = 2 ^ 63 - 1 then None
      else let e = \<lparr>ev_ID = jn_seq j + 1, ev_Kind = kind, ev_Payload = payload, ev_CreatedAt = now\<rparr> in
        Some (e, \<lparr>jn_seq = ev_ID e, jn_rows = jn_rows j @ [e\<lparr>ev_CreatedAt := unix_trunc now\<rparr>]\<rparr>))"

definition ListEvents :: "int64 \<Rightarrow> int \<Rightarrow> journal \<Rightarrow> event list" where
  "ListEvents after limit j = (let n = (if limit < 1 \<or> limit > 500 then 100 else limit) in
     take (nat n) (sort_key ev_ID (filter (\<lambda>e. ev_ID e > after) (jn_rows j))))"

section \<open>The subscribers\<close>

record channel =
  ch_buffer :: "event list"
  ch_open :: bool

text \<open>Channels are numbered as they are made; the subscribers are those in the map.\<close>

record bus =
  bu_channels :: "channel list"
  bu_subscribers :: "nat list"

definition buffered :: nat where "buffered = 32"

text \<open>
  The loop of \<open>publish\<close> over the subscribers in the order of the map: \<open>None\<close> is the panic of a
  send on a closed channel.
\<close>

fun fan_out :: "event \<Rightarrow> nat list \<Rightarrow> bus \<Rightarrow> bus option" where
  "fan_out e [] b = Some b"
| "fan_out e (i # is) b = (let c = bu_channels b ! i in
     if \<not> ch_open c then None
     else if length (ch_buffer c) < buffered
       then fan_out e is (b\<lparr>bu_channels := (bu_channels b)[i := c\<lparr>ch_buffer := ch_buffer c @ [e]\<rparr>]\<rparr>)
     else fan_out e is (b\<lparr>bu_channels := (bu_channels b)[i := c\<lparr>ch_open := False\<rparr>],
                          bu_subscribers := remove1 i (bu_subscribers b)\<rparr>))"

definition SubscribeEvents :: "bus \<Rightarrow> nat \<times> bus" where
  "SubscribeEvents b = (let i = length (bu_channels b) in
     (i, b\<lparr>bu_channels := bu_channels b @ [\<lparr>ch_buffer = [], ch_open = True\<rparr>], bu_subscribers := bu_subscribers b @ [i]\<rparr>))"

text \<open>The function a subscription returns; closing a closed channel panics.\<close>

definition cancel :: "nat \<Rightarrow> bus \<Rightarrow> bus option" where
  "cancel i b = (if i \<notin> set (bu_subscribers b) then Some b
     else let c = bu_channels b ! i in if \<not> ch_open c then None
     else Some (b\<lparr>bu_channels := (bu_channels b)[i := c\<lparr>ch_open := False\<rparr>], bu_subscribers := remove1 i (bu_subscribers b)\<rparr>))"

section \<open>Connections\<close>

text \<open>\<open>strconv.ParseInt\<close> with the error dropped: out of range gives the bound, else zero.\<close>

definition parse_or_bound :: "string \<Rightarrow> int64" where
  "parse_or_bound s = (case parse_int64 s of Some v \<Rightarrow> v
     | None \<Rightarrow> (case s of [] \<Rightarrow> 0
         | c # cs \<Rightarrow> (let d = (if c = CHR ''-'' \<or> c = CHR ''+'' then cs else s) in
             if d = [] \<or> \<not> list_all is_digit d then 0 else if c = CHR ''-'' then - (2 ^ 63) else 2 ^ 63 - 1)))"

text \<open>From where a request replays, if it does: the query parameter and the header.\<close>

definition replay_from :: "string option \<Rightarrow> string \<Rightarrow> int64 option" where
  "replay_from query header =
     (let after = (case query of None \<Rightarrow> 0 | Some q \<Rightarrow> parse_or_bound q) in
      if header \<noteq> [] then Some (case parse_int64 header of Some n \<Rightarrow> if n > after then n else after | None \<Rightarrow> after)
      else if query = None then None else Some after)"

datatype phase = Fresh | Replayed | Live nat | Ended

text \<open>
  \<open>cn_sent\<close> is what the client has received. The last two fields are history: how much of it
  was replayed, and how many events had been fanned out when the connection subscribed.
\<close>

record connection =
  cn_after :: "int64 option"
  cn_phase :: phase
  cn_sent :: "event list"
  cn_replayed :: nat
  cn_since :: nat

text \<open>\<open>ss_inflight\<close> are events in the journal that are still to be fanned out, \<open>ss_log\<close> those that were.\<close>

record sse =
  ss_journal :: journal
  ss_bus :: bus
  ss_inflight :: "event list"
  ss_log :: "event list"
  ss_conns :: "connection list"
  ss_stopping :: bool
  ss_panic :: bool

datatype action =
    Append gotime string string
  | FanOut event "nat list"
  | Connect "string option" string
  | Replay nat bool
  | Subscribe nat
  | Receive nat
  | Leave nat bool
  | Stop

definition set_conn :: "nat \<Rightarrow> connection \<Rightarrow> sse \<Rightarrow> sse" where
  "set_conn k c s = s\<lparr>ss_conns := (ss_conns s)[k := c]\<rparr>"

text \<open>
  \<open>None\<close> when the action is not possible. \<open>Append\<close> and \<open>FanOut\<close> are the two halves of \<open>publish\<close>;
  \<open>Replay k ok\<close> to \<open>Leave k gone\<close> are the handler of connection \<open>k\<close>, which ends when its channel
  is closed and empty or its client is gone.
\<close>

fun act :: "action \<Rightarrow> sse \<Rightarrow> sse option" where
  "act (Append now kind payload) s =
     (if ss_stopping s then None
      else case AppendEvent now kind payload (ss_journal s) of None \<Rightarrow> None
        | Some (e, j) \<Rightarrow> Some (s\<lparr>ss_journal := j, ss_inflight := ss_inflight s @ [e]\<rparr>))"
| "act (FanOut e order) s =
     (if e \<notin> set (ss_inflight s) \<or> sort order \<noteq> sort (bu_subscribers (ss_bus s)) then None
      else case fan_out e order (ss_bus s) of None \<Rightarrow> Some (s\<lparr>ss_panic := True\<rparr>)
        | Some b \<Rightarrow> Some (s\<lparr>ss_bus := b, ss_inflight := remove1 e (ss_inflight s), ss_log := ss_log s @ [e]\<rparr>))"
| "act (Connect query header) s =
     Some (s\<lparr>ss_conns := ss_conns s @ [\<lparr>cn_after = replay_from query header, cn_phase = Fresh, cn_sent = [], cn_replayed = 0, cn_since = 0\<rparr>]\<rparr>)"
| "act (Replay k ok) s =
     (if k \<ge> length (ss_conns s) \<or> cn_phase (ss_conns s ! k) \<noteq> Fresh then None
      else let c = ss_conns s ! k;
               old = (case cn_after c of None \<Rightarrow> [] | Some after \<Rightarrow> if ok then ListEvents after 200 (ss_journal s) else []) in
        Some (set_conn k (c\<lparr>cn_phase := Replayed, cn_sent := old, cn_replayed := length old\<rparr>) s))"
| "act (Subscribe k) s =
     (if k \<ge> length (ss_conns s) \<or> cn_phase (ss_conns s ! k) \<noteq> Replayed then None
      else let (i, b) = SubscribeEvents (ss_bus s) in
        Some (set_conn k ((ss_conns s ! k)\<lparr>cn_phase := Live i, cn_since := length (ss_log s)\<rparr>) (s\<lparr>ss_bus := b\<rparr>)))"
| "act (Receive k) s =
     (if k \<ge> length (ss_conns s) then None
      else case cn_phase (ss_conns s ! k) of
        Live i \<Rightarrow> (case ch_buffer (bu_channels (ss_bus s) ! i) of [] \<Rightarrow> None
          | e # es \<Rightarrow> Some (set_conn k ((ss_conns s ! k)\<lparr>cn_sent := cn_sent (ss_conns s ! k) @ [e]\<rparr>)
              (s\<lparr>ss_bus := (ss_bus s)\<lparr>bu_channels := (bu_channels (ss_bus s))[i := (bu_channels (ss_bus s) ! i)\<lparr>ch_buffer := es\<rparr>]\<rparr>\<rparr>)))
      | _ \<Rightarrow> None)"
| "act (Leave k gone) s =
     (if k \<ge> length (ss_conns s) then None
      else case cn_phase (ss_conns s ! k) of
        Live i \<Rightarrow> (let c = bu_channels (ss_bus s) ! i in
          if \<not> gone \<and> (ch_open c \<or> ch_buffer c \<noteq> []) then None
          else case cancel i (ss_bus s) of None \<Rightarrow> Some (s\<lparr>ss_panic := True\<rparr>)
            | Some b \<Rightarrow> Some (set_conn k ((ss_conns s ! k)\<lparr>cn_phase := Ended\<rparr>) (s\<lparr>ss_bus := b\<rparr>)))
      | _ \<Rightarrow> None)"
| "act Stop s = Some (s\<lparr>ss_stopping := True\<rparr>)"

definition sse_start :: sse where
  "sse_start = \<lparr>ss_journal = \<lparr>jn_seq = 0, jn_rows = []\<rparr>, ss_bus = \<lparr>bu_channels = [], bu_subscribers = []\<rparr>,
     ss_inflight = [], ss_log = [], ss_conns = [], ss_stopping = False, ss_panic = False\<rparr>"

inductive sse_reach :: "sse \<Rightarrow> bool" where
  start: "sse_reach sse_start"
| step: "sse_reach s \<Longrightarrow> act a s = Some t \<Longrightarrow> sse_reach t"

fun run_actions :: "action list \<Rightarrow> sse \<Rightarrow> sse option" where
  "run_actions [] s = Some s"
| "run_actions (a # as) s = (case act a s of None \<Rightarrow> None | Some t \<Rightarrow> run_actions as t)"

lemma reach_run: "run_actions as s = Some t \<Longrightarrow> sse_reach s \<Longrightarrow> sse_reach t"
  by (induction as arbitrary: s) (auto split: option.splits intro: sse_reach.step)

section \<open>What the fan-out does\<close>

definition offered :: "event \<Rightarrow> channel \<Rightarrow> channel" where
  "offered e c = (if length (ch_buffer c) < buffered then c\<lparr>ch_buffer := ch_buffer c @ [e]\<rparr> else c\<lparr>ch_open := False\<rparr>)"

definition full :: "bus \<Rightarrow> nat \<Rightarrow> bool" where
  "full b i \<longleftrightarrow> buffered \<le> length (ch_buffer (bu_channels b ! i))"

lemma fan_out_effect:
  assumes "distinct js" "\<forall>i\<in>set js. i < length (bu_channels b) \<and> ch_open (bu_channels b ! i)" "distinct (bu_subscribers b)"
  shows "\<exists>b'. fan_out e js b = Some b' \<and> length (bu_channels b') = length (bu_channels b)
    \<and> (\<forall>j<length (bu_channels b). bu_channels b' ! j = (if j \<in> set js then offered e (bu_channels b ! j) else bu_channels b ! j))
    \<and> distinct (bu_subscribers b')
    \<and> set (bu_subscribers b') = {j \<in> set (bu_subscribers b). \<not> (j \<in> set js \<and> full b j)}"
  using assms
proof (induction "js" arbitrary: b)
  case (Cons i js)
  let ?c = "bu_channels b ! i"
  let ?b = "if length (ch_buffer ?c) < buffered then b\<lparr>bu_channels := (bu_channels b)[i := offered e ?c]\<rparr>
    else b\<lparr>bu_channels := (bu_channels b)[i := offered e ?c], bu_subscribers := remove1 i (bu_subscribers b)\<rparr>"
  have one: "fan_out e (i # js) b = fan_out e js ?b" using Cons.prems by (simp add: offered_def Let_def)
  have ne: "j \<noteq> i" if "j \<in> set js" for j using Cons.prems(1) that by auto
  have ch: "bu_channels ?b = (bu_channels b)[i := offered e ?c]" by simp
  have p: "distinct js" "\<forall>j\<in>set js. j < length (bu_channels ?b) \<and> ch_open (bu_channels ?b ! j)" "distinct (bu_subscribers ?b)"
    using Cons.prems ne by (auto simp: ch nth_list_update)
  have fl: "full ?b j = full b j" if "j \<in> set js" for j using ne[OF that] by (simp add: full_def ch)
  have subs: "set (bu_subscribers ?b) = {j \<in> set (bu_subscribers b). \<not> (j = i \<and> full b j)}"
    using Cons.prems(3) by (auto simp: full_def)
  obtain b' where b': "fan_out e js ?b = Some b'" "length (bu_channels b') = length (bu_channels ?b)"
    "\<forall>j<length (bu_channels ?b). bu_channels b' ! j = (if j \<in> set js then offered e (bu_channels ?b ! j) else bu_channels ?b ! j)"
    "distinct (bu_subscribers b')" "set (bu_subscribers b') = {j \<in> set (bu_subscribers ?b). \<not> (j \<in> set js \<and> full ?b j)}"
    using Cons.IH[OF p] by blast
  have "\<forall>j<length (bu_channels b). bu_channels b' ! j = (if j \<in> set (i # js) then offered e (bu_channels b ! j) else bu_channels b ! j)"
  proof (intro allI impI)
    fix j assume j: "j < length (bu_channels b)"
    show "bu_channels b' ! j = (if j \<in> set (i # js) then offered e (bu_channels b ! j) else bu_channels b ! j)"
    proof (cases "j = i")
      case True
      then have "j \<notin> set js" using Cons.prems(1) by simp
      then show ?thesis using b'(3) j True by (simp add: ch)
    next
      case False
      then show ?thesis using b'(3) j by (simp add: ch)
    qed
  qed
  moreover have "set (bu_subscribers b') = {j \<in> set (bu_subscribers b). \<not> (j \<in> set (i # js) \<and> full b j)}"
    unfolding b'(5) subs using fl by auto
  ultimately show ?case using b' one by (intro exI[of _ b']) (simp only: ch length_list_update)
qed simp

section \<open>The invariant\<close>

text \<open>What a connection got of the events fanned out since it subscribed.\<close>

definition received :: "connection \<Rightarrow> event list" where "received c = drop (cn_replayed c) (cn_sent c)"

definition conn_ok :: "channel list \<Rightarrow> event list \<Rightarrow> connection \<Rightarrow> bool" where
  "conn_ok chans hist c \<longleftrightarrow> cn_replayed c \<le> length (cn_sent c) \<and>
     (case cn_phase c of
        Live i \<Rightarrow> i < length chans \<and> cn_since c \<le> length hist
          \<and> (if ch_open (chans ! i) then received c @ ch_buffer (chans ! i) = drop (cn_since c) hist
             else prefix (received c @ ch_buffer (chans ! i)) (drop (cn_since c) hist))
      | Ended \<Rightarrow> prefix (received c) (drop (cn_since c) hist)
      | _ \<Rightarrow> received c = [])"

definition bus_ok :: "bus \<Rightarrow> bool" where
  "bus_ok b \<longleftrightarrow> distinct (bu_subscribers b) \<and> set (bu_subscribers b) = {i. i < length (bu_channels b) \<and> ch_open (bu_channels b ! i)}
     \<and> (\<forall>c\<in>set (bu_channels b). length (ch_buffer c) \<le> buffered)"

definition live :: "connection list \<Rightarrow> nat set" where "live cs = {i. \<exists>c\<in>set cs. cn_phase c = Live i}"

definition sse_ok :: "sse \<Rightarrow> bool" where
  "sse_ok s \<longleftrightarrow> bus_ok (ss_bus s) \<and> \<not> ss_panic s
     \<and> (\<forall>c\<in>set (ss_conns s). conn_ok (bu_channels (ss_bus s)) (ss_log s) c)
     \<and> (\<forall>j<length (ss_conns s). \<forall>k<length (ss_conns s). \<forall>i. cn_phase (ss_conns s ! j) = Live i \<longrightarrow> cn_phase (ss_conns s ! k) = Live i \<longrightarrow> j = k)
     \<and> set (bu_subscribers (ss_bus s)) \<subseteq> live (ss_conns s)"

lemma offered_open: "ch_open (offered e c) \<longleftrightarrow> ch_open c \<and> length (ch_buffer c) < buffered"
  by (simp add: offered_def)

lemma fan_out_ok:
  assumes "bus_ok b" "sort order = sort (bu_subscribers b)"
  shows "\<exists>b'. fan_out e order b = Some b' \<and> bus_ok b' \<and> length (bu_channels b') = length (bu_channels b)
    \<and> (\<forall>j<length (bu_channels b). bu_channels b' ! j = (if ch_open (bu_channels b ! j) then offered e (bu_channels b ! j) else bu_channels b ! j))
    \<and> set (bu_subscribers b') \<subseteq> set (bu_subscribers b)"
proof -
  have ms: "mset order = mset (bu_subscribers b)" using assms(2) by (metis mset_sort)
  have st: "set order = set (bu_subscribers b)" by (rule mset_eq_setD[OF ms])
  have d: "distinct order" using mset_eq_imp_distinct_iff[OF ms] assms(1) by (simp add: bus_ok_def)
  have open_iff: "j \<in> set order \<longleftrightarrow> j < length (bu_channels b) \<and> ch_open (bu_channels b ! j)" for j using assms(1) st by (auto simp: bus_ok_def)
  obtain b' where b': "fan_out e order b = Some b'" "length (bu_channels b') = length (bu_channels b)"
    "\<forall>j<length (bu_channels b). bu_channels b' ! j = (if j \<in> set order then offered e (bu_channels b ! j) else bu_channels b ! j)"
    "distinct (bu_subscribers b')" "set (bu_subscribers b') = {j \<in> set (bu_subscribers b). \<not> (j \<in> set order \<and> full b j)}"
    using fan_out_effect[OF d, of b e] open_iff assms(1) by (auto simp: bus_ok_def)
  have len: "length (ch_buffer (bu_channels b ! j)) \<le> buffered" if "j < length (bu_channels b)" for j
    using assms(1) that by (auto simp: bus_ok_def)
  have "bus_ok b'"
    unfolding bus_ok_def
  proof (intro conjI)
    show "set (bu_subscribers b') = {i. i < length (bu_channels b') \<and> ch_open (bu_channels b' ! i)}"
    proof (rule set_eqI)
      fix i
      have "i \<in> set (bu_subscribers b') \<longleftrightarrow> i < length (bu_channels b) \<and> ch_open (bu_channels b ! i) \<and> \<not> full b i"
        unfolding b'(5) st[symmetric] using open_iff[of i] by auto
      also have "\<dots> \<longleftrightarrow> i < length (bu_channels b) \<and> ch_open (bu_channels b' ! i)"
        using b'(3) open_iff[of i] offered_open[of e "bu_channels b ! i"] by (cases "i \<in> set order") (auto simp: full_def not_less)
      finally show "i \<in> set (bu_subscribers b') \<longleftrightarrow> i \<in> {i. i < length (bu_channels b') \<and> ch_open (bu_channels b' ! i)}"
        using b'(2) by simp
    qed
    show "\<forall>c\<in>set (bu_channels b'). length (ch_buffer c) \<le> buffered"
    proof
      fix c assume "c \<in> set (bu_channels b')"
      then obtain j where j: "j < length (bu_channels b)" "c = bu_channels b' ! j" using b'(2) by (auto simp: in_set_conv_nth)
      then show "length (ch_buffer c) \<le> buffered" using b'(3) len[OF j(1)] by (auto simp: offered_def)
    qed
  qed (rule b'(4))
  then show ?thesis using b' open_iff by (intro exI[of _ b']) auto
qed

lemma conn_after_fan_out:
  assumes "conn_ok chans hist c" "length chans' = length chans"
    "\<forall>j<length chans. chans' ! j = (if ch_open (chans ! j) then offered e (chans ! j) else chans ! j)"
  shows "conn_ok chans' (hist @ [e]) c"
proof (cases "cn_phase c")
  case (Live i)
  then have i: "i < length chans" "cn_since c \<le> length hist" using assms(1) by (auto simp: conn_ok_def)
  have at: "chans' ! i = (if ch_open (chans ! i) then offered e (chans ! i) else chans ! i)" using assms(3) i by blast
  let ?got = "received c @ ch_buffer (chans ! i)"
  have got: "if ch_open (chans ! i) then ?got = drop (cn_since c) hist else prefix ?got (drop (cn_since c) hist)"
    and r: "cn_replayed c \<le> length (cn_sent c)" using assms(1) Live by (simp_all add: conn_ok_def)
  have d: "drop (cn_since c) (hist @ [e]) = drop (cn_since c) hist @ [e]" using i(2) by simp
  show ?thesis
  proof (cases "ch_open (chans ! i)")
    case True
    then have g: "received c @ ch_buffer (chans ! i) @ x = drop (cn_since c) hist @ x" for x using got by (metis append.assoc)
    show ?thesis using True Live i r at g[of "[e]"] g[of "[]"] assms(2) unfolding conn_ok_def d by (simp add: offered_def)
  next
    case False
    then show ?thesis using Live i r at got assms(2) unfolding conn_ok_def d by (simp add: prefix_append)
  qed
qed (use assms(1) in \<open>auto simp: conn_ok_def prefix_def\<close>)

lemma conn_other_channel:
  "conn_ok chans hist c \<Longrightarrow> cn_phase c \<noteq> Live i \<Longrightarrow> conn_ok (chans[i := x]) hist c"
  "conn_ok chans hist c \<Longrightarrow> conn_ok (chans @ [x]) hist c"
  by (auto simp: conn_ok_def nth_list_update nth_append split: phase.splits)

lemma cancel_ok:
  assumes "bus_ok b"
  shows "\<exists>b'. cancel i b = Some b' \<and> bus_ok b' \<and> set (bu_subscribers b') = set (bu_subscribers b) - {i}
    \<and> bu_channels b' = (if i \<in> set (bu_subscribers b) then (bu_channels b)[i := (bu_channels b ! i)\<lparr>ch_open := False\<rparr>] else bu_channels b)"
proof (cases "i \<in> set (bu_subscribers b)")
  case True
  then have i: "i < length (bu_channels b)" "ch_open (bu_channels b ! i)" using assms by (auto simp: bus_ok_def)
  let ?b = "b\<lparr>bu_channels := (bu_channels b)[i := (bu_channels b ! i)\<lparr>ch_open := False\<rparr>], bu_subscribers := remove1 i (bu_subscribers b)\<rparr>"
  have "cancel i b = Some ?b" using True i by (simp add: cancel_def Let_def)
  moreover have subs: "set (bu_subscribers ?b) = set (bu_subscribers b) - {i}" using assms by (simp add: bus_ok_def)
  moreover have "bus_ok ?b"
    unfolding bus_ok_def
  proof (intro conjI)
    show "set (bu_subscribers ?b) = {j. j < length (bu_channels ?b) \<and> ch_open (bu_channels ?b ! j)}"
      unfolding subs using assms i by (auto simp: bus_ok_def nth_list_update split: if_splits)
    show "\<forall>c\<in>set (bu_channels ?b). length (ch_buffer c) \<le> buffered"
      using assms i(1) by (auto simp: bus_ok_def dest!: subsetD[OF set_update_subset_insert])
  qed (use assms in \<open>simp add: bus_ok_def\<close>)
  ultimately show ?thesis using True by (intro exI[of _ ?b]) simp
qed (use assms in \<open>auto simp: cancel_def\<close>)

lemma subscribe_ok:
  assumes "bus_ok b"
  shows "bus_ok (snd (SubscribeEvents b))"
  using assms by (auto simp: bus_ok_def SubscribeEvents_def Let_def nth_append less_Suc_eq)

lemma live_set_conn:
  "k < length cs \<Longrightarrow> live cs - {i. cn_phase (cs ! k) = Live i} \<union> {i. cn_phase c = Live i} \<subseteq> live (cs[k := c])"
proof -
  assume k: "k < length cs"
  have "i \<in> live (cs[k := c])" if el: "d \<in> set cs" "cn_phase d = Live i" "cn_phase (cs ! k) \<noteq> Live i" for i d
  proof -
    obtain j where j: "j < length cs" "d = cs ! j" using el(1) by (auto simp: in_set_conv_nth)
    then have "j \<noteq> k" using el by auto
    then have "cs[k := c] ! j = d" using j by simp
    then show ?thesis using j el(2) unfolding live_def by (metis (mono_tags, lifting) length_list_update mem_Collect_eq nth_mem)
  qed
  moreover have "c \<in> set (cs[k := c])" using k by (rule set_update_memI)
  ultimately show ?thesis by (auto simp: live_def)
qed

lemma set_conn_ok:
  assumes "\<forall>c\<in>set cs. conn_ok chans hist c" "conn_ok chans hist c"
  shows "\<forall>d\<in>set (cs[k := c]). conn_ok chans hist d"
  using assms by (auto dest!: subsetD[OF set_update_subset_insert])

lemma sse_okD:
  assumes "sse_ok s" "k < length (ss_conns s)"
  shows "conn_ok (bu_channels (ss_bus s)) (ss_log s) (ss_conns s ! k)"
    "cn_phase (ss_conns s ! k) = Live i \<Longrightarrow> j < length (ss_conns s) \<Longrightarrow> j \<noteq> k \<Longrightarrow> cn_phase (ss_conns s ! j) \<noteq> Live i"
  using assms unfolding sse_ok_def by auto

lemma received_prefix: "conn_ok chans hist c \<Longrightarrow> cn_phase c = Live i \<Longrightarrow> prefix (received c) (drop (cn_since c) hist)"
  unfolding conn_ok_def by (cases "ch_open (chans ! i)") (auto intro: prefixI dest: append_prefixD sym)

text \<open>A connection that changes its own channel, or none.\<close>

lemma conn_step_ok:
  assumes ok: "sse_ok s" and k: "k < length (ss_conns s)" and b: "bus_ok b"
    and others: "\<And>j. j < length (ss_conns s) \<Longrightarrow> j \<noteq> k \<Longrightarrow> conn_ok (bu_channels b) (ss_log s) (ss_conns s ! j)"
    and c: "conn_ok (bu_channels b) (ss_log s) c"
    and ph: "\<And>i j. cn_phase c = Live i \<Longrightarrow> j < length (ss_conns s) \<Longrightarrow> j \<noteq> k \<Longrightarrow> cn_phase (ss_conns s ! j) \<noteq> Live i"
    and subs: "\<And>i. i \<in> set (bu_subscribers b) \<Longrightarrow> cn_phase c = Live i \<or> (i \<in> live (ss_conns s) \<and> cn_phase (ss_conns s ! k) \<noteq> Live i)"
  shows "sse_ok (set_conn k c (s\<lparr>ss_bus := b\<rparr>))"
proof -
  let ?cs = "(ss_conns s)[k := c]"
  have at: "?cs ! j = (if j = k then c else ss_conns s ! j)" if j: "j < length (ss_conns s)" for j using k j by simp
  have "conn_ok (bu_channels b) (ss_log s) (?cs ! j)" if j: "j < length (ss_conns s)" for j
    using others[OF j] c at[OF j] by (cases "j = k") simp_all
  then have "\<forall>d\<in>set ?cs. conn_ok (bu_channels b) (ss_log s) d" by (auto simp: in_set_conv_nth simp del: nth_list_update_eq)
  moreover have "\<forall>j<length ?cs. \<forall>l<length ?cs. \<forall>i. cn_phase (?cs ! j) = Live i \<longrightarrow> cn_phase (?cs ! l) = Live i \<longrightarrow> j = l"
  proof (intro allI impI)
    fix j l i assume j: "j < length ?cs" "l < length ?cs" "cn_phase (?cs ! j) = Live i" "cn_phase (?cs ! l) = Live i"
    then have len: "j < length (ss_conns s)" "l < length (ss_conns s)" by simp_all
    show "j = l"
    proof (cases "j = k \<or> l = k")
      case True
      then show ?thesis using ph[OF _ len(1), of i] ph[OF _ len(2), of i] j(3,4) at[OF len(1)] at[OF len(2)] by (cases "j = k"; cases "l = k") auto
    next
      case False
      then show ?thesis using ok len j(3,4) at[OF len(1)] at[OF len(2)] unfolding sse_ok_def by auto
    qed
  qed
  moreover have "set (bu_subscribers b) \<subseteq> live ?cs"
    using subs live_set_conn[OF k, of c] by blast
  ultimately show ?thesis using ok b by (simp add: sse_ok_def set_conn_def)
qed

lemma act_ok:
  assumes ok: "sse_ok s" and a: "act a s = Some t"
  shows "sse_ok t"
proof (cases a)
  case (Append now kind payload)
  then show ?thesis using assms by (auto simp: sse_ok_def split: if_splits option.splits)
next
  case (FanOut e order)
  then have so: "sort order = sort (bu_subscribers (ss_bus s))" using a by (auto split: if_splits)
  obtain b where b: "fan_out e order (ss_bus s) = Some b" "bus_ok b" "length (bu_channels b) = length (bu_channels (ss_bus s))"
    "\<forall>j<length (bu_channels (ss_bus s)). bu_channels b ! j
       = (if ch_open (bu_channels (ss_bus s) ! j) then offered e (bu_channels (ss_bus s) ! j) else bu_channels (ss_bus s) ! j)"
    "set (bu_subscribers b) \<subseteq> set (bu_subscribers (ss_bus s))"
    using fan_out_ok[of "ss_bus s" order e] so ok[unfolded sse_ok_def] by blast
  have t: "t = s\<lparr>ss_bus := b, ss_inflight := remove1 e (ss_inflight s), ss_log := ss_log s @ [e]\<rparr>"
    using a b(1) FanOut by (auto split: if_splits)
  show ?thesis using ok b conn_after_fan_out[OF _ b(3,4)] unfolding t sse_ok_def by auto
next
  case (Connect q h)
  then have t: "t = s\<lparr>ss_conns := ss_conns s @ [\<lparr>cn_after = replay_from q h, cn_phase = Fresh, cn_sent = [], cn_replayed = 0, cn_since = 0\<rparr>]\<rparr>"
    using a by simp
  show ?thesis using ok unfolding t sse_ok_def by (auto simp: conn_ok_def received_def live_def nth_append less_Suc_eq)
next
  case (Replay k r)
  then obtain old where k: "k < length (ss_conns s)" "cn_phase (ss_conns s ! k) = Fresh"
    and t: "t = set_conn k ((ss_conns s ! k)\<lparr>cn_phase := Replayed, cn_sent := old, cn_replayed := length old\<rparr>) (s\<lparr>ss_bus := ss_bus s\<rparr>)"
    using a by (auto simp: Let_def split: if_splits)
  show ?thesis
    unfolding t
    by (rule conn_step_ok[OF ok k(1)]) (use ok k in \<open>auto simp: sse_ok_def conn_ok_def received_def dest: subsetD\<close>)
next
  case (Subscribe k)
  obtain i b where ib: "SubscribeEvents (ss_bus s) = (i, b)" by fastforce
  then have i: "i = length (bu_channels (ss_bus s))" "bu_channels b = bu_channels (ss_bus s) @ [\<lparr>ch_buffer = [], ch_open = True\<rparr>]"
    "bu_subscribers b = bu_subscribers (ss_bus s) @ [i]" by (auto simp: SubscribeEvents_def Let_def)
  have k: "k < length (ss_conns s)" "cn_phase (ss_conns s ! k) = Replayed"
    and t: "t = set_conn k ((ss_conns s ! k)\<lparr>cn_phase := Live i, cn_since := length (ss_log s)\<rparr>) (s\<lparr>ss_bus := b\<rparr>)"
    using a ib Subscribe by (auto split: if_splits)
  have b: "bus_ok b" using subscribe_ok[of "ss_bus s"] ok ib by (simp add: sse_ok_def)
  have old: "j < length (ss_conns s) \<Longrightarrow> cn_phase (ss_conns s ! j) \<noteq> Live i" for j
    using sse_okD(1)[OF ok, of j] i(1) by (auto simp: conn_ok_def)
  show ?thesis
    unfolding t
  proof (rule conn_step_ok[OF ok k(1) b])
    show "conn_ok (bu_channels b) (ss_log s) (ss_conns s ! j)" if j: "j < length (ss_conns s)" for j
      using conn_other_channel(2)[OF sse_okD(1)[OF ok j]] i(2) by simp
    show "conn_ok (bu_channels b) (ss_log s) ((ss_conns s ! k)\<lparr>cn_phase := Live i, cn_since := length (ss_log s)\<rparr>)"
      using sse_okD(1)[OF ok k(1)] k(2) i by (simp add: conn_ok_def received_def)
  qed (use old ok i(3) k(2) in \<open>auto simp: sse_ok_def\<close>)
next
  case (Receive k)
  then obtain i e es where k: "k < length (ss_conns s)" "cn_phase (ss_conns s ! k) = Live i" "ch_buffer (bu_channels (ss_bus s) ! i) = e # es"
    and t: "t = set_conn k ((ss_conns s ! k)\<lparr>cn_sent := cn_sent (ss_conns s ! k) @ [e]\<rparr>)
      (s\<lparr>ss_bus := (ss_bus s)\<lparr>bu_channels := (bu_channels (ss_bus s))[i := (bu_channels (ss_bus s) ! i)\<lparr>ch_buffer := es\<rparr>]\<rparr>\<rparr>)"
    using a by (auto split: if_splits phase.splits list.splits)
  let ?chans = "(bu_channels (ss_bus s))[i := (bu_channels (ss_bus s) ! i)\<lparr>ch_buffer := es\<rparr>]"
  have i: "i < length (bu_channels (ss_bus s))" using sse_okD(1)[OF ok k(1)] k(2) by (simp add: conn_ok_def)
  have "length (e # es) \<le> buffered" using ok nth_mem[OF i] unfolding sse_ok_def bus_ok_def k(3)[symmetric] by blast
  then have es: "length es \<le> buffered" by simp
  have b: "bus_ok ((ss_bus s)\<lparr>bu_channels := ?chans\<rparr>)"
    using ok i es by (auto simp: sse_ok_def bus_ok_def nth_list_update split: if_splits dest!: subsetD[OF set_update_subset_insert])
  show ?thesis
    unfolding t
  proof (rule conn_step_ok[OF ok k(1) b])
    show "conn_ok (bu_channels ((ss_bus s)\<lparr>bu_channels := ?chans\<rparr>)) (ss_log s) (ss_conns s ! j)" if j: "j < length (ss_conns s)" "j \<noteq> k" for j
      using conn_other_channel(1)[OF sse_okD(1)[OF ok j(1)]] sse_okD(2)[OF ok k(1,2) j] by simp
    show "conn_ok (bu_channels ((ss_bus s)\<lparr>bu_channels := ?chans\<rparr>)) (ss_log s) ((ss_conns s ! k)\<lparr>cn_sent := cn_sent (ss_conns s ! k) @ [e]\<rparr>)"
      using sse_okD(1)[OF ok k(1)] k(2,3) i by (auto simp: conn_ok_def received_def split: if_splits)
  qed (use ok k(2) sse_okD(2)[OF ok k(1)] in \<open>auto simp: sse_ok_def\<close>)
next
  case (Leave k gone)
  then obtain i where k: "k < length (ss_conns s)" "cn_phase (ss_conns s ! k) = Live i" using a by (auto split: if_splits phase.splits)
  obtain b where b: "cancel i (ss_bus s) = Some b" "bus_ok b" "set (bu_subscribers b) = set (bu_subscribers (ss_bus s)) - {i}"
    "bu_channels b = (if i \<in> set (bu_subscribers (ss_bus s)) then (bu_channels (ss_bus s))[i := (bu_channels (ss_bus s) ! i)\<lparr>ch_open := False\<rparr>] else bu_channels (ss_bus s))"
    using cancel_ok[of "ss_bus s" i] ok by (auto simp: sse_ok_def)
  have t: "t = set_conn k ((ss_conns s ! k)\<lparr>cn_phase := Ended\<rparr>) (s\<lparr>ss_bus := b\<rparr>)"
    using a b(1) k Leave by (auto simp: Let_def split: if_splits)
  show ?thesis
    unfolding t
  proof (rule conn_step_ok[OF ok k(1) b(2)])
    show "conn_ok (bu_channels b) (ss_log s) (ss_conns s ! j)" if j: "j < length (ss_conns s)" "j \<noteq> k" for j
      using conn_other_channel(1)[OF sse_okD(1)[OF ok j(1)]] sse_okD[OF ok k(1)] sse_okD(1)[OF ok j(1)] k(2) j unfolding b(4) by simp
    show "conn_ok (bu_channels b) (ss_log s) ((ss_conns s ! k)\<lparr>cn_phase := Ended\<rparr>)"
      using sse_okD(1)[OF ok k(1)] received_prefix[OF sse_okD(1)[OF ok k(1)] k(2)] k(2) by (simp add: conn_ok_def received_def)
  qed (use ok k(2) b(3) in \<open>auto simp: sse_ok_def\<close>)
next
  case Stop
  then show ?thesis using assms by (auto simp: sse_ok_def)
qed

lemma reach_ok: "sse_reach s \<Longrightarrow> sse_ok s"
proof (induction rule: sse_reach.induct)
  case start
  show ?case by (simp add: sse_ok_def bus_ok_def sse_start_def)
next
  case (step s a t)
  show ?case by (rule act_ok[OF step.IH step.hyps(2)])
qed

section \<open>Live delivery\<close>

text \<open>
  Property C35. (\<open>publish\<close>, \<open>SubscribeEvents\<close>) However publishers, subscriptions and departures
  interleave, no closed channel is sent to or closed again, at most 32 events wait in a
  channel, and every channel that is subscribed is read by exactly one live connection.
\<close>

theorem event_bus_safe:
  assumes "sse_reach s" "sort order = sort (bu_subscribers (ss_bus s))"
  shows "\<not> ss_panic s \<and> fan_out e order (ss_bus s) \<noteq> None \<and> (\<forall>i. cancel i (ss_bus s) \<noteq> None)
    \<and> (\<forall>c\<in>set (bu_channels (ss_bus s)). length (ch_buffer c) \<le> buffered)
    \<and> (\<forall>i\<in>set (bu_subscribers (ss_bus s)). \<exists>!k. k < length (ss_conns s) \<and> cn_phase (ss_conns s ! k) = Live i)"
proof -
  have ok: "sse_ok s" by (rule reach_ok[OF assms(1)])
  then have b: "bus_ok (ss_bus s)" by (simp add: sse_ok_def)
  have "\<exists>!k. k < length (ss_conns s) \<and> cn_phase (ss_conns s ! k) = Live i" if el: "i \<in> set (bu_subscribers (ss_bus s))" for i
  proof -
    have "i \<in> live (ss_conns s)" using ok el unfolding sse_ok_def by blast
    then obtain k where "k < length (ss_conns s)" "cn_phase (ss_conns s ! k) = Live i" by (auto simp: live_def in_set_conv_nth)
    then show ?thesis using ok unfolding sse_ok_def by blast
  qed
  moreover have "fan_out e order (ss_bus s) \<noteq> None" using fan_out_ok[OF b assms(2), of e] by auto
  moreover have "cancel i (ss_bus s) \<noteq> None" for i using cancel_ok[OF b, of i] by auto
  moreover have "\<not> ss_panic s" "\<forall>c\<in>set (bu_channels (ss_bus s)). length (ch_buffer c) \<le> buffered"
    using ok by (simp_all add: sse_ok_def bus_ok_def)
  ultimately show ?thesis by simp
qed

text \<open>
  Property C36. (\<open>events\<close>) From its subscription on a connection receives the events in the order they
  are fanned out, none skipped and none twice, for as long as it lives; while its channel is
  open, what it has received and what waits for it is all there was.
\<close>

theorem live_delivery_complete:
  assumes "sse_reach s" "c \<in> set (ss_conns s)" "cn_phase c \<noteq> Fresh" "cn_phase c \<noteq> Replayed"
  shows "prefix (received c) (drop (cn_since c) (ss_log s))
    \<and> (\<forall>i. cn_phase c = Live i \<longrightarrow> ch_open (bu_channels (ss_bus s) ! i)
          \<longrightarrow> received c @ ch_buffer (bu_channels (ss_bus s) ! i) = drop (cn_since c) (ss_log s))"
proof -
  have c: "conn_ok (bu_channels (ss_bus s)) (ss_log s) c" using reach_ok[OF assms(1)] assms(2) unfolding sse_ok_def by blast
  show ?thesis
  proof (cases "cn_phase c")
    case (Live i)
    then show ?thesis using c received_prefix[OF c Live] by (simp add: conn_ok_def)
  next
    case Ended
    then show ?thesis using c by (simp add: conn_ok_def)
  qed (use assms(3,4) in simp_all)
qed

section \<open>Gaps\<close>

definition titled :: "int \<Rightarrow> event" where
  "titled n = \<lparr>ev_ID = n, ev_Kind = ''k'', ev_Payload = [], ev_CreatedAt = 0\<rparr>"

text \<open>
  A client that reconnects behind event 1: event 2 is published between the replay and the
  subscription, event 3 after it.
\<close>

definition gap_run :: "action list" where
  "gap_run = [Append 0 ''k'' [], FanOut (titled 1) [], Connect None ''1'', Replay 0 True,
     Append 0 ''k'' [], FanOut (titled 2) [], Subscribe 0, Append 0 ''k'' [], FanOut (titled 3) [0], Receive 0]"

text \<open>Two publishers whose events enter the journal in one order and are fanned out in the other.\<close>

definition swap_run :: "action list" where
  "swap_run = [Connect None [], Replay 0 True, Subscribe 0, Append 0 ''k'' [], Append 0 ''k'' [],
     FanOut (titled 2) [0], Receive 0, Leave 0 True, FanOut (titled 1) [], Connect None ''2'', Replay 1 True, Subscribe 1]"

text \<open>An event that is in the journal for the replay and fanned out after the subscription.\<close>

definition double_run :: "action list" where
  "double_run = [Connect (Some ''0'') [], Append 0 ''k'' [], Replay 0 True, Subscribe 0, FanOut (titled 1) [0], Receive 0]"

text \<open>
  Property C37. (\<open>events\<close>, \<open>publish\<close>) A reconnecting client can lose events for good, and can get one
  twice: the replay ends before the subscription begins, and an event enters the journal
  before and apart from its fan-out. In the first two runs everything has been fanned out,
  but one event is behind the last id the client holds and was never sent.
\<close>

theorem reconnect_gaps:
  "(\<exists>s. run_actions gap_run sse_start = Some s \<and> sse_reach s \<and> ss_inflight s = []
      \<and> map ev_ID (jn_rows (ss_journal s)) = [1, 2, 3] \<and> map (map ev_ID \<circ> cn_sent) (ss_conns s) = [[3]])
   \<and> (\<exists>s. run_actions swap_run sse_start = Some s \<and> sse_reach s \<and> ss_inflight s = []
      \<and> map ev_ID (jn_rows (ss_journal s)) = [1, 2] \<and> map (map ev_ID \<circ> cn_sent) (ss_conns s) = [[2], []])
   \<and> (\<exists>s. run_actions double_run sse_start = Some s \<and> sse_reach s \<and> map (map ev_ID \<circ> cn_sent) (ss_conns s) = [[1, 1]])"
proof -
  have run: "\<exists>s. run_actions as sse_start = Some s \<and> sse_reach s \<and> P s" if ex: "case run_actions as sse_start of None \<Rightarrow> False | Some s \<Rightarrow> P s" for as P
    using ex reach_run[of as sse_start] sse_reach.start by (auto split: option.splits)
  have "case run_actions gap_run sse_start of None \<Rightarrow> False | Some s \<Rightarrow> ss_inflight s = []
      \<and> map ev_ID (jn_rows (ss_journal s)) = [1, 2, 3] \<and> map (map ev_ID \<circ> cn_sent) (ss_conns s) = [[3]]" by code_simp
  moreover have "case run_actions swap_run sse_start of None \<Rightarrow> False | Some s \<Rightarrow> ss_inflight s = []
      \<and> map ev_ID (jn_rows (ss_journal s)) = [1, 2] \<and> map (map ev_ID \<circ> cn_sent) (ss_conns s) = [[2], []]" by code_simp
  moreover have "case run_actions double_run sse_start of None \<Rightarrow> False | Some s \<Rightarrow> map (map ev_ID \<circ> cn_sent) (ss_conns s) = [[1, 1]]" by code_simp
  ultimately show ?thesis by (blast dest: run)
qed

lemma event_bus_safe_witness:
  "\<exists>s :: sse. bu_subscribers (ss_bus s) = [0] \<and> \<not> ss_panic s \<and> fan_out (titled 4) [0] (ss_bus s) \<noteq> None
    \<and> (\<exists>!k. k < length (ss_conns s) \<and> cn_phase (ss_conns s ! k) = Live 0)"
proof -
  have "case run_actions gap_run sse_start of None \<Rightarrow> False | Some s \<Rightarrow> bu_subscribers (ss_bus s) = [0]" by code_simp
  then obtain s where s: "run_actions gap_run sse_start = Some s" "bu_subscribers (ss_bus s) = [0]" by (auto split: option.splits)
  have "sort [0] = sort (bu_subscribers (ss_bus s))" using s(2) by simp
  from event_bus_safe[OF reach_run[OF s(1) sse_reach.start] this, of "titled 4"] s(2) show ?thesis by auto
qed

lemma live_delivery_complete_witness:
  "\<exists>(s :: sse) (c :: connection). c \<in> set (ss_conns s) \<and> cn_sent c = [titled 3] \<and> prefix (received c) (drop (cn_since c) (ss_log s))
    \<and> (\<forall>i. cn_phase c = Live i \<longrightarrow> ch_open (bu_channels (ss_bus s) ! i)
          \<longrightarrow> received c @ ch_buffer (bu_channels (ss_bus s) ! i) = drop (cn_since c) (ss_log s))"
proof -
  have "case run_actions gap_run sse_start of None \<Rightarrow> False | Some s \<Rightarrow>
      (case ss_conns s of [c] \<Rightarrow> cn_sent c = [titled 3] \<and> cn_phase c = Live 0 | _ \<Rightarrow> False)" by code_simp
  then obtain s c where s: "run_actions gap_run sse_start = Some s" "ss_conns s = [c]" "cn_sent c = [titled 3]" "cn_phase c = Live 0"
    by (auto split: option.splits list.splits)
  have "c \<in> set (ss_conns s)" using s(2) by simp
  moreover from live_delivery_complete[OF reach_run[OF s(1) sse_reach.start] this] s(4)
  have "prefix (received c) (drop (cn_since c) (ss_log s))
    \<and> (\<forall>i. cn_phase c = Live i \<longrightarrow> ch_open (bu_channels (ss_bus s) ! i)
          \<longrightarrow> received c @ ch_buffer (bu_channels (ss_bus s) ! i) = drop (cn_since c) (ss_log s))" by simp
  ultimately show ?thesis using s(3) by blast
qed

end
