(* ===== verification/Household.thy ===== *)
theory Household
  imports TitleDetail DownloadTable
begin

text \<open>
  What the household remembers: the tables \<open>playback_state\<close>, \<open>playback_preferences\<close> and \<open>favorites\<close>
  of \<open>adapters/sqlite/repository.go\<close>, and the operations of \<open>application/service.go\<close> on them.
  A table is the list of its rows; times are stored in whole seconds. Rows with one time
  are listed in the order of the table.
\<close>

section \<open>The tables\<close>

record playback_preferences =
  pp_ProfileID :: string
  pp_SourceID :: string
  pp_AudioLanguage :: string
  pp_AudioTrackIndex :: int
  pp_SubtitleLanguage :: string
  pp_SubtitleProvider :: string
  pp_SubtitleCandidateID :: string
  pp_SubtitleMode :: string
  pp_UpdatedAt :: gotime

record favorite =
  fv_ProfileID :: string
  fv_TitleID :: string
  fv_CreatedAt :: gotime

record household_tables =
  ht_playback :: "playback_state list"
  ht_preferences :: "playback_preferences list"
  ht_favorites :: "favorite list"

text \<open>An insert whose \<open>DO UPDATE\<close> clause sets every other column.\<close>

definition upsert :: "('a \<Rightarrow> 'k) \<Rightarrow> 'a \<Rightarrow> 'a list \<Rightarrow> 'a list" where
  "upsert key r rows = (if key r \<in> key ` set rows then map (\<lambda>x. if key x = key r then r else x) rows else rows @ [r])"

definition pb_key :: "playback_state \<Rightarrow> string \<times> string" where "pb_key p = (pb_ProfileID p, pb_SourceID p)"
definition pp_key :: "playback_preferences \<Rightarrow> string \<times> string" where "pp_key p = (pp_ProfileID p, pp_SourceID p)"
definition fv_key :: "favorite \<Rightarrow> string \<times> string" where "fv_key f = (fv_ProfileID f, fv_TitleID f)"

definition SavePlayback :: "playback_state \<Rightarrow> household_tables \<Rightarrow> household_tables" where
  "SavePlayback p t = t\<lparr>ht_playback := upsert pb_key (p\<lparr>pb_UpdatedAt := unix_trunc (pb_UpdatedAt p)\<rparr>) (ht_playback t)\<rparr>"

definition GetPlayback :: "string \<Rightarrow> string \<Rightarrow> household_tables \<Rightarrow> playback_state option" where
  "GetPlayback profile source t = List.find (\<lambda>p. pb_key p = (profile, source)) (ht_playback t)"

definition ListPlayback :: "string \<Rightarrow> household_tables \<Rightarrow> playback_state list" where
  "ListPlayback profile t = sort_key (\<lambda>p. - pb_UpdatedAt p) (filter (\<lambda>p. pb_ProfileID p = profile) (ht_playback t))"

definition SavePlaybackPreferences :: "playback_preferences \<Rightarrow> household_tables \<Rightarrow> household_tables" where
  "SavePlaybackPreferences p t = t\<lparr>ht_preferences := upsert pp_key (p\<lparr>pp_UpdatedAt := unix_trunc (pp_UpdatedAt p)\<rparr>) (ht_preferences t)\<rparr>"

definition GetPlaybackPreferences :: "string \<Rightarrow> string \<Rightarrow> household_tables \<Rightarrow> playback_preferences option" where
  "GetPlaybackPreferences profile source t = List.find (\<lambda>p. pp_key p = (profile, source)) (ht_preferences t)"

definition StoreFavorite :: "gotime \<Rightarrow> string \<Rightarrow> string \<Rightarrow> bool \<Rightarrow> household_tables \<Rightarrow> household_tables" where
  "StoreFavorite now profile title on t =
     (if on then (if (profile, title) \<in> fv_key ` set (ht_favorites t) then t
        else t\<lparr>ht_favorites := ht_favorites t @ [\<lparr>fv_ProfileID = profile, fv_TitleID = title, fv_CreatedAt = unix_trunc now\<rparr>]\<rparr>)
      else t\<lparr>ht_favorites := filter (\<lambda>f. fv_key f \<noteq> (profile, title)) (ht_favorites t)\<rparr>)"

definition ListFavorites :: "string \<Rightarrow> household_tables \<Rightarrow> favorite list" where
  "ListFavorites profile t = sort_key (\<lambda>f. - fv_CreatedAt f) (filter (\<lambda>f. fv_ProfileID f = profile) (ht_favorites t))"

section \<open>The operations\<close>

datatype household_error = NegativeTime | NoSuchSource | NoSuchRelease | NoSuchTitle | HouseholdQueryFailed
  | TrackBelowMinusOne | UnknownSubtitleMode | SelectionIncomplete | HouseholdSaveFailed

text \<open>Answers of the other tables and the settings; \<open>he_readOk\<close> and \<open>he_saveOk\<close> are the queries of these tables.\<close>

record household_env =
  he_download :: "string \<Rightarrow> household_error + download"
  he_release :: "string \<Rightarrow> household_error + torrent_release"
  he_sources :: "string \<Rightarrow> household_error + catalog_source list"
  he_hash :: "string \<Rightarrow> string"
  he_threshold :: int64
  he_audio :: string
  he_subtitle :: string
  he_now :: gotime
  he_readOk :: bool
  he_saveOk :: bool

type_synonym 'a household_op = "household_tables \<Rightarrow> (household_error + 'a) \<times> household_tables"

definition householdProfile :: string where "householdProfile = ''household''"

definition save_playback :: "household_env \<Rightarrow> playback_state \<Rightarrow> playback_state household_op" where
  "save_playback env p t = (if he_saveOk env then (Inr p, SavePlayback p t) else (Inl HouseholdSaveFailed, t))"

definition new_playback :: "string \<Rightarrow> playback_state" where
  "new_playback source = \<lparr>pb_ProfileID = householdProfile, pb_SourceID = source, pb_ReleaseID = [], pb_FileIndex = 0,
     pb_FilePath = [], pb_PositionMS = 0, pb_DurationMS = 0, pb_Watched = False, pb_UpdatedAt = 0\<rparr>"

definition UpdatePlayback :: "household_env \<Rightarrow> string \<Rightarrow> int64 \<Rightarrow> int64 \<Rightarrow> playback_state household_op" where
  "UpdatePlayback env source position0 duration t =
     (if position0 < 0 \<or> duration < 0 then (Inl NegativeTime, t)
      else let position = (if duration > 0 \<and> position0 > duration then duration else position0) in
      case he_download env source of Inl e \<Rightarrow> (Inl e, t) | Inr d \<Rightarrow>
      if \<not> he_readOk env then (Inl HouseholdQueryFailed, t)
      else let old = (case GetPlayback householdProfile source t of None \<Rightarrow> new_playback source | Some p \<Rightarrow> p);
               p = old\<lparr>pb_ProfileID := householdProfile, pb_SourceID := source, pb_ReleaseID := d_ReleaseID d,
                 pb_FileIndex := d_FileIndex d, pb_FilePath := d_FilePath d, pb_PositionMS := position, pb_DurationMS := duration,
                 pb_Watched := (pb_Watched old \<or> (duration > 0 \<and> i64 (position * 100) \<ge> i64 (duration * he_threshold env))),
                 pb_UpdatedAt := he_now env\<rparr> in
        save_playback env p t)"

definition SetWatched :: "household_env \<Rightarrow> string \<Rightarrow> bool \<Rightarrow> playback_state household_op" where
  "SetWatched env source seen t =
     (if \<not> he_readOk env then (Inl HouseholdQueryFailed, t)
      else case (case GetPlayback householdProfile source t of Some p \<Rightarrow> Inr p
            | None \<Rightarrow> (case he_download env source of Inl e \<Rightarrow> Inl e
                | Inr d \<Rightarrow> Inr ((new_playback source)\<lparr>pb_ReleaseID := d_ReleaseID d, pb_FileIndex := d_FileIndex d, pb_FilePath := d_FilePath d\<rparr>))) of
        Inl e \<Rightarrow> (Inl e, t)
      | Inr p \<Rightarrow> save_playback env (p\<lparr>pb_Watched := seen,
          pb_PositionMS := (if seen then (if pb_DurationMS p > 0 then pb_DurationMS p else pb_PositionMS p) else 0),
          pb_UpdatedAt := he_now env\<rparr>) t)"

definition PlaybackPreferences :: "household_env \<Rightarrow> string \<Rightarrow> household_tables \<Rightarrow> household_error + playback_preferences" where
  "PlaybackPreferences env source t =
     (if \<not> he_readOk env then Inl HouseholdQueryFailed
      else Inr (case GetPlaybackPreferences householdProfile source t of Some p \<Rightarrow> p
        | None \<Rightarrow> \<lparr>pp_ProfileID = householdProfile, pp_SourceID = source, pp_AudioLanguage = he_audio env, pp_AudioTrackIndex = - 1,
            pp_SubtitleLanguage = he_subtitle env, pp_SubtitleProvider = [], pp_SubtitleCandidateID = [],
            pp_SubtitleMode = ''auto'', pp_UpdatedAt = 0\<rparr>))"

definition clean_preferences :: "household_env \<Rightarrow> playback_preferences \<Rightarrow> playback_preferences" where
  "clean_preferences env v =
     (let low = (\<lambda>s. to_lower (trim_space s)); or_else = (\<lambda>s fallback. if s = [] then fallback else s) in
      v\<lparr>pp_AudioLanguage := or_else (low (pp_AudioLanguage v)) (he_audio env),
        pp_SubtitleLanguage := or_else (low (pp_SubtitleLanguage v)) (he_subtitle env),
        pp_SubtitleProvider := low (pp_SubtitleProvider v),
        pp_SubtitleCandidateID := trim_space (pp_SubtitleCandidateID v),
        pp_SubtitleMode := or_else (low (pp_SubtitleMode v)) ''auto''\<rparr>)"

definition UpdatePlaybackPreferences :: "household_env \<Rightarrow> string \<Rightarrow> playback_preferences \<Rightarrow> playback_preferences household_op" where
  "UpdatePlaybackPreferences env source value0 t =
     (case he_download env source of Inl e \<Rightarrow> (Inl e, t) | Inr _ \<Rightarrow>
      let v = clean_preferences env value0 in
      if pp_AudioTrackIndex v < - 1 then (Inl TrackBelowMinusOne, t)
      else if pp_SubtitleMode v \<notin> {''auto'', ''off'', ''selected''} then (Inl UnknownSubtitleMode, t)
      else if pp_SubtitleMode v = ''selected'' \<and> (pp_SubtitleProvider v = [] \<or> pp_SubtitleCandidateID v = []) then (Inl SelectionIncomplete, t)
      else let p = v\<lparr>pp_ProfileID := householdProfile, pp_SourceID := source, pp_UpdatedAt := he_now env\<rparr> in
        if he_saveOk env then (Inr p, SavePlaybackPreferences p t) else (Inl HouseholdSaveFailed, t))"

definition SetTitleFavorite :: "household_env \<Rightarrow> string \<Rightarrow> bool \<Rightarrow> unit household_op" where
  "SetTitleFavorite env titleID on t =
     (case he_sources env titleID of Inl e \<Rightarrow> (Inl e, t) | Inr sources \<Rightarrow>
      if sources = [] then (Inl NoSuchTitle, t)
      else if he_saveOk env then (Inr (), StoreFavorite (he_now env) householdProfile titleID on t) else (Inl HouseholdSaveFailed, t))"

definition SetFavorite :: "household_env \<Rightarrow> string \<Rightarrow> bool \<Rightarrow> unit household_op" where
  "SetFavorite env releaseID on t =
     (case he_release env releaseID of Inl e \<Rightarrow> (Inl e, t) | Inr release \<Rightarrow>
      if he_saveOk env
      then (Inr (), StoreFavorite (he_now env) householdProfile (CatalogTitleID (he_hash env) release (ParseRelease release)) on t)
      else (Inl HouseholdSaveFailed, t))"

section \<open>Tables by key\<close>

definition row_at :: "('a \<Rightarrow> 'k) \<Rightarrow> 'k \<Rightarrow> 'a list \<Rightarrow> 'a option" where
  "row_at key k rows = List.find (\<lambda>x. key x = k) rows"

lemma row_at_replaced:
  "row_at key k (map (\<lambda>x. if key x = key r then r else x) rows)
     = (if k = key r then (if key r \<in> key ` set rows then Some r else None) else row_at key k rows)"
  by (induction rows) (auto simp: row_at_def)

lemma row_at_appended: "row_at key k (rows @ [r]) = (case row_at key k rows of None \<Rightarrow> if key r = k then Some r else None | Some x \<Rightarrow> Some x)"
  by (induction rows) (auto simp: row_at_def)

lemma row_at_None: "row_at key k rows = None \<longleftrightarrow> k \<notin> key ` set rows"
  by (auto simp: row_at_def find_None_iff)

lemma row_at_upsert: "row_at key k (upsert key r rows) = (if k = key r then Some r else row_at key k rows)"
proof (cases "key r \<in> key ` set rows")
  case False
  then have "row_at key (key r) rows = None" by (simp only: row_at_None not_False_eq_True)
  then show ?thesis using False by (cases "row_at key k rows") (auto simp: upsert_def row_at_appended)
qed (simp add: upsert_def row_at_replaced)

lemma upsert_keys: "distinct (map key rows) \<Longrightarrow> distinct (map key (upsert key r rows))"
proof -
  assume d: "distinct (map key rows)"
  have same: "map key (map (\<lambda>x. if key x = key r then r else x) rows) = map key rows" by (induction rows) auto
  show ?thesis using d by (auto simp: upsert_def same simp del: map_map)
qed

lemma upsert_rows: "(\<And>x. x \<in> set rows \<Longrightarrow> P x) \<Longrightarrow> P r \<Longrightarrow> x \<in> set (upsert key r rows) \<Longrightarrow> P x"
  by (auto simp: upsert_def split: if_splits)

lemma GetPlayback_row: "GetPlayback profile source t = row_at pb_key (profile, source) (ht_playback t)"
  and GetPreferences_row: "GetPlaybackPreferences profile source t = row_at pp_key (profile, source) (ht_preferences t)"
  by (simp_all add: GetPlayback_def GetPlaybackPreferences_def row_at_def)

section \<open>What the tables hold\<close>

datatype household_request =
    PutPlayback string int64 int64
  | PutWatched string bool
  | PutPreferences string playback_preferences
  | PutTitleFavorite string bool
  | PutFavorite string bool

fun household_step :: "household_env \<Rightarrow> household_request \<Rightarrow> household_tables \<Rightarrow> household_tables" where
  "household_step env (PutPlayback source position duration) t = snd (UpdatePlayback env source position duration t)"
| "household_step env (PutWatched source seen) t = snd (SetWatched env source seen t)"
| "household_step env (PutPreferences source v) t = snd (UpdatePlaybackPreferences env source v t)"
| "household_step env (PutTitleFavorite titleID on) t = snd (SetTitleFavorite env titleID on t)"
| "household_step env (PutFavorite releaseID on) t = snd (SetFavorite env releaseID on t)"

definition no_household :: household_tables where
  "no_household = \<lparr>ht_playback = [], ht_preferences = [], ht_favorites = []\<rparr>"

inductive household_reach :: "household_tables \<Rightarrow> bool" where
  empty: "household_reach no_household"
| request: "household_reach t \<Longrightarrow> household_reach (household_step env req t)"

definition playback_ok :: "playback_state \<Rightarrow> bool" where
  "playback_ok p \<longleftrightarrow> pb_ProfileID p = householdProfile \<and> 0 \<le> pb_PositionMS p \<and> 0 \<le> pb_DurationMS p
     \<and> (0 < pb_DurationMS p \<longrightarrow> pb_PositionMS p \<le> pb_DurationMS p)"

definition preferences_ok :: "playback_preferences \<Rightarrow> bool" where
  "preferences_ok p \<longleftrightarrow> pp_ProfileID p = householdProfile \<and> - 1 \<le> pp_AudioTrackIndex p \<and> pp_SubtitleMode p \<in> {''auto'', ''off'', ''selected''}
     \<and> (pp_SubtitleMode p = ''selected'' \<longrightarrow> pp_SubtitleProvider p \<noteq> [] \<and> pp_SubtitleCandidateID p \<noteq> [])"

definition household_ok :: "household_tables \<Rightarrow> bool" where
  "household_ok t \<longleftrightarrow> distinct (map pb_key (ht_playback t)) \<and> distinct (map pp_key (ht_preferences t)) \<and> distinct (map fv_key (ht_favorites t))
     \<and> (\<forall>p\<in>set (ht_playback t). playback_ok p) \<and> (\<forall>p\<in>set (ht_preferences t). preferences_ok p)
     \<and> (\<forall>f\<in>set (ht_favorites t). fv_ProfileID f = householdProfile)"

lemma save_playback_ok: "household_ok t \<Longrightarrow> playback_ok p \<Longrightarrow> household_ok (snd (save_playback env p t))"
  by (auto simp: save_playback_def SavePlayback_def household_ok_def upsert_keys playback_ok_def dest: upsert_rows[where P=playback_ok, rotated 2])

lemma store_favorite_ok: "household_ok t \<Longrightarrow> household_ok (StoreFavorite now householdProfile tid on t)"
  by (auto simp: StoreFavorite_def household_ok_def fv_key_def distinct_map_filter)

lemma GetPlayback_ok: "household_ok t \<Longrightarrow> GetPlayback profile source t = Some p \<Longrightarrow> playback_ok p"
  by (auto simp: household_ok_def GetPlayback_def find_Some_iff)

lemma new_playback_ok: "playback_ok (new_playback source)"
  by (simp add: playback_ok_def new_playback_def)

lemma UpdatePlayback_ok: "household_ok t \<Longrightarrow> household_ok (snd (UpdatePlayback env source position duration t))"
  by (auto simp: UpdatePlayback_def Let_def intro!: save_playback_ok split: sum.splits option.splits) (auto simp: playback_ok_def)

lemma SetWatched_ok: "household_ok t \<Longrightarrow> household_ok (snd (SetWatched env source seen t))"
  using GetPlayback_ok[of t householdProfile source]
  by (auto simp: SetWatched_def intro!: save_playback_ok split: sum.splits option.splits) (auto simp: playback_ok_def new_playback_def)

lemma UpdatePlaybackPreferences_ok: "household_ok t \<Longrightarrow> household_ok (snd (UpdatePlaybackPreferences env source v t))"
  by (auto simp: UpdatePlaybackPreferences_def SavePlaybackPreferences_def Let_def household_ok_def upsert_keys split: sum.splits
      dest!: upsert_rows[where P=preferences_ok, rotated 2]) (auto simp: preferences_ok_def)

lemma favorites_ok: "household_ok t \<Longrightarrow> household_ok (snd (SetTitleFavorite env tid on t))"
  "household_ok t \<Longrightarrow> household_ok (snd (SetFavorite env rid on t))"
  by (auto simp: SetTitleFavorite_def SetFavorite_def store_favorite_ok split: sum.splits)

text \<open>
  Property C38. (\<open>UpdatePlayback\<close>, \<open>SetWatched\<close>, \<open>UpdatePlaybackPreferences\<close>, \<open>SetFavorite\<close>) Whatever
  requests arrive, every table has one row per key and only rows of the household; a position
  is never negative and never behind a known duration, and a stored subtitle selection
  names its provider and candidate.
\<close>

theorem household_tables_ok:
  assumes "household_reach t"
  shows "household_ok t"
  using assms
proof induction
  case empty
  show ?case by (simp add: household_ok_def no_household_def)
next
  case (request t env req)
  then show ?case
    by (cases req) (simp_all add: UpdatePlayback_ok SetWatched_ok UpdatePlaybackPreferences_ok favorites_ok)
qed

section \<open>What a request changes\<close>

text \<open>
  Property C39. (\<open>UpdatePlayback\<close>) A saved position is read back, in whole seconds of its time and
  clamped to the duration, for this source only. A source is watched once it was, or when
  the position reaches the configured share of a known duration; no later position takes
  that back.
\<close>

theorem playback_saved:
  assumes "UpdatePlayback env source position duration t = (Inr p, t')"
    "position < 2 ^ 63 div 100" "duration < 2 ^ 63 div 100" "0 \<le> he_threshold env" "he_threshold env \<le> 100"
  shows "GetPlayback householdProfile source t' = Some (p\<lparr>pb_UpdatedAt := unix_trunc (he_now env)\<rparr>)
    \<and> (\<forall>profile other. (profile, other) \<noteq> (householdProfile, source) \<longrightarrow> GetPlayback profile other t' = GetPlayback profile other t)
    \<and> pb_PositionMS p = (if 0 < duration then min position duration else position) \<and> pb_DurationMS p = duration
    \<and> (pb_Watched p \<longleftrightarrow> (\<exists>q. GetPlayback householdProfile source t = Some q \<and> pb_Watched q)
         \<or> 0 < duration \<and> duration * he_threshold env \<le> min position duration * 100)"
proof -
  let ?pos = "if duration > 0 \<and> position > duration then duration else position"
  obtain d where d: "he_download env source = Inr d" "0 \<le> position" "0 \<le> duration" "he_readOk env"
    using assms(1) by (auto simp: UpdatePlayback_def Let_def split: if_splits sum.splits)
  let ?old = "case GetPlayback householdProfile source t of None \<Rightarrow> new_playback source | Some p \<Rightarrow> p"
  have p: "p = ?old\<lparr>pb_ProfileID := householdProfile, pb_SourceID := source, pb_ReleaseID := d_ReleaseID d,
      pb_FileIndex := d_FileIndex d, pb_FilePath := d_FilePath d, pb_PositionMS := ?pos, pb_DurationMS := duration,
      pb_Watched := (pb_Watched ?old \<or> (duration > 0 \<and> i64 (?pos * 100) \<ge> i64 (duration * he_threshold env))), pb_UpdatedAt := he_now env\<rparr>"
    and t': "t' = SavePlayback p t"
    using assms(1) d by (auto simp: UpdatePlayback_def Let_def save_playback_def split: if_splits)
  have "?pos * 100 < 2 ^ 63" using assms(2,3) by (auto simp: div_add_self1)
  moreover have "duration * he_threshold env \<le> duration * 100" using d(3) assms(5) by (rule mult_left_mono[rotated])
  moreover have "duration * 100 < 2 ^ 63" using assms(3) by simp
  ultimately have i: "i64 (?pos * 100) = ?pos * 100" "i64 (duration * he_threshold env) = duration * he_threshold env"
    using d(2,3) assms(4) by (auto intro!: i64_small)
  have key: "pb_key (p\<lparr>pb_UpdatedAt := unix_trunc (he_now env)\<rparr>) = (householdProfile, source)" "pb_UpdatedAt p = he_now env" by (simp_all add: p pb_key_def)
  have get: "GetPlayback profile other t' = (if (profile, other) = (householdProfile, source) then Some (p\<lparr>pb_UpdatedAt := unix_trunc (he_now env)\<rparr>)
      else GetPlayback profile other t)" for profile other
    using key by (simp add: GetPlayback_row t' SavePlayback_def row_at_upsert)
  have m: "?pos = min position duration" if "0 < duration" using that by auto
  have "pb_Watched p \<longleftrightarrow> pb_Watched ?old \<or> (duration > 0 \<and> ?pos * 100 \<ge> duration * he_threshold env)"
    unfolding p by (simp add: i)
  moreover have "pb_Watched ?old \<longleftrightarrow> (\<exists>q. GetPlayback householdProfile source t = Some q \<and> pb_Watched q)"
    by (cases "GetPlayback householdProfile source t") (simp_all add: new_playback_def)
  moreover have "pb_PositionMS p = ?pos" "pb_DurationMS p = duration" unfolding p by simp_all
  ultimately show ?thesis using get m by auto
qed

text \<open>
  (\<open>UpdatePlaybackPreferences\<close>, \<open>PlaybackPreferences\<close>) Preferences that are accepted are
  what the next request for them returns, with the time in whole seconds.
\<close>

theorem preferences_read_back:
  assumes "UpdatePlaybackPreferences env source v t = (Inr p, t')" "he_readOk env'"
  shows "PlaybackPreferences env' source t' = Inr (p\<lparr>pp_UpdatedAt := unix_trunc (he_now env)\<rparr>)"
proof -
  have p: "pp_key p = (householdProfile, source)" "pp_UpdatedAt p = he_now env" "t' = SavePlaybackPreferences p t"
    using assms(1) by (auto simp: UpdatePlaybackPreferences_def Let_def pp_key_def split: sum.splits if_splits)
  then have "GetPlaybackPreferences householdProfile source t' = Some (p\<lparr>pp_UpdatedAt := unix_trunc (he_now env)\<rparr>)"
    by (simp add: GetPreferences_row SavePlaybackPreferences_def row_at_upsert pp_key_def)
  then show ?thesis using assms(2) by (simp add: PlaybackPreferences_def)
qed

section \<open>Concrete requests\<close>

definition watched_file :: download where
  "watched_file = (sample_download ''s'' 0)\<lparr>d_ReleaseID := ''1'', d_FilePath := ''a.mkv'', d_FileIndex := 0\<rparr>"

definition sample_household :: household_env where
  "sample_household = \<lparr>he_download = (\<lambda>_. Inr watched_file), he_release = (\<lambda>_. Inl NoSuchRelease), he_sources = (\<lambda>_. Inr []),
     he_hash = (\<lambda>s. s), he_threshold = 90, he_audio = ''en'', he_subtitle = ''ro'', he_now = 1500000000, he_readOk = True, he_saveOk = True\<rparr>"

definition watched_row :: playback_state where
  "watched_row = \<lparr>pb_ProfileID = ''household'', pb_SourceID = ''s'', pb_ReleaseID = ''1'', pb_FileIndex = 0, pb_FilePath = ''a.mkv'',
     pb_PositionMS = 1000, pb_DurationMS = 1000, pb_Watched = True, pb_UpdatedAt = 1500000000\<rparr>"

lemma household_tables_ok_witness: "household_ok (household_step sample_household (PutPlayback ''s'' 1200 1000) no_household)"
  by (rule household_tables_ok[OF household_reach.request[OF household_reach.empty]])

lemma playback_saved_witness:
  "GetPlayback householdProfile ''s'' (SavePlayback watched_row no_household) = Some (watched_row\<lparr>pb_UpdatedAt := unix_trunc (he_now sample_household)\<rparr>)
    \<and> GetPlayback householdProfile ''t'' (SavePlayback watched_row no_household) = GetPlayback householdProfile ''t'' no_household
    \<and> pb_PositionMS watched_row = 1000 \<and> pb_Watched watched_row"
proof -
  have "UpdatePlayback sample_household ''s'' 1200 1000 no_household = (Inr watched_row, SavePlayback watched_row no_household)" by code_simp
  from playback_saved[OF this] show ?thesis by (simp add: sample_household_def)
qed

definition chosen_preferences :: playback_preferences where
  "chosen_preferences = \<lparr>pp_ProfileID = ''household'', pp_SourceID = ''s'', pp_AudioLanguage = ''en'', pp_AudioTrackIndex = 1,
     pp_SubtitleLanguage = ''ro'', pp_SubtitleProvider = ''p'', pp_SubtitleCandidateID = ''7'', pp_SubtitleMode = ''selected'', pp_UpdatedAt = 1500000000\<rparr>"

lemma preferences_read_back_witness:
  "PlaybackPreferences sample_household ''s'' (SavePlaybackPreferences chosen_preferences no_household)
     = Inr (chosen_preferences\<lparr>pp_UpdatedAt := unix_trunc (he_now sample_household)\<rparr>)"
proof (rule preferences_read_back)
  show "UpdatePlaybackPreferences sample_household ''s'' (chosen_preferences\<lparr>pp_SubtitleProvider := '' P '', pp_AudioLanguage := []\<rparr>) no_household
      = (Inr chosen_preferences, SavePlaybackPreferences chosen_preferences no_household)" by code_simp
qed (simp add: sample_household_def)

end
