(* ===== verification/Library.thy ===== *)
theory Library
  imports Household "HOL-Library.Multiset"
begin

text \<open>
  The library views of the household, \<open>HouseholdState\<close> of \<open>application/service.go\<close> and \<open>library\<close> of
  \<open>httpapi/api.go\<close>: what was played recently, what is watched, what can be continued and
  the favorites, each with its title; and the view by category. Go iterates over maps in
  any order; where only the database sees the order, the model takes the order of the rows.
\<close>

section \<open>Items\<close>

record household_item =
  hi_Release :: torrent_release
  hi_Catalog :: "catalog_title option"
  hi_Playback :: playback_state
  hi_Favorite :: bool
  hi_TitleID :: string
  hi_SeasonNumber :: int
  hi_EpisodeNumber :: int

record household_state =
  hs_Favorites :: "household_item list"
  hs_ContinueWatching :: "household_item list"
  hs_Recent :: "household_item list"
  hs_Watched :: "household_item list"

text \<open>The catalog answers of \<open>catalog_env\<close> with the releases, the titles of releases and the favorites.\<close>

record library_env =
  lb_catalog :: catalog_env
  lb_release :: "string \<Rightarrow> torrent_release option"
  lb_titles :: "string list \<Rightarrow> string \<rightharpoonup> string"
  lb_favorites :: "favorite list option"

definition householdItem :: "library_env \<Rightarrow> playback_state \<Rightarrow> bool \<Rightarrow> catalog_source list \<Rightarrow> catalog_world
    \<Rightarrow> household_item option \<times> catalog_world" where
  "householdItem env p favorite sources w =
     (case lb_release env (pb_ReleaseID p) of None \<Rightarrow> (None, w) | Some release \<Rightarrow>
      let cat = lb_catalog env; parsed = ParseRelease release;
          numbers = (if pa_Kind parsed = MediaSeries \<and> pb_FilePath p \<noteq> []
            then (case episodeSource \<lparr>cs_Release = release, cs_Parsed = parsed, cs_FileIndex = None, cs_FilePath = [],
                      cs_FileSizeBytes = 0, cs_LibraryState = zero_state\<rparr>
                    \<lparr>tf_Index = pb_FileIndex p, tf_Path = pb_FilePath p, tf_SizeBytes = 0, tf_Progress = 0, tf_Priority = 0,
                      tf_Offset = 0, tf_Playable = True\<rparr> of
                Some e \<Rightarrow> episode_key e | None \<Rightarrow> (pa_SeasonStart parsed, pa_EpisodeStart parsed))
            else (pa_SeasonStart parsed, pa_EpisodeStart parsed));
          item = \<lparr>hi_Release = release, hi_Catalog = None, hi_Playback = p, hi_Favorite = favorite,
            hi_TitleID = CatalogTitleID (cv_hash cat) release parsed, hi_SeasonNumber = fst numbers, hi_EpisodeNumber = snd numbers\<rparr> in
      if sources = [] then (Some item, w)
      else let (title, w1) = applyCachedMetadata cat (hd (groupCatalog (cv_hash cat) sources False)) w;
             shown = (case catalogState (cv_downloads cat) (cv_playback cat) of None \<Rightarrow> title
               | Some ix \<Rightarrow> title\<lparr>ct_LibraryState := sourcesState ix sources\<rparr>) in
        (Some (item\<lparr>hi_Catalog := Some shown, hi_TitleID := ct_ID shown\<rparr>), w1))"

section \<open>The lists\<close>

text \<open>The key under which a list shows one item.\<close>

definition item_key :: "household_item \<Rightarrow> string" where
  "item_key item =
     (let first = (\<lambda>s other. if s \<noteq> [] then s else other) in
      first (hi_TitleID item) (first (case hi_Catalog item of None \<Rightarrow> [] | Some c \<Rightarrow> ct_ID c)
        (first (pb_SourceID (hi_Playback item)) (rel_ID (hi_Release item)))))"

text \<open>A list with the keys it shows; \<open>shows\<close> is the condition of the list.\<close>

definition add_item :: "nat \<Rightarrow> (household_item \<Rightarrow> bool) \<Rightarrow> household_item \<Rightarrow> household_item list \<times> string list \<Rightarrow> household_item list \<times> string list" where
  "add_item limit shows item = (\<lambda>(items, seen).
     if shows item \<and> length items < limit \<and> item_key item \<notin> set seen then (items @ [item], item_key item # seen) else (items, seen))"

definition is_watched :: "household_item \<Rightarrow> bool" where "is_watched item \<longleftrightarrow> pb_Watched (hi_Playback item)"

definition is_started :: "household_item \<Rightarrow> bool" where
  "is_started item \<longleftrightarrow> \<not> pb_Watched (hi_Playback item) \<and> pb_PositionMS (hi_Playback item) > 0"

record library_lists =
  ll_recent :: "household_item list \<times> string list"
  ll_watched :: "household_item list \<times> string list"
  ll_continue :: "household_item list \<times> string list"

definition add_to_lists :: "household_item \<Rightarrow> library_lists \<Rightarrow> library_lists" where
  "add_to_lists item l = l\<lparr>ll_recent := add_item 30 (\<lambda>_. True) item (ll_recent l), ll_watched := add_item 50 is_watched item (ll_watched l),
     ll_continue := add_item 50 is_started item (ll_continue l)\<rparr>"

text \<open>The loop over the playback rows, newest first.\<close>

fun playback_loop :: "library_env \<Rightarrow> (playback_state \<Rightarrow> catalog_source list) \<Rightarrow> playback_state list \<Rightarrow> library_lists \<Rightarrow> catalog_world
    \<Rightarrow> library_lists \<times> catalog_world" where
  "playback_loop env sources [] l w = (l, w)"
| "playback_loop env sources (p # ps) l w =
     (let (item, w1) = householdItem env p False (sources p) w in
      playback_loop env sources ps (case item of None \<Rightarrow> l | Some i \<Rightarrow> add_to_lists i l) w1)"

section \<open>Favorites\<close>

definition betterHouseholdDownload :: "download \<Rightarrow> download \<Rightarrow> bool" where
  "betterHouseholdDownload candidate current =
     (if (d_Progress candidate \<ge> 1) \<noteq> (d_Progress current \<ge> 1) then d_Progress candidate \<ge> 1
      else d_UpdatedAt candidate > d_UpdatedAt current)"

definition download_by_title :: "(string \<rightharpoonup> string) \<Rightarrow> download list \<Rightarrow> string \<rightharpoonup> download" where
  "download_by_title titles downloads = fold (\<lambda>d m. case titles (d_ReleaseID d) of None \<Rightarrow> m | Some tid \<Rightarrow>
      if tid = [] then m
      else (case m tid of None \<Rightarrow> m(tid \<mapsto> d) | Some c \<Rightarrow> if betterHouseholdDownload d c then m(tid \<mapsto> d) else m)) downloads Map.empty"

definition latest_by_title :: "(string \<rightharpoonup> string) \<Rightarrow> playback_state list \<Rightarrow> string \<rightharpoonup> playback_state" where
  "latest_by_title titles ps = fold (\<lambda>p m. case titles (pb_ReleaseID p) of None \<Rightarrow> m | Some tid \<Rightarrow>
      if tid = [] \<or> m tid \<noteq> None then m else m(tid \<mapsto> p)) ps Map.empty"

definition idle_playback :: "string \<Rightarrow> string \<Rightarrow> int \<Rightarrow> string \<Rightarrow> playback_state" where
  "idle_playback source release index path = \<lparr>pb_ProfileID = householdProfile, pb_SourceID = source, pb_ReleaseID = release, pb_FileIndex = index,
     pb_FilePath = path, pb_PositionMS = 0, pb_DurationMS = 0, pb_Watched = False, pb_UpdatedAt = 0\<rparr>"

text \<open>What a favorite resumes: the last playback of its title, unless its file is gone and another one is there.\<close>

definition favorite_playback :: "(string \<rightharpoonup> string) \<Rightarrow> playback_state list \<Rightarrow> download list \<Rightarrow> string \<Rightarrow> catalog_source list \<Rightarrow> playback_state" where
  "favorite_playback titles ps downloads tid sources =
     (let latest = latest_by_title titles ps tid;
          present = (case latest of None \<Rightarrow> False | Some p \<Rightarrow> pb_SourceID p \<in> d_ID ` set downloads) in
      case (case download_by_title titles downloads tid of None \<Rightarrow> None | Some d \<Rightarrow> if present then None else Some d) of
        Some d \<Rightarrow> (case List.find (\<lambda>p. pb_SourceID p = d_ID d) (rev ps) of Some saved \<Rightarrow> saved
          | None \<Rightarrow> idle_playback (d_ID d) (d_ReleaseID d) (d_FileIndex d) (d_FilePath d))
      | None \<Rightarrow> (case latest of Some p \<Rightarrow> p | None \<Rightarrow> idle_playback [] (rel_ID (cs_Release (hd sources))) (- 1) []))"

fun favorite_loop :: "library_env \<Rightarrow> (string \<Rightarrow> catalog_source list) \<Rightarrow> (string \<Rightarrow> catalog_source list \<Rightarrow> playback_state) \<Rightarrow> favorite list
    \<Rightarrow> catalog_world \<Rightarrow> household_item list \<times> catalog_world" where
  "favorite_loop env sources chosen [] w = ([], w)"
| "favorite_loop env sources chosen (f # fs) w =
     (let xs = sources (fv_TitleID f) in
      if xs = [] then favorite_loop env sources chosen fs w
      else let (item, w1) = householdItem env (chosen (fv_TitleID f) xs) True xs w;
             (items, w2) = favorite_loop env sources chosen fs w1 in
        ((case item of None \<Rightarrow> items | Some i \<Rightarrow> i # items), w2))"

section \<open>The state of the household\<close>

definition marked :: "favorite list \<Rightarrow> household_item list \<Rightarrow> household_item list" where
  "marked favorites = map (\<lambda>i. i\<lparr>hi_Favorite := hi_TitleID i \<in> fv_TitleID ` set favorites\<rparr>)"

definition needed_releases :: "playback_state list \<Rightarrow> download list \<Rightarrow> string list" where
  "needed_releases ps ds = filter (\<lambda>r. r \<noteq> []) (map pb_ReleaseID ps @ map d_ReleaseID ds)"

definition needed_titles :: "(string \<rightharpoonup> string) \<Rightarrow> string list \<Rightarrow> favorite list \<Rightarrow> string list" where
  "needed_titles titles releases favorites = remdups (List.map_filter titles releases @ map fv_TitleID favorites)"

definition title_at :: "(string \<rightharpoonup> string) \<Rightarrow> string \<Rightarrow> string" where
  "title_at titles release = (case titles release of None \<Rightarrow> [] | Some tid \<Rightarrow> tid)"

definition household_downloads :: "library_env \<Rightarrow> download list" where
  "household_downloads env = (case cv_downloads (lb_catalog env) of None \<Rightarrow> [] | Some ds \<Rightarrow> ds)"

definition household_titles :: "library_env \<Rightarrow> playback_state list \<Rightarrow> string \<rightharpoonup> string" where
  "household_titles env ps = lb_titles env (needed_releases ps (household_downloads env))"

definition household_sources :: "library_env \<Rightarrow> playback_state list \<Rightarrow> favorite list \<Rightarrow> string \<Rightarrow> catalog_source list" where
  "household_sources env ps favorites tid = sources_of (cv_hash (lb_catalog env)) tid
     (case cv_sources (lb_catalog env) (needed_titles (household_titles env ps) (needed_releases ps (household_downloads env)) favorites) of
        None \<Rightarrow> [] | Some xs \<Rightarrow> xs)"

definition HouseholdState :: "library_env \<Rightarrow> catalog_world \<Rightarrow> (catalog_error + household_state) \<times> catalog_world" where
  "HouseholdState env w =
     (case cv_playback (lb_catalog env) of None \<Rightarrow> (Inl QueryFailed, w) | Some ps \<Rightarrow>
      case lb_favorites env of None \<Rightarrow> (Inl QueryFailed, w) | Some favorites \<Rightarrow>
      let titles = household_titles env ps; sources = household_sources env ps favorites;
          (l, w1) = playback_loop env (\<lambda>p. sources (title_at titles (pb_ReleaseID p))) ps
            \<lparr>ll_recent = ([], []), ll_watched = ([], []), ll_continue = ([], [])\<rparr> w;
          (favs, w2) = favorite_loop env sources (favorite_playback titles ps (household_downloads env)) favorites w1 in
      (Inr \<lparr>hs_Favorites = favs, hs_ContinueWatching = marked favorites (fst (ll_continue l)),
         hs_Recent = marked favorites (fst (ll_recent l)), hs_Watched = marked favorites (fst (ll_watched l))\<rparr>, w2))"

section \<open>The view by category\<close>

definition library_key :: "household_item \<Rightarrow> string" where
  "library_key item =
     (let tid = (if hi_TitleID item = [] then (case hi_Catalog item of None \<Rightarrow> [] | Some c \<Rightarrow> ct_ID c) else hi_TitleID item) in
      if tid \<noteq> [] then ''title:'' @ tid @ ''|category:'' @ to_lower (rel_Category (hi_Release item))
      else if pb_SourceID (hi_Playback item) \<noteq> [] then ''source:'' @ pb_SourceID (hi_Playback item)
      else ''release:'' @ rel_ID (hi_Release item))"

definition updated :: "household_item \<Rightarrow> gotime" where "updated item = pb_UpdatedAt (hi_Playback item)"

definition keep_newest :: "household_item \<Rightarrow> (string \<times> household_item) list \<Rightarrow> (string \<times> household_item) list" where
  "keep_newest item m = (case map_of m (library_key item) of
     None \<Rightarrow> AList.update (library_key item) item m
   | Some current \<Rightarrow> if updated item > updated current then AList.update (library_key item) item m else m)"

definition listed_items :: "household_state \<Rightarrow> household_item list" where
  "listed_items st = hs_Favorites st @ hs_ContinueWatching st @ hs_Watched st @ hs_Recent st"

definition by_source :: "household_state \<Rightarrow> (string \<times> household_item) list" where
  "by_source st = fold keep_newest (listed_items st) []"

definition items_in_category :: "string \<Rightarrow> household_state \<Rightarrow> household_item list" where
  "items_in_category selected st =
     sort_key (\<lambda>i. - updated i) (filter (\<lambda>i. equal_fold (rel_Category (hi_Release i)) selected) (map snd (by_source st)))"

definition library_categories :: "household_state \<Rightarrow> (string \<times> nat) list" where
  "library_categories st =
     (let names = filter (\<lambda>c. c \<noteq> []) (map (\<lambda>e. rel_Category (hi_Release (snd e))) (by_source st)) in
      map (\<lambda>c. (c, count_list names c)) (sort (remdups names)))"

datatype library_answer = LibraryItems "household_item list" | LibraryCategories "(string \<times> nat) list" | Dashboard household_state | UnknownSection

definition library :: "string \<Rightarrow> string \<Rightarrow> household_state \<Rightarrow> library_answer" where
  "library part category st =
     (if part = ''continue-watching'' then LibraryItems (hs_ContinueWatching st)
      else if part = ''favorites'' then LibraryItems (hs_Favorites st)
      else if part = ''watched'' then LibraryItems (hs_Watched st)
      else if part = ''recent'' then LibraryItems (hs_Recent st)
      else if part = ''dashboard'' then Dashboard st
      else if part = ''categories'' then
        (let selected = trim_space category in
         if selected \<noteq> [] then LibraryItems (items_in_category selected st) else LibraryCategories (library_categories st))
      else UnknownSection)"

section \<open>The lists against their specification\<close>

text \<open>The first item of each key, in order.\<close>

fun first_per_key :: "string set \<Rightarrow> household_item list \<Rightarrow> household_item list" where
  "first_per_key seen [] = []"
| "first_per_key seen (i # is) = (if item_key i \<in> seen then first_per_key seen is else i # first_per_key (insert (item_key i) seen) is)"

lemma add_item_list:
  "length acc \<le> n \<Longrightarrow> fst (fold (add_item n P) items (acc, seen)) = acc @ take (n - length acc) (first_per_key (set seen) (filter P items))"
proof (induction items arbitrary: acc seen)
  case (Cons i items)
  show ?case
  proof (cases "P i \<and> length acc < n \<and> item_key i \<notin> set seen")
    case True
    then have "Suc (n - Suc (length acc)) = n - length acc" by (auto simp: Suc_diff_Suc)
    then show ?thesis using True Cons.IH[of "acc @ [i]" "item_key i # seen"]
      by (simp add: add_item_def) (metis take_Suc_Cons)
  next
    case False
    then have "add_item n P i (acc, seen) = (acc, seen)" by (simp add: add_item_def)
    moreover have "take (n - length acc) (first_per_key (set seen) (filter P (i # items))) = take (n - length acc) (first_per_key (set seen) (filter P items))"
      using False Cons.prems by auto
    ultimately show ?thesis using Cons.IH[OF Cons.prems] by simp
  qed
qed simp

text \<open>The items of the playback rows whose release is known.\<close>

fun played_items :: "library_env \<Rightarrow> (playback_state \<Rightarrow> catalog_source list) \<Rightarrow> playback_state list \<Rightarrow> catalog_world
    \<Rightarrow> household_item list \<times> catalog_world" where
  "played_items env sources [] w = ([], w)"
| "played_items env sources (p # ps) w =
     (let (item, w1) = householdItem env p False (sources p) w; (items, w2) = played_items env sources ps w1 in
      ((case item of None \<Rightarrow> items | Some i \<Rightarrow> i # items), w2))"

lemma playback_loop_items:
  "playback_loop env sources ps l w = (fold add_to_lists (fst (played_items env sources ps w)) l, snd (played_items env sources ps w))"
  by (induction ps arbitrary: l w) (auto simp: Let_def split: prod.splits option.splits)

lemma fold_lists:
  "fold add_to_lists items l = \<lparr>ll_recent = fold (add_item 30 (\<lambda>_. True)) items (ll_recent l),
     ll_watched = fold (add_item 50 is_watched) items (ll_watched l), ll_continue = fold (add_item 50 is_started) items (ll_continue l)\<rparr>"
  by (induction items arbitrary: l) (simp_all add: add_to_lists_def)

lemma householdItem_playback: "householdItem env p fav sources w = (Some i, w1) \<Longrightarrow> hi_Playback i = p \<and> lb_release env (pb_ReleaseID p) \<noteq> None"
  by (auto simp: householdItem_def Let_def split: option.splits if_splits prod.splits)

lemma householdItem_None: "householdItem env p fav sources w = (None, w1) \<Longrightarrow> lb_release env (pb_ReleaseID p) = None"
  by (auto simp: householdItem_def Let_def split: option.splits if_splits prod.splits)

lemma played_items_rows: "map hi_Playback (fst (played_items env sources ps w)) = filter (\<lambda>p. lb_release env (pb_ReleaseID p) \<noteq> None) ps"
proof (induction ps arbitrary: w)
  case (Cons p ps)
  obtain item w1 where i: "householdItem env p False (sources p) w = (item, w1)" by fastforce
  show ?case
  proof (cases item)
    case None
    then show ?thesis using Cons[of w1] i householdItem_None[of env p False "sources p" w w1] by (auto split: prod.splits)
  next
    case (Some x)
    then show ?thesis using Cons[of w1] i householdItem_playback[of env p False "sources p" w x w1] by (auto split: prod.splits)
  qed
qed simp


section \<open>Favorites and categories\<close>

lemma title_of_sources:
  assumes "sources_of hash tid xs \<noteq> []"
  shows "ct_ID (hd (groupCatalog hash (sources_of hash tid xs) inc)) = tid"
proof -
  let ?ys = "sources_of hash tid xs"
  have all: "\<forall>y\<in>set ?ys. source_id hash y = tid" by (simp add: sources_of_def)
  have "first_ids hash ?ys \<noteq> []" using set_first_ids[of hash ?ys] assms by auto
  then have hd: "hd (first_ids hash ?ys) = tid" using set_first_ids[of hash ?ys] all hd_in_set[of "first_ids hash ?ys"] by auto
  have same: "sources_of hash tid ?ys = ?ys" by (simp add: sources_of_def)
  have "hd (groupCatalog hash ?ys inc) = finish_group (group_of inc tid ?ys)"
    using \<open>first_ids hash ?ys \<noteq> []\<close> assms hd same by (simp add: groupCatalog_def fold_groups hd_map)
  then show ?thesis using group_rest(3)[OF assms, of inc tid] by (simp add: finish_group_def new_group_def)
qed

lemma cached_title_id: "ct_ID (fst (applyCachedMetadata cat t w)) = ct_ID t"
  by (auto simp: applyCachedMetadata_def applyMetadata_def Let_def split: sum.splits if_splits)

lemma householdItem_title:
  assumes "householdItem env p fav sources w = (Some i, w1)" "sources = sources_of (cv_hash (lb_catalog env)) tid xs" "sources \<noteq> []"
  shows "hi_TitleID i = tid \<and> hi_Favorite i = fav"
proof -
  let ?t = "hd (groupCatalog (cv_hash (lb_catalog env)) sources False)"
  have "ct_ID (fst (applyCachedMetadata (lb_catalog env) ?t w)) = tid"
    using title_of_sources[of "cv_hash (lb_catalog env)" tid xs False] assms(2,3) by (simp add: cached_title_id)
  then show ?thesis using assms(1,3) by (auto simp: householdItem_def Let_def split: option.splits prod.splits)
qed

lemma favorite_loop_titles:
  assumes "\<And>tid. sources tid = sources_of (cv_hash (lb_catalog env)) tid xs"
  shows "map hi_TitleID (fst (favorite_loop env sources chosen fs w))
      = filter (\<lambda>tid. sources tid \<noteq> [] \<and> lb_release env (pb_ReleaseID (chosen tid (sources tid))) \<noteq> None) (map fv_TitleID fs)
    \<and> list_all hi_Favorite (fst (favorite_loop env sources chosen fs w))"
proof (induction fs arbitrary: w)
  case (Cons f fs)
  let ?xs = "sources (fv_TitleID f)" and ?p = "chosen (fv_TitleID f) (sources (fv_TitleID f))"
  show ?case
  proof (cases "?xs = []")
    case False
    obtain item w1 where i: "householdItem env ?p True ?xs w = (item, w1)" by fastforce
    show ?thesis
    proof (cases item)
      case None
      then show ?thesis using Cons[of w1] i False householdItem_None[of env ?p True ?xs w w1] by (auto simp: Let_def split: prod.splits)
    next
      case (Some x)
      with i have ix: "householdItem env ?p True ?xs w = (Some x, w1)" by simp
      show ?thesis
        using Cons[of w1] ix False householdItem_title[OF ix assms False] householdItem_playback[OF ix]
        by (auto simp: Let_def split: prod.splits)
    qed
  qed (use Cons in \<open>simp add: Let_def\<close>)
qed simp

text \<open>
  (\<open>HouseholdState\<close>) The favorites are listed newest first, each once and under its own
  title, if the catalog has a source of it and the release to resume is known.
\<close>

theorem favorites_listed:
  assumes "HouseholdState env w = (Inr st, w')" "cv_playback (lb_catalog env) = Some ps" "lb_favorites env = Some favorites"
  shows "map hi_TitleID (hs_Favorites st) = filter (\<lambda>tid. household_sources env ps favorites tid \<noteq> []
        \<and> lb_release env (pb_ReleaseID (favorite_playback (household_titles env ps) ps (household_downloads env) tid
            (household_sources env ps favorites tid))) \<noteq> None) (map fv_TitleID favorites)
    \<and> list_all hi_Favorite (hs_Favorites st)"
proof -
  let ?sources = "household_sources env ps favorites"
  let ?chosen = "favorite_playback (household_titles env ps) ps (household_downloads env)"
  let ?items = "played_items env (\<lambda>p. ?sources (title_at (household_titles env ps) (pb_ReleaseID p))) ps w"
  have st: "hs_Favorites st = fst (favorite_loop env ?sources ?chosen favorites (snd ?items))"
    using assms(1) unfolding HouseholdState_def assms(2,3) option.case Let_def playback_loop_items by (auto split: prod.splits)
  show ?thesis unfolding st by (rule favorite_loop_titles) (rule household_sources_def)
qed

lemma keep_newest_map:
  "map_of (keep_newest i m) = (case map_of m (library_key i) of
     None \<Rightarrow> (map_of m)(library_key i \<mapsto> i)
   | Some c \<Rightarrow> if updated i > updated c then (map_of m)(library_key i \<mapsto> i) else map_of m)"
  by (simp add: keep_newest_def update_conv' split: option.splits)

lemma keep_newest_grows:
  "map_of m k = Some x \<Longrightarrow> \<exists>y. map_of (keep_newest i m) k = Some y \<and> updated x \<le> updated y"
  by (auto simp: keep_newest_map split: option.splits)

lemma fold_newest_grows:
  "map_of m k = Some x \<Longrightarrow> \<exists>y. map_of (fold keep_newest items m) k = Some y \<and> updated x \<le> updated y"
proof (induction items arbitrary: m x)
  case (Cons i items)
  obtain z where z: "map_of (keep_newest i m) k = Some z" "updated x \<le> updated z" using keep_newest_grows[OF Cons.prems] by blast
  from Cons.IH[OF z(1)] z(2) show ?case by (auto intro: order.trans)
qed auto

lemma fold_newest_covers:
  "x \<in> set items \<Longrightarrow> \<exists>y. map_of (fold keep_newest items m) (library_key x) = Some y \<and> updated x \<le> updated y"
proof (induction items arbitrary: m)
  case (Cons i items)
  show ?case
  proof (cases "x \<in> set items")
    case False
    then have "x = i" using Cons.prems by simp
    moreover have "\<exists>y. map_of (keep_newest i m) (library_key i) = Some y \<and> updated i \<le> updated y"
      by (auto simp: keep_newest_map split: option.splits)
    ultimately obtain z where z: "map_of (keep_newest i m) (library_key x) = Some z" "updated x \<le> updated z" by blast
    from fold_newest_grows[OF z(1), of items] z(2) show ?thesis by (auto intro: order.trans)
  qed (use Cons.IH in simp)
qed simp

lemma fold_newest_from:
  "map_of (fold keep_newest items m) k = Some y \<Longrightarrow> y \<in> set items \<and> library_key y = k \<or> map_of m k = Some y"
proof (induction items arbitrary: m)
  case (Cons i items)
  then have "y \<in> set items \<and> library_key y = k \<or> map_of (keep_newest i m) k = Some y" by simp
  then show ?case by (auto simp: keep_newest_map split: option.splits if_splits)
qed simp

lemma fold_newest_distinct: "distinct (map fst m) \<Longrightarrow> distinct (map fst (fold keep_newest items m))"
  by (induction items arbitrary: m) (auto simp: keep_newest_def distinct_update split: option.splits)

text \<open>
  (\<open>library\<close>) Selecting a category lists items of the household in that category only,
  newest first and each title once, and for everything listed anywhere in that category an
  item of the same title that is at least as new.
\<close>

theorem category_lists_newest:
  assumes "trim_space category \<noteq> []" "library ''categories'' category st = LibraryItems items"
  shows "sorted (map (\<lambda>i. - updated i) items) \<and> distinct (map library_key items)
    \<and> (\<forall>i\<in>set items. i \<in> set (listed_items st) \<and> equal_fold (rel_Category (hi_Release i)) (trim_space category))
    \<and> (\<forall>x\<in>set (listed_items st). \<exists>y\<in>snd ` set (by_source st). library_key y = library_key x \<and> updated x \<le> updated y
         \<and> (equal_fold (rel_Category (hi_Release y)) (trim_space category) \<longrightarrow> y \<in> set items))"
proof -
  let ?P = "\<lambda>i. equal_fold (rel_Category (hi_Release i)) (trim_space category)"
  have items: "items = sort_key (\<lambda>i. - updated i) (filter ?P (map snd (by_source st)))"
    using assms by (simp add: library_def Let_def items_in_category_def)
  have d: "distinct (map fst (by_source st))" unfolding by_source_def by (rule fold_newest_distinct) simp
  have el: "y \<in> set (listed_items st) \<and> library_key y = k" if m: "(k, y) \<in> set (by_source st)" for k y
    using fold_newest_from[of "listed_items st" "[]" k y] map_of_is_SomeI[OF d m] by (simp add: by_source_def)
  have keys: "map library_key (map snd (by_source st)) = map fst (by_source st)" using el by (auto intro: map_cong)
  have "mset (map library_key items) = mset (map library_key (filter ?P (map snd (by_source st))))" by (simp add: items)
  moreover have "distinct (map library_key (filter ?P (map snd (by_source st))))"
    using d unfolding keys[symmetric] by (rule distinct_map_filter)
  ultimately have di: "distinct (map library_key items)" by (metis mset_eq_imp_distinct_iff)
  have "\<exists>y\<in>snd ` set (by_source st). library_key y = library_key x \<and> updated x \<le> updated y \<and> (?P y \<longrightarrow> y \<in> set items)"
    if x: "x \<in> set (listed_items st)" for x
  proof -
    obtain y where y: "map_of (by_source st) (library_key x) = Some y" "updated x \<le> updated y"
      using fold_newest_covers[OF x, of "[]"] by (auto simp: by_source_def)
    have m: "(library_key x, y) \<in> set (by_source st)" by (rule map_of_SomeD[OF y(1)])
    then have "y \<in> snd ` set (by_source st)" by force
    then show ?thesis using el[OF m] y(2) by (intro bexI[of _ y]) (auto simp: items)
  qed
  moreover have "\<forall>i\<in>set items. i \<in> set (listed_items st) \<and> ?P i" using el by (auto simp: items)
  moreover have "sorted (map (\<lambda>i. - updated i) items)" unfolding items by (rule sorted_sort_key)
  ultimately show ?thesis using di by (intro conjI ballI) blast+
qed

section \<open>A concrete household\<close>

definition sample_library :: library_env where
  "sample_library = \<lparr>lb_catalog = sample_env\<lparr>cv_playback := Some [watched_row]\<rparr>, lb_release = (\<lambda>r. Some (cs_Release (sample_source r 1 1))),
     lb_titles = (\<lambda>_ _. None), lb_favorites = Some [\<lparr>fv_ProfileID = ''household'', fv_TitleID = ''t'', fv_CreatedAt = 0\<rparr>]\<rparr>"

lemma sample_library_runs: "\<exists>st w'. HouseholdState sample_library sample_world = (Inr st, w')"
proof -
  have "cv_playback (lb_catalog sample_library) = Some [watched_row]"
    "lb_favorites sample_library = Some [\<lparr>fv_ProfileID = ''household'', fv_TitleID = ''t'', fv_CreatedAt = 0\<rparr>]"
    by (simp_all add: sample_library_def)
  then show ?thesis unfolding HouseholdState_def by (simp only: option.case Let_def split_def) blast
qed


lemma favorites_listed_witness: "\<exists>st :: household_state. list_all hi_Favorite (hs_Favorites st)"
proof -
  obtain st w' where r: "HouseholdState sample_library sample_world = (Inr st, w')" using sample_library_runs by blast
  have "cv_playback (lb_catalog sample_library) = Some [watched_row]"
    "lb_favorites sample_library = Some [\<lparr>fv_ProfileID = ''household'', fv_TitleID = ''t'', fv_CreatedAt = 0\<rparr>]"
    by (simp_all add: sample_library_def)
  from favorites_listed[OF r this] show ?thesis by blast
qed

definition watched_item :: household_item where
  "watched_item = \<lparr>hi_Release = cs_Release (sample_source ''1'' 1 1), hi_Catalog = None, hi_Playback = watched_row, hi_Favorite = True,
     hi_TitleID = ''t'', hi_SeasonNumber = 1, hi_EpisodeNumber = 1\<rparr>"

definition sample_state :: household_state where
  "sample_state = \<lparr>hs_Favorites = [watched_item], hs_ContinueWatching = [], hs_Recent = [watched_item\<lparr>hi_Favorite := False\<rparr>], hs_Watched = []\<rparr>"

lemma category_lists_newest_witness:
  "\<exists>items. library ''categories'' ''c'' sample_state = LibraryItems items \<and> sorted (map (\<lambda>i. - updated i) items) \<and> distinct (map library_key items)"
proof -
  have "trim_space ''c'' \<noteq> []" by code_simp
  then have "library ''categories'' ''c'' sample_state = LibraryItems (items_in_category (trim_space ''c'') sample_state)" by (simp add: library_def)
  from category_lists_newest[OF _ this] \<open>trim_space ''c'' \<noteq> []\<close> this show ?thesis by blast
qed

end
