(* ===== verification/Spec2Isabelle.thy ===== *)
theory Spec2Isabelle
  imports Language Manifest Admission Jobs Portal Coordinator Artwork Settings Streaming ManagedRows SubtitleService Events Library
begin

text \<open>
  A verification development for the FileList streaming service, a self-hosted Go server
  (\<open>src/cmd\<close>, \<open>src/internal\<close>) that searches a private tracker, downloads torrents through an
  engine, streams their files while they download, keeps the storage within a configured
  allocation, shows a catalog of titles with what the household watched, prepares
  subtitles, shows a portal feed and updates itself from repository releases.

  \<^bold>\<open>How the program is put together.\<close> The HTTP layer (\<open>adapters/httpapi\<close>) and the scheduler call
  the application service (\<open>application/service.go\<close> and its neighbours). The service owns no data
  of its own: rows live in SQLite (\<open>adapters/sqlite/repository.go\<close>), torrents in the engine
  behind the \<open>DownloadEngine\<close> port, settings in \<open>platform/config\<close>. A background job is a row of the
  jobs table plus a request in a bounded channel. Retention and admission share one
  eviction step that removes a torrent with all its rows. The catalog groups releases into
  titles by their parsed names and rolls download and playback states up to them; the
  library views and the subtitle search read the same rows. The portal hub and the update
  manager run beside the service; every change is an event in a journal that connected
  clients receive live.

  \<^bold>\<open>Which theory models what.\<close>
  \<^item> \<open>Prelude\<close>: 64-bit integers with their wrap-around (\<open>i64\<close>), Go's string functions, lists of
    path elements. \<open>Effects\<close>: operations that may fail over an explicit state (\<open>seq\<close>, \<open>attempt\<close>,
    \<open>each\<close>) and the rules of \<open>yields I m Q\<close>, by which an invariant is carried through the
    structure of an operation. \<open>Strconv\<close>: decimal numbers.
  \<^item> \<open>Domain\<close>, \<open>Language\<close>: the records of \<open>domain/models.go\<close>, states and categories, language tags.
  \<^item> \<open>Paths\<close>: \<open>path/filepath\<close> on Unix and the containment guards of the service.
  \<^item> \<open>Bencode\<close>, \<open>Manifest\<close>: \<open>application/torrentmeta.go\<close>, the reader of torrent files and the
    manifests made from them.
  \<^item> \<open>JobTable\<close>, \<open>Jobs\<close>: the jobs table, failed attempts, the queues, workers, retries and the
    recovery after a restart (\<open>service.go\<close>), as a step relation with its reachable states.
  \<^item> \<open>EvictionRules\<close>, \<open>EvictionOrder\<close>, \<open>Retention\<close>, \<open>Admission\<close>: \<open>application/retention.go\<close> and
    \<open>ensureAllocationRoom\<close>: the survey, the protections, the order, one eviction, the hourly run
    and the admission of a new torrent.
  \<^item> \<open>DownloadTable\<close>, \<open>Downloads\<close>, \<open>ManagedRows\<close>: the downloads table as a map, and preparing,
    refreshing, managing and leasing downloads (\<open>service.go\<close>) over the table, the torrents of
    the engine and a journal of file selections.
  \<^item> \<open>Regexp\<close>, \<open>Matching\<close>: Go's regular expressions with leftmost-first matching, its soundness,
    and completeness for patterns without anchors.
  \<^item> \<open>ReleaseNames\<close>, \<open>Catalog\<close>, \<open>LibraryStates\<close>, \<open>EpisodeFiles\<close>, \<open>TitleDetail\<close>, \<open>Artwork\<close>: \<open>domain/catalog.go\<close>
    (\<open>ParseRelease\<close>, \<open>CatalogTitleID\<close>) and \<open>application/catalog.go\<close>: grouping sources into titles,
    the states of sources, episodes, seasons and packs, the detail of a title, pages of
    titles, and the image cache over a disk with names, files and open handles.
  \<^item> \<open>Cues\<close>, \<open>Subtitles\<close>, \<open>SubtitleService\<close>: \<open>application/subtitles.go\<close>: the conversions to WebVTT and
    SAMI, names and languages, unpacking, pruning, the search and the preparation of an asset.
  \<^item> \<open>Household\<close>, \<open>Library\<close>: the tables of playback, preferences and favorites with their operations,
    \<open>HouseholdState\<close> of \<open>service.go\<close> and the library handler of \<open>httpapi/api.go\<close>.
  \<^item> \<open>Events\<close>: the event journal, the fan-out to subscribers and the event stream handler, as
    interleaved publishers and connections.
  \<^item> \<open>Streaming\<close>: the stream handler of \<open>httpapi/api.go\<close>, both playback strategies of
    \<open>application/streaming.go\<close>, the wait for pieces and the audio window of \<open>anchor.go\<close>.
  \<^item> \<open>Settings\<close>: \<open>platform/config\<close>, the settings store with its environment overlay, secrets and
    onboarding.
  \<^item> \<open>Portal\<close>: \<open>application/portal/hub.go\<close>, the refresh cycle and the loop as steps on the hub.
  \<^item> \<open>Releases\<close>, \<open>Staging\<close>, \<open>Recovery\<close>, \<open>Coordinator\<close>: \<open>application/updates\<close>, the resolution of a
    release, its staging and extraction over a file system with symbolic links
    (\<open>stage.go\<close>), the update transaction with its crash recovery, and the coordinator
    (\<open>manager.go\<close>) as interleaved goroutines with the installation pipeline that joins the
    other three.

  \<^bold>\<open>What the lemmas show.\<close> Each theory proves the invariant of its state and that every operation
  keeps it (distinct ids, queued jobs with a request, no promotion for a donor, valid
  settings, rows inside the download root), what its operations do on every branch, and
  where the source promises more the promise itself: an eviction spares what is in use, a
  range request is answered with exactly its bytes, saving a redacted view keeps the
  secrets, a crash at any point of an update leaves a complete executable, an extraction
  writes nothing outside of its directory, only one operation is ever in flight, a detail lists
  every source of its title, a converted subtitle has every cue positioned once and carries no
  markup, a live client misses no event. Where the code
  does not keep a promise, a theorem exhibits the run that breaks it; the manifest lists
  these as findings.

  \<^bold>\<open>Modelling conventions.\<close> Go strings are lists of bytes; case folding and trimming are on
  ASCII. Times are nanoseconds. A float is a rational, so rounding is not modelled. Errors
  are values of a sum type. Calls to the engine, the tracker, the database, the disk and
  the network are parameters (records of answers and outcomes) and every one of them may
  fail. Locks make operations on one key atomic, and the models run them one at a time;
  where the source interleaves (workers, the hub, the update manager) the step relations do.

  \<^bold>\<open>Bounds and fuel.\<close> \<open>readBNode\<close> runs on fuel twice the input length plus two, and is proved never
  to run out of it; the retention and admission loops terminate because each pass deletes
  a row; the chunk loop of a stream is a partial function that is proved to return. A path
  resolves through at most 40 links, as on Linux; \<open>walk\<close> terminates by that bound.

  \<^bold>\<open>Not modelled.\<close> The desktop shell (\<open>internal/gui\<close>), command wiring and composition, the HTTP
  routing and JSON encoding, the clients of remote services (tracker, TMDB, subtitles,
  portal, qBittorrent) and the native torrent engine, FFmpeg invocations, the platform
  adapters (autostart, single instance, disk space, data directory), the Windows and macOS
  installers and the schema migrations: their logic is calls to libraries and the operating
  system. Of the repository the catalog queries and the job logs are left out: their rows
  reach the models as answers of the database. Of the service the worker slots, shutdown,
  the scheduler's clock and fields that are only displayed are left out.
\<close>

end
